(* ===== verification/Prelude.thy ===== *)
theory Prelude
  imports Main "HOL-Library.Word"
begin

text \<open>
  Shared vocabulary of the development: the types every component uses, the collections of
  simplification facts, and the generic list lemmas that the table, cache and pagination
  proofs share.

  A \<open>uuid\<close> is the 16-byte array of the source's uuid package, read as one 128-bit word; the
  nil UUID is the zero word.  An \<open>instant\<close> is a point in time in nanoseconds, a \<open>duration\<close> a
  difference of two of them.  Go strings are byte sequences, which is what \<open>string\<close> is.
\<close>

type_synonym uuid = "128 word"
type_synonym instant = int
type_synonym duration = int

text \<open>The facts that unfold the model of Go's standard library.\<close>

named_theorems go_std

text \<open>The facts that describe single statements on the two tables.\<close>

named_theorems sql_defs

text \<open>Frame facts: what an operation leaves unchanged.\<close>

named_theorems frame_simps

section \<open>Durations\<close>

definition Nanosecond :: duration where
  "Nanosecond = 1"

definition Millisecond :: duration where
  "Millisecond = 1000000"

definition Second :: duration where
  "Second = 1000 * Millisecond"

definition Hour :: duration where
  "Hour = 3600 * Second"

definition Day :: duration where
  "Day = 24 * Hour"

lemmas duration_defs = Nanosecond_def Millisecond_def Second_def Hour_def Day_def

section \<open>Lists\<close>

lemma filter_nil_iff: "filter P xs = [] \<longleftrightarrow> (\<forall>x \<in> set xs. \<not> P x)"
  by (induction xs) auto

lemma map_if_id: "(\<And>x. x \<in> set xs \<Longrightarrow> \<not> P x) \<Longrightarrow> map (\<lambda>x. if P x then f x else x) xs = xs"
  by (induction xs) auto

lemma filter_map_if:
  "(\<And>x. P x \<Longrightarrow> \<not> Q (f x)) \<Longrightarrow>
    filter Q (map (\<lambda>x. if P x then f x else x) xs) = filter (\<lambda>x. Q x \<and> \<not> P x) xs"
  by (induction xs) auto

lemma length_filter_le_one_unique:
  assumes "length (filter P xs) \<le> 1" "x \<in> set xs" "y \<in> set xs" "P x" "P y"
  shows "x = y"
proof -
  from assms(2,4) have x: "x \<in> set (filter P xs)" by simp
  from assms(3,5) have y: "y \<in> set (filter P xs)" by simp
  from assms(1) obtain z where "set (filter P xs) \<subseteq> {z}"
    by (cases "filter P xs") auto
  with x y show ?thesis by auto
qed

lemma length_filter_mono:
  "(\<And>x. x \<in> set xs \<Longrightarrow> P x \<Longrightarrow> Q x) \<Longrightarrow> length (filter P xs) \<le> length (filter Q xs)"
  by (induction xs) auto

lemma filter_single:
  assumes "length (filter P xs) \<le> 1" "x \<in> set xs" "P x"
  shows "filter P xs = [x]"
proof -
  from assms(2,3) have x: "x \<in> set (filter P xs)" by simp
  with assms(1) show ?thesis
    by (cases "filter P xs") auto
qed

text \<open>A window \<open>take n (drop k xs)\<close> and its successor are one longer window.\<close>

lemma take_drop_append: "take m (drop k xs) @ take n (drop (k + m) xs) = take (m + n) (drop k xs)"
  by (simp add: take_add add.commute)

text \<open>Reading a list page by page, each page as long as asked for, gives the list back.\<close>

fun pages :: "nat \<Rightarrow> nat \<Rightarrow> nat \<Rightarrow> 'a list \<Rightarrow> 'a list" where
  "pages 0 n k xs = []"
| "pages (Suc m) n k xs = take n (drop k xs) @ pages m n (k + n) xs"

lemma pages_take: "pages m n k xs = take (m * n) (drop k xs)"
  by (induction m arbitrary: k) (simp_all add: take_drop_append)

section \<open>Options and maps\<close>

lemma lambda_upd: "(\<lambda>a. if a = k then Some v else m a) = m(k \<mapsto> v)"
  by (simp add: fun_upd_def)

lemma option_case_Inl_Inr:
  "(case x of None \<Rightarrow> Inl a | Some b \<Rightarrow> Inr b) = Inr c \<longleftrightarrow> x = Some c"
  by (cases x) auto

end
