(* ===== verification/Domain.thy ===== *)
theory Domain
  imports GoStd
begin

text \<open>
  The business types of \<open>internal/core/domain\<close>: the error taxonomy of \<open>errors.go\<close> with Go's
  error chains, and the access levels, the entry and the access answer of \<open>acl.go\<close>.
\<close>

section \<open>Go errors\<close>

text \<open>
  An error value.  \<open>DomainErr\<close> is \<open>*domain.Error\<close> with its code and message; \<open>PgErr\<close> is a
  server error with its SQLSTATE and its \<open>Error()\<close> text; \<open>Sentinel\<close> is one of the package-level
  error values the source compares with; \<open>OpErr\<close> is \<open>*net.OpError\<close> and \<open>ErrnoErr\<close> a
  \<open>syscall.Errno\<close>; \<open>Plain\<close> is any other leaf.  \<open>Wrapped\<close> is what \<open>fmt.Errorf("...: %w", e)\<close>
  builds: the text in front of the inner error's text, and the inner error.
\<close>

datatype sentinel = ErrNoRows | ErrClosedPool | SEOF | ErrUnexpectedEOF | RedisNil | ErrServerClosed

datatype go_error =
    DomainErr string string
  | PgErr string string
  | Sentinel sentinel string
  | OpErr string
  | ErrnoErr int string
  | Plain string
  | Wrapped string go_error

text \<open>The \<open>Error()\<close> text of an error; a domain error's text is its message.\<close>

fun Error_text :: "go_error \<Rightarrow> string" where
  "Error_text (DomainErr code msg) = msg"
| "Error_text (PgErr state txt) = txt"
| "Error_text (Sentinel s txt) = txt"
| "Error_text (OpErr txt) = txt"
| "Error_text (ErrnoErr n txt) = txt"
| "Error_text (Plain txt) = txt"
| "Error_text (Wrapped prefix e) = prefix @ Error_text e"

text \<open>The chain that \<open>errors.Is\<close> and \<open>errors.As\<close> walk: the error, then what it wraps.\<close>

fun chain :: "go_error \<Rightarrow> go_error list" where
  "chain (Wrapped prefix e) = Wrapped prefix e # chain e"
| "chain e = [e]"

definition errors_Is :: "go_error \<Rightarrow> sentinel \<Rightarrow> bool" where
  "errors_Is e s = list_ex (\<lambda>x. case x of Sentinel s' _ \<Rightarrow> s' = s | _ \<Rightarrow> False) (chain e)"

text \<open>\<open>errors.As(err, &de)\<close> for \<open>*domain.Error\<close>: the first one in the chain.\<close>

fun as_domain :: "go_error \<Rightarrow> (string \<times> string) option" where
  "as_domain (DomainErr code msg) = Some (code, msg)"
| "as_domain (Wrapped prefix e) = as_domain e"
| "as_domain _ = None"

text \<open>The SQLSTATE of the first server error in the chain.\<close>

fun sqlstate :: "go_error \<Rightarrow> string option" where
  "sqlstate (PgErr state txt) = Some state"
| "sqlstate (Wrapped prefix e) = sqlstate e"
| "sqlstate _ = None"

lemma chain_nonempty [simp]: "chain e \<noteq> []"
  by (cases e) auto

lemma errors_Is_Wrapped [simp]: "errors_Is (Wrapped p e) s = errors_Is e s"
  by (simp add: errors_Is_def)

lemma errors_Is_leaf [simp]:
  "errors_Is (DomainErr c m) s = False"
  "errors_Is (PgErr st t) s = False"
  "errors_Is (Sentinel s' t) s = (s' = s)"
  "errors_Is (OpErr t) s = False"
  "errors_Is (ErrnoErr n t) s = False"
  "errors_Is (Plain t) s = False"
  by (simp_all add: errors_Is_def)

section \<open>The error taxonomy (errors.go)\<close>

definition ErrCodeInvalidRequest :: string where
  "ErrCodeInvalidRequest = ''invalid_request''"

definition ErrCodeUnauthorized :: string where
  "ErrCodeUnauthorized = ''unauthorized''"

definition ErrCodeInsufficientRole :: string where
  "ErrCodeInsufficientRole = ''insufficient_role''"

definition ErrCodeInvalidAccessLevel :: string where
  "ErrCodeInvalidAccessLevel = ''invalid_access_level''"

definition ErrCodeInvalidReason :: string where
  "ErrCodeInvalidReason = ''invalid_reason''"

definition ErrCodeInvalidExpiry :: string where
  "ErrCodeInvalidExpiry = ''invalid_expiry''"

definition ErrCodeGranteeNotActiveMember :: string where
  "ErrCodeGranteeNotActiveMember = ''grantee_not_active_member''"

definition ErrCodeOptimisticLockConflict :: string where
  "ErrCodeOptimisticLockConflict = ''optimistic_lock_conflict''"

definition ErrCodeDuplicateGrant :: string where
  "ErrCodeDuplicateGrant = ''duplicate_grant''"

definition ErrCodeCoreUnavailable :: string where
  "ErrCodeCoreUnavailable = ''core_unavailable''"

definition ErrCodeDependencyUnavailable :: string where
  "ErrCodeDependencyUnavailable = ''dependency_unavailable''"

definition ErrCodeInternal :: string where
  "ErrCodeInternal = ''internal_server_error''"

lemmas err_codes =
  ErrCodeInvalidRequest_def ErrCodeUnauthorized_def ErrCodeInsufficientRole_def
  ErrCodeInvalidAccessLevel_def ErrCodeInvalidReason_def ErrCodeInvalidExpiry_def
  ErrCodeGranteeNotActiveMember_def ErrCodeOptimisticLockConflict_def ErrCodeDuplicateGrant_def
  ErrCodeCoreUnavailable_def ErrCodeDependencyUnavailable_def ErrCodeInternal_def

definition NewError :: "string \<Rightarrow> string \<Rightarrow> go_error" where
  "NewError code message = DomainErr code message"

text \<open>\<open>CodeOf\<close>: \<open>None\<close> is Go's nil error.\<close>

definition CodeOf :: "go_error option \<Rightarrow> string \<times> bool" where
  "CodeOf err =
     (case err of
        None \<Rightarrow> ([], False)
      | Some e \<Rightarrow> (case as_domain e of Some (code, _) \<Rightarrow> (code, True) | None \<Rightarrow> ([], False)))"

lemma as_domain_NewError [simp]: "as_domain (NewError c m) = Some (c, m)"
  by (simp add: NewError_def)

lemma sqlstate_NewError [simp]: "sqlstate (NewError c m) = None"
  by (simp add: NewError_def)

lemma errors_Is_NewError [simp]: "errors_Is (NewError c m) s = False"
  by (simp add: NewError_def)

lemma CodeOf_NewError [simp]: "CodeOf (Some (NewError c m)) = (c, True)"
  by (simp add: CodeOf_def)

lemma CodeOf_Wrapped [simp]: "CodeOf (Some (Wrapped p e)) = CodeOf (Some e)"
  by (simp add: CodeOf_def)

lemma CodeOf_no_domain: "as_domain e = None \<Longrightarrow> CodeOf (Some e) = ([], False)"
  by (simp add: CodeOf_def)

section \<open>Access levels, entries and access answers (acl.go)\<close>

type_synonym TenderACLLevel = string

definition ACLView :: TenderACLLevel where
  "ACLView = ''view''"

definition ACLEdit :: TenderACLLevel where
  "ACLEdit = ''edit''"

definition ACLApprove :: TenderACLLevel where
  "ACLApprove = ''approve''"

lemmas acl_levels = ACLView_def ACLEdit_def ACLApprove_def

definition Valid :: "TenderACLLevel \<Rightarrow> bool" where
  "Valid l \<longleftrightarrow> l = ACLView \<or> l = ACLEdit \<or> l = ACLApprove"

record TenderACLEntry =
  e_ID :: uuid
  e_TenantID :: uuid
  e_TenderID :: uuid
  e_UserID :: uuid
  e_TenantMembershipID :: uuid
  e_AccessLevel :: TenderACLLevel
  e_GrantedBy :: uuid
  e_Reason :: string
  e_ExpiresAt :: "instant option"
  e_RecordVersion :: int
  e_CreatedAt :: instant
  e_UpdatedAt :: instant
  e_DeletedAt :: "instant option"

text \<open>The Go zero value of the struct, which the service fills in before a grant.\<close>

definition zero_entry :: TenderACLEntry where
  "zero_entry =
     \<lparr>e_ID = 0, e_TenantID = 0, e_TenderID = 0, e_UserID = 0, e_TenantMembershipID = 0,
      e_AccessLevel = [], e_GrantedBy = 0, e_Reason = [], e_ExpiresAt = None,
      e_RecordVersion = 0, e_CreatedAt = 0, e_UpdatedAt = 0, e_DeletedAt = None\<rparr>"

definition IsActive :: "TenderACLEntry \<Rightarrow> instant \<Rightarrow> bool" where
  "IsActive e now =
     (if e_DeletedAt e \<noteq> None then False
      else if (case e_ExpiresAt e of Some x \<Rightarrow> \<not> now < x | None \<Rightarrow> False) then False
      else True)"

record CachedAccess =
  ca_HasAccess :: bool
  ca_AccessLevel :: "string option"
  ca_ExpiresAt :: "instant option"

lemma IsActive_iff:
  "IsActive e now \<longleftrightarrow>
     e_DeletedAt e = None \<and> (case e_ExpiresAt e of None \<Rightarrow> True | Some x \<Rightarrow> now < x)"
  by (auto simp: IsActive_def split: option.splits)

text \<open>Expiry is passive and final: an entry that is inactive stays inactive as time goes on.\<close>

lemma IsActive_antimono: "IsActive e t' \<Longrightarrow> t \<le> t' \<Longrightarrow> IsActive e t"
  by (auto simp: IsActive_iff split: option.splits)

end
