(* ===== verification/Context.thy ===== *)
theory Context
  imports Domain
begin

text \<open>
  What the source carries in a \<open>context.Context\<close>: the caller's identity
  (\<open>http/context.go\<close>), the tenant GUC that the transaction helper will bind
  (\<open>withTenant\<close>, \<open>withTenantGUC\<close>), the open transaction (\<open>db.go\<close>, \<open>WithTx\<close>) and the trace
  id of the current span.  Context values are immutable in Go: storing one gives a new context.
\<close>

section \<open>The request identity (http/context.go)\<close>

record RequestContext =
  rc_TenantID :: string
  rc_UserID :: string
  rc_Roles :: "string list"

text \<open>The two nested loops: some wanted role is among the roles the caller has.\<close>

fun have_role :: "string \<Rightarrow> string list \<Rightarrow> bool" where
  "have_role want [] = False"
| "have_role want (have # rest) = (if have = want then True else have_role want rest)"

fun HasAnyRole :: "RequestContext \<Rightarrow> string list \<Rightarrow> bool" where
  "HasAnyRole rc [] = False"
| "HasAnyRole rc (want # rest) =
     (if have_role want (rc_Roles rc) then True else HasAnyRole rc rest)"

lemma have_role_iff: "have_role want rs \<longleftrightarrow> want \<in> set rs"
  by (induction rs) auto

lemma HasAnyRole_iff: "HasAnyRole rc ws \<longleftrightarrow> set ws \<inter> set (rc_Roles rc) \<noteq> {}"
  by (induction ws) (auto simp: have_role_iff)

section \<open>The context\<close>

text \<open>
  An open transaction as the driver hands it to a closure: the value of \<open>app.tenant_id\<close> that
  was bound when it began, and the number of the attempt (a transaction that is retried runs
  its closure again).
\<close>

record pgx_tx =
  tx_guc :: "string option"
  tx_attempt :: nat

text \<open>The span context of the current span, where it is valid.\<close>

record SpanContext =
  sc_TraceID :: string
  sc_SpanID :: string
  sc_Sampled :: bool

record ctx =
  ctx_guc :: "string option"
  ctx_tx :: "pgx_tx option"
  ctx_rc :: "RequestContext option"
  ctx_trace :: "SpanContext option"

definition Background :: ctx where
  "Background = \<lparr>ctx_guc = None, ctx_tx = None, ctx_rc = None, ctx_trace = None\<rparr>"

definition WithContext :: "ctx \<Rightarrow> RequestContext \<Rightarrow> ctx" where
  "WithContext c rc = c\<lparr>ctx_rc := Some rc\<rparr>"

definition RequestContextFromContext :: "ctx \<Rightarrow> RequestContext option" where
  "RequestContextFromContext c = ctx_rc c"

definition WithTx :: "ctx \<Rightarrow> pgx_tx \<Rightarrow> ctx" where
  "WithTx c tx = c\<lparr>ctx_tx := Some tx\<rparr>"

definition TxFromContext :: "ctx \<Rightarrow> pgx_tx option" where
  "TxFromContext c = ctx_tx c"

text \<open>
  A tracer starts a child span, and all it changes in the context is the span.
\<close>

type_synonym Tracer = "string \<Rightarrow> SpanContext option \<Rightarrow> SpanContext option"

definition Start :: "Tracer \<Rightarrow> ctx \<Rightarrow> string \<Rightarrow> ctx" where
  "Start tracer c name = c\<lparr>ctx_trace := tracer name (ctx_trace c)\<rparr>"

lemma Start_sel [simp]:
  "ctx_guc (Start tr c n) = ctx_guc c"
  "ctx_tx (Start tr c n) = ctx_tx c"
  "ctx_rc (Start tr c n) = ctx_rc c"
  by (simp_all add: Start_def)

lemma WithTx_sel [simp]:
  "ctx_guc (WithTx c tx) = ctx_guc c"
  "ctx_tx (WithTx c tx) = Some tx"
  "TxFromContext (WithTx c tx) = Some tx"
  by (simp_all add: WithTx_def TxFromContext_def)

lemma RequestContext_roundtrip: "RequestContextFromContext (WithContext c rc) = Some rc"
  by (simp add: RequestContextFromContext_def WithContext_def)

end
