(* ===== verification/Logger.thy ===== *)
theory Logger
  imports Context
begin

text \<open>
  The logging port (\<open>internal/core/port/logger.go\<close>) and the adapter that feeds pgcommon's
  structured fields into it (\<open>postgres/logger_adapter.go\<close>).  A logger acts on the state of the
  outside world, whose type \<open>'w\<close> stays abstract here, as it does for the Go interface.
\<close>

text \<open>The values that the source's call sites pass for \<open>...any\<close>.\<close>

datatype go_any = AString string | AInt int | AOther string

datatype slog_level = LevelDebug | LevelInfo | LevelWarn | LevelError | LevelOther int

type_synonym fields = "string \<rightharpoonup> go_any"

record 'w Logger =
  lg_Debug :: "string \<Rightarrow> fields \<Rightarrow> 'w \<Rightarrow> 'w"
  lg_Info :: "string \<Rightarrow> fields \<Rightarrow> 'w \<Rightarrow> 'w"
  lg_Warn :: "string \<Rightarrow> fields \<Rightarrow> 'w \<Rightarrow> 'w"
  lg_Error :: "string \<Rightarrow> fields \<Rightarrow> 'w \<Rightarrow> 'w"

text \<open>
  The adapter's state.  \<open>sl_slog\<close> is the process-wide slog logger that a nil \<open>log\<close> falls back to.
\<close>

record 'w SlogStyleLogger =
  sl_log :: "'w Logger option"
  sl_base :: "go_any list"
  sl_slog :: "slog_level \<Rightarrow> string \<Rightarrow> go_any list \<Rightarrow> 'w \<Rightarrow> 'w"

definition NewSlogStyleLogger ::
  "(slog_level \<Rightarrow> string \<Rightarrow> go_any list \<Rightarrow> 'w \<Rightarrow> 'w) \<Rightarrow> 'w Logger option \<Rightarrow> 'w SlogStyleLogger" where
  "NewSlogStyleLogger slog log = \<lparr>sl_log = log, sl_base = [], sl_slog = slog\<rparr>"

definition With :: "'w SlogStyleLogger \<Rightarrow> go_any list \<Rightarrow> 'w SlogStyleLogger" where
  "With s args = \<lparr>sl_log = sl_log s, sl_base = sl_base s @ args, sl_slog = sl_slog s\<rparr>"

text \<open>The loop of \<open>kvToFields\<close>: pairs are taken two by two, later keys overwrite earlier ones.\<close>

fun kv_loop :: "fields \<Rightarrow> go_any list \<Rightarrow> fields" where
  "kv_loop m (AString key # v # rest) = kv_loop (m(key \<mapsto> v)) rest"
| "kv_loop m (_ # v # rest) = kv_loop m rest"
| "kv_loop m _ = m"

definition kvToFields :: "go_any list \<Rightarrow> fields" where
  "kvToFields args = kv_loop Map.empty args"

definition log4 ::
  "'w SlogStyleLogger \<Rightarrow> ctx \<Rightarrow> slog_level \<Rightarrow> string \<Rightarrow> go_any list \<Rightarrow> bool \<Rightarrow> 'w \<Rightarrow> 'w" where
  "log4 s c level msg args withCtx w =
     (let all = sl_base s @ args;
          all = (if withCtx then
                   (case ctx_trace c of
                      Some sc \<Rightarrow> all @ [AString ''trace_id'', AString (sc_TraceID sc)]
                    | None \<Rightarrow> all)
                 else all)
      in case sl_log s of
           None \<Rightarrow> sl_slog s level msg all w
         | Some log \<Rightarrow>
             (let fs = kvToFields all
              in case level of
                   LevelDebug \<Rightarrow> lg_Debug log msg fs w
                 | LevelInfo \<Rightarrow> lg_Info log msg fs w
                 | LevelWarn \<Rightarrow> lg_Warn log msg fs w
                 | LevelError \<Rightarrow> lg_Error log msg fs w
                 | LevelOther _ \<Rightarrow> lg_Error log msg fs w))"

definition log_Debug :: "'w SlogStyleLogger \<Rightarrow> string \<Rightarrow> go_any list \<Rightarrow> 'w \<Rightarrow> 'w" where
  "log_Debug s msg args = log4 s Background LevelDebug msg args False"

definition log_Info :: "'w SlogStyleLogger \<Rightarrow> string \<Rightarrow> go_any list \<Rightarrow> 'w \<Rightarrow> 'w" where
  "log_Info s msg args = log4 s Background LevelInfo msg args False"

definition log_Warn :: "'w SlogStyleLogger \<Rightarrow> string \<Rightarrow> go_any list \<Rightarrow> 'w \<Rightarrow> 'w" where
  "log_Warn s msg args = log4 s Background LevelWarn msg args False"

definition log_Error :: "'w SlogStyleLogger \<Rightarrow> string \<Rightarrow> go_any list \<Rightarrow> 'w \<Rightarrow> 'w" where
  "log_Error s msg args = log4 s Background LevelError msg args False"

definition DebugContext :: "'w SlogStyleLogger \<Rightarrow> ctx \<Rightarrow> string \<Rightarrow> go_any list \<Rightarrow> 'w \<Rightarrow> 'w" where
  "DebugContext s c msg args = log4 s c LevelDebug msg args True"

definition InfoContext :: "'w SlogStyleLogger \<Rightarrow> ctx \<Rightarrow> string \<Rightarrow> go_any list \<Rightarrow> 'w \<Rightarrow> 'w" where
  "InfoContext s c msg args = log4 s c LevelInfo msg args True"

definition WarnContext :: "'w SlogStyleLogger \<Rightarrow> ctx \<Rightarrow> string \<Rightarrow> go_any list \<Rightarrow> 'w \<Rightarrow> 'w" where
  "WarnContext s c msg args = log4 s c LevelWarn msg args True"

definition ErrorContext :: "'w SlogStyleLogger \<Rightarrow> ctx \<Rightarrow> string \<Rightarrow> go_any list \<Rightarrow> 'w \<Rightarrow> 'w" where
  "ErrorContext s c msg args = log4 s c LevelError msg args True"

lemmas log_defs =
  log_Debug_def log_Info_def log_Warn_def log_Error_def
  DebugContext_def InfoContext_def WarnContext_def ErrorContext_def

section \<open>The pgcommon adapter (logger_adapter.go)\<close>

text \<open>A pgcommon field is a key and a value; \<open>fieldMap\<close> keeps the last value of a key.\<close>

fun field_loop :: "fields \<Rightarrow> (string \<times> go_any) list \<Rightarrow> fields" where
  "field_loop m [] = m"
| "field_loop m ((k, v) # rest) = field_loop (m(k \<mapsto> v)) rest"

definition fieldMap :: "(string \<times> go_any) list \<Rightarrow> fields" where
  "fieldMap fs = field_loop Map.empty fs"

definition LoggerAdapter_Debug :: "'w Logger \<Rightarrow> string \<Rightarrow> (string \<times> go_any) list \<Rightarrow> 'w \<Rightarrow> 'w" where
  "LoggerAdapter_Debug log msg fs = lg_Debug log msg (fieldMap fs)"

definition LoggerAdapter_Info :: "'w Logger \<Rightarrow> string \<Rightarrow> (string \<times> go_any) list \<Rightarrow> 'w \<Rightarrow> 'w" where
  "LoggerAdapter_Info log msg fs = lg_Info log msg (fieldMap fs)"

definition LoggerAdapter_Warn :: "'w Logger \<Rightarrow> string \<Rightarrow> (string \<times> go_any) list \<Rightarrow> 'w \<Rightarrow> 'w" where
  "LoggerAdapter_Warn log msg fs = lg_Warn log msg (fieldMap fs)"

definition LoggerAdapter_Error :: "'w Logger \<Rightarrow> string \<Rightarrow> (string \<times> go_any) list \<Rightarrow> 'w \<Rightarrow> 'w" where
  "LoggerAdapter_Error log msg fs = lg_Error log msg (fieldMap fs)"

section \<open>What the adapters pass on\<close>

text \<open>The arguments of a well-formed call: each value after its string key.\<close>

definition kv_args :: "(string \<times> go_any) list \<Rightarrow> go_any list" where
  "kv_args kvs = concat (map (\<lambda>(k, v). [AString k, v]) kvs)"

lemma kv_args_simps [simp]:
  "kv_args [] = []"
  "kv_args ((k, v) # kvs) = AString k # v # kv_args kvs"
  "kv_args (xs @ ys) = kv_args xs @ kv_args ys"
  by (simp_all add: kv_args_def)

lemma kv_loop_kv_args: "kv_loop m (kv_args kvs @ rest) = kv_loop (m ++ map_of (rev kvs)) rest"
proof (induction kvs arbitrary: m)
  case (Cons kv kvs)
  then show ?case by (cases kv) (simp add: lambda_upd)
qed simp

lemma field_loop_eq: "field_loop m kvs = m ++ map_of (rev kvs)"
proof (induction m kvs rule: field_loop.induct)
  case (2 m k v rest)
  then show ?case by (simp add: lambda_upd)
qed simp

text \<open>Structured fields survive both adapters alike: slog-style arguments made of
  key/value pairs, with or without a trailing unpaired argument, give the map in which every
  key has its last value, which is the map that pgcommon's field list gives.\<close>

theorem kvToFields_pairs:
  "kvToFields (kv_args kvs) = map_of (rev kvs) \<and>
   kvToFields (kv_args kvs @ [x]) = map_of (rev kvs) \<and>
   fieldMap kvs = map_of (rev kvs)"
  using kv_loop_kv_args [of Map.empty kvs "[]"] kv_loop_kv_args [of Map.empty kvs "[x]"]
  by (simp add: kvToFields_def fieldMap_def field_loop_eq)

end
