(* ===== verification/Ports.thy ===== *)
theory Ports
  imports Logger "HOL-Library.Multiset"
begin

text \<open>
  The ports of \<open>internal/core/port\<close> and the small interfaces that the service and the consumers
  declare for themselves.  A Go interface is a record of its methods over an abstract state \<open>'w\<close>
  of the outside world; a method that returns \<open>(value, error)\<close> gives \<open>Inl\<close> of the error or \<open>Inr\<close>
  of the value, and one that returns \<open>error\<close> gives \<open>None\<close> for nil.

  The second half states the contracts in the doc comments of \<open>acl_repository.go\<close> and \<open>cache.go\<close>
  as locales: the entries a store holds, what each operation does to them, and what the cache
  shows.  Their parameter \<open>ok\<close> says under which environments an implementation promises the laws.
\<close>

section \<open>Interfaces\<close>

record 'w TenderACLRepository =
  repo_List :: "ctx \<Rightarrow> uuid \<Rightarrow> uuid \<Rightarrow> int \<Rightarrow> int \<Rightarrow> 'w \<Rightarrow> (go_error + TenderACLEntry list) \<times> 'w"
  repo_Grant :: "ctx \<Rightarrow> TenderACLEntry \<Rightarrow> 'w \<Rightarrow> (go_error + TenderACLEntry) \<times> 'w"
  repo_Revoke :: "ctx \<Rightarrow> uuid \<Rightarrow> uuid \<Rightarrow> uuid \<Rightarrow> int \<Rightarrow> 'w \<Rightarrow> go_error option \<times> 'w"
  repo_FindActive :: "ctx \<Rightarrow> uuid \<Rightarrow> uuid \<Rightarrow> uuid \<Rightarrow> 'w \<Rightarrow> (go_error + TenderACLEntry option) \<times> 'w"
  repo_CascadeDeleteForTenant :: "ctx \<Rightarrow> uuid \<Rightarrow> 'w \<Rightarrow> (go_error + int) \<times> 'w"
  repo_SoftDeleteForUser :: "ctx \<Rightarrow> uuid \<Rightarrow> uuid \<Rightarrow> 'w \<Rightarrow> (go_error + int) \<times> 'w"

record 'w Cache =
  cache_Get :: "ctx \<Rightarrow> uuid \<Rightarrow> uuid \<Rightarrow> uuid \<Rightarrow> 'w \<Rightarrow> (go_error + CachedAccess option) \<times> 'w"
  cache_Set :: "ctx \<Rightarrow> uuid \<Rightarrow> uuid \<Rightarrow> uuid \<Rightarrow> CachedAccess \<Rightarrow> 'w \<Rightarrow> go_error option \<times> 'w"
  cache_Delete :: "ctx \<Rightarrow> uuid \<Rightarrow> uuid \<Rightarrow> uuid \<Rightarrow> 'w \<Rightarrow> go_error option \<times> 'w"
  cache_Ping :: "ctx \<Rightarrow> 'w \<Rightarrow> go_error option \<times> 'w"

record 'w MembershipCheckClient =
  mc_Exists :: "ctx \<Rightarrow> uuid \<Rightarrow> uuid \<Rightarrow> 'w \<Rightarrow> (go_error + bool \<times> uuid) \<times> 'w"

record 'w TxRunner =
  tx_RunInTx :: "ctx \<Rightarrow> (ctx \<Rightarrow> 'w \<Rightarrow> go_error option \<times> 'w) \<Rightarrow> 'w \<Rightarrow> go_error option \<times> 'w"

record 'w ACLMetrics =
  am_RecordGrantCheck :: "ctx \<Rightarrow> string \<Rightarrow> 'w \<Rightarrow> 'w"
  am_RecordCheckCall :: "ctx \<Rightarrow> string \<Rightarrow> 'w \<Rightarrow> 'w"
  am_RecordWrite :: "ctx \<Rightarrow> string \<Rightarrow> string \<Rightarrow> 'w \<Rightarrow> 'w"
  am_RecordCacheHit :: "ctx \<Rightarrow> 'w \<Rightarrow> 'w"
  am_RecordCacheMiss :: "ctx \<Rightarrow> 'w \<Rightarrow> 'w"

record 'w IdempotencyStore =
  is_IsProcessed :: "ctx \<Rightarrow> uuid \<Rightarrow> 'w \<Rightarrow> (go_error + bool) \<times> 'w"
  is_MarkProcessed :: "ctx \<Rightarrow> uuid \<Rightarrow> 'w \<Rightarrow> go_error option \<times> 'w"

text \<open>
  The metric interfaces of the consumers.  \<open>event_metrics\<close> has the methods of \<open>unexpectedMetrics\<close> and
  \<open>DuplicateMetrics\<close>, which the helpers of \<open>dedup.go\<close> take; each consumer's own interface extends it.
\<close>

record 'w event_metrics =
  em_RecordUnexpectedEventType :: "ctx \<Rightarrow> string \<Rightarrow> string \<Rightarrow> 'w \<Rightarrow> 'w"
  em_RecordProcessedEventsDuplicate :: "ctx \<Rightarrow> string \<Rightarrow> 'w \<Rightarrow> 'w"

record 'w CascadeMetrics = "'w event_metrics" +
  cm_RecordCascade :: "ctx \<Rightarrow> string \<Rightarrow> 'w \<Rightarrow> 'w"

record 'w MemberRemovalMetrics = "'w event_metrics" +
  mm_RecordMemberRemovalCascade :: "ctx \<Rightarrow> string \<Rightarrow> 'w \<Rightarrow> 'w"

section \<open>The abstract store of grants\<close>

text \<open>
  What the repository promises, on the plain list of all entries, revoked ones included.  A
  \<open>live\<close> entry is one that has not been revoked; \<open>active\<close> adds that it has not expired.
\<close>

definition live :: "uuid \<Rightarrow> uuid \<Rightarrow> uuid \<Rightarrow> TenderACLEntry \<Rightarrow> bool" where
  "live tenant tender user e \<longleftrightarrow>
     e_TenantID e = tenant \<and> e_TenderID e = tender \<and> e_UserID e = user \<and> e_DeletedAt e = None"

definition active :: "instant \<Rightarrow> uuid \<Rightarrow> uuid \<Rightarrow> uuid \<Rightarrow> TenderACLEntry \<Rightarrow> bool" where
  "active now tenant tender user e \<longleftrightarrow>
     e_TenantID e = tenant \<and> e_TenderID e = tender \<and> e_UserID e = user \<and> IsActive e now"

text \<open>TAE-1: at most one live entry per (tenant, tender, user).\<close>

definition unique_live :: "TenderACLEntry list \<Rightarrow> bool" where
  "unique_live es \<longleftrightarrow> (\<forall>t n u. length (filter (live t n u) es) \<le> 1)"

definition delete_entry :: "instant \<Rightarrow> TenderACLEntry \<Rightarrow> TenderACLEntry" where
  "delete_entry now e =
     e\<lparr>e_DeletedAt := Some now, e_UpdatedAt := now, e_RecordVersion := e_RecordVersion e + 1\<rparr>"

definition spec_revoke ::
  "instant \<Rightarrow> uuid \<Rightarrow> uuid \<Rightarrow> uuid \<Rightarrow> int \<Rightarrow> TenderACLEntry list \<Rightarrow> TenderACLEntry list" where
  "spec_revoke now t n u v es =
     map (\<lambda>e. if live t n u e \<and> e_RecordVersion e = v then delete_entry now e else e) es"

definition spec_remove_user ::
  "instant \<Rightarrow> uuid \<Rightarrow> uuid \<Rightarrow> TenderACLEntry list \<Rightarrow> TenderACLEntry list" where
  "spec_remove_user now t u es =
     map (\<lambda>e. if e_TenantID e = t \<and> e_UserID e = u \<and> e_DeletedAt e = None
              then delete_entry now e else e) es"

definition spec_offboard :: "uuid \<Rightarrow> TenderACLEntry list \<Rightarrow> TenderACLEntry list" where
  "spec_offboard t es = filter (\<lambda>e. e_TenantID e \<noteq> t) es"

text \<open>The entry a successful grant of \<open>x\<close> adds: its fields, version 1, not revoked.\<close>

definition granted_as :: "TenderACLEntry \<Rightarrow> TenderACLEntry \<Rightarrow> bool" where
  "granted_as x y \<longleftrightarrow>
     e_TenantID y = e_TenantID x \<and> e_TenderID y = e_TenderID x \<and> e_UserID y = e_UserID x \<and>
     e_TenantMembershipID y = e_TenantMembershipID x \<and> e_AccessLevel y = e_AccessLevel x \<and>
     e_GrantedBy y = e_GrantedBy x \<and> e_Reason y = e_Reason x \<and> e_RecordVersion y = 1 \<and>
     e_DeletedAt y = None \<and> (e_ExpiresAt y = None \<longleftrightarrow> e_ExpiresAt x = None)"

lemma delete_entry_sel [simp]:
  "e_TenantID (delete_entry now e) = e_TenantID e"
  "e_TenderID (delete_entry now e) = e_TenderID e"
  "e_UserID (delete_entry now e) = e_UserID e"
  "e_DeletedAt (delete_entry now e) = Some now"
  "e_RecordVersion (delete_entry now e) = e_RecordVersion e + 1"
  by (simp_all add: delete_entry_def)

lemma live_delete_entry [simp]: "\<not> live t n u (delete_entry now e)"
  by (simp add: live_def)

lemma active_imp_live: "active now t n u e \<Longrightarrow> live t n u e"
  by (simp add: active_def live_def IsActive_iff)

lemma unique_live_grant:
  assumes "unique_live es" "granted_as x y"
    "\<forall>e \<in> set es. \<not> live (e_TenantID x) (e_TenderID x) (e_UserID x) e"
  shows "unique_live (es @ [y])"
  unfolding unique_live_def
proof (intro allI)
  fix t n u
  show "length (filter (live t n u) (es @ [y])) \<le> 1"
  proof (cases "live t n u y")
    case True
    with assms(2) have "t = e_TenantID x" "n = e_TenderID x" "u = e_UserID x"
      by (auto simp: live_def granted_as_def)
    with assms(3) have "filter (live t n u) es = []" by (simp add: filter_nil_iff)
    then show ?thesis by simp
  next
    case False
    with assms(1) show ?thesis by (simp add: unique_live_def)
  qed
qed

lemma unique_live_map:
  assumes "unique_live es" "\<And>e. f e = e \<or> (\<forall>t n u. \<not> live t n u (f e))"
  shows "unique_live (map f es)"
  unfolding unique_live_def
proof (intro allI)
  fix t n u
  have "length (filter (live t n u) (map f es)) \<le> length (filter (live t n u) es)"
  proof (induction es)
    case (Cons e es)
    then show ?case using assms(2) [of e] by auto
  qed simp
  with assms(1) show "length (filter (live t n u) (map f es)) \<le> 1"
    by (meson le_trans unique_live_def)
qed

lemma unique_live_revoke: "unique_live es \<Longrightarrow> unique_live (spec_revoke now t n u v es)"
  unfolding spec_revoke_def by (rule unique_live_map) auto

lemma unique_live_remove_user: "unique_live es \<Longrightarrow> unique_live (spec_remove_user now t u es)"
  unfolding spec_remove_user_def by (rule unique_live_map) auto

lemma unique_live_offboard:
  assumes "unique_live es" shows "unique_live (spec_offboard t es)"
  unfolding unique_live_def
proof (intro allI)
  fix t' n u
  have "length (filter (live t' n u) (spec_offboard t es)) \<le> length (filter (live t' n u) es)"
    by (auto simp: spec_offboard_def intro!: length_filter_mono)
  with assms show "length (filter (live t' n u) (spec_offboard t es)) \<le> 1"
    by (meson le_trans unique_live_def)
qed

lemmas unique_live_ops = unique_live_revoke unique_live_remove_user unique_live_offboard

text \<open>After a revoke that hit the current version, and after a user removal, nothing is live.\<close>

lemma spec_revoke_kills:
  assumes "unique_live es" "e \<in> set es" "live t n u e" "e_RecordVersion e = v"
    "e' \<in> set (spec_revoke now t n u v es)"
  shows "\<not> live t n u e'"
proof
  assume lv: "live t n u e'"
  from assms(5) obtain d where d: "d \<in> set es"
    "e' = (if live t n u d \<and> e_RecordVersion d = v then delete_entry now d else d)"
    by (auto simp: spec_revoke_def)
  show False
  proof (cases "live t n u d \<and> e_RecordVersion d = v")
    case True
    with d lv show False by simp
  next
    case False
    with d lv have "live t n u d" by simp
    then have "d = e"
      using length_filter_le_one_unique [of "live t n u" es d e] assms(1-3) d(1)
      by (simp add: unique_live_def)
    with False assms(3,4) show False by simp
  qed
qed

lemma spec_remove_user_kills:
  assumes "e \<in> set (spec_remove_user now t u es)"
  shows "\<not> live t n u e"
proof -
  from assms obtain d where "e = (if e_TenantID d = t \<and> e_UserID d = u \<and> e_DeletedAt d = None
      then delete_entry now d else d)"
    unfolding spec_remove_user_def set_map by (rule imageE)
  then show ?thesis
    by (cases "e_TenantID d = t \<and> e_UserID d = u \<and> e_DeletedAt d = None") (auto simp: live_def)
qed

lemma spec_offboard_kills: "e \<in> set (spec_offboard t es) \<Longrightarrow> e_TenantID e \<noteq> t"
  by (simp add: spec_offboard_def)

section \<open>The contract of TenderACLRepository\<close>

text \<open>
  \<open>entries\<close> are the entries the store holds, \<open>clock\<close> is its clock, \<open>scope\<close> says in which contexts it
  may be called for a tenant, and \<open>untouched\<close> relates two worlds that differ in the store only.
  A write that reports an error has left the store as it was or, when the commit's outcome is not
  known, as the write makes it; it never leaves anything in between.
\<close>

locale acl_repository =
  fixes ok :: "'e \<Rightarrow> bool"
    and repo :: "'e \<Rightarrow> 'w TenderACLRepository"
    and scope :: "'e \<Rightarrow> ctx \<Rightarrow> uuid \<Rightarrow> bool"
    and entries :: "'w \<Rightarrow> TenderACLEntry list"
    and clock :: "'w \<Rightarrow> instant"
    and untouched :: "'w \<Rightarrow> 'w \<Rightarrow> bool"
  assumes clock_untouched: "untouched w w' \<Longrightarrow> clock w' = clock w"
    and list_done: "ok e \<Longrightarrow> scope e c t \<Longrightarrow>
      repo_List (repo e) c t n limit offset w = (Inr es, w') \<Longrightarrow>
      w' = w \<and> 0 \<le> limit \<and> 0 \<le> offset \<and>
      (\<exists>ord. mset ord = filter_mset (\<lambda>x. e_TenantID x = t \<and> e_TenderID x = n \<and> e_DeletedAt x = None)
                (mset (entries w)) \<and>
             sorted (map e_CreatedAt ord) \<and> es = take (nat limit) (drop (nat offset) ord))"
    and list_failed: "ok e \<Longrightarrow> scope e c t \<Longrightarrow>
      repo_List (repo e) c t n limit offset w = (Inl er, w') \<Longrightarrow> w' = w"
    and grant_done: "ok e \<Longrightarrow> scope e c (e_TenantID x) \<Longrightarrow>
      repo_Grant (repo e) c x w = (Inr y, w') \<Longrightarrow>
      untouched w w' \<and> entries w' = entries w @ [y] \<and> granted_as x y \<and>
      (\<forall>d \<in> set (entries w). \<not> live (e_TenantID x) (e_TenderID x) (e_UserID x) d)"
    and grant_failed: "ok e \<Longrightarrow> scope e c (e_TenantID x) \<Longrightarrow>
      repo_Grant (repo e) c x w = (Inl er, w') \<Longrightarrow>
      untouched w w' \<and>
      (entries w' = entries w \<or>
       (\<exists>y. entries w' = entries w @ [y] \<and> granted_as x y \<and>
          (\<forall>d \<in> set (entries w). \<not> live (e_TenantID x) (e_TenderID x) (e_UserID x) d)))"
    and revoke_done: "ok e \<Longrightarrow> scope e c t \<Longrightarrow>
      repo_Revoke (repo e) c t n u v w = (None, w') \<Longrightarrow>
      untouched w w' \<and> entries w' = spec_revoke (clock w) t n u v (entries w) \<and>
      (\<exists>d \<in> set (entries w). live t n u d \<and> e_RecordVersion d = v)"
    and revoke_failed: "ok e \<Longrightarrow> scope e c t \<Longrightarrow>
      repo_Revoke (repo e) c t n u v w = (Some er, w') \<Longrightarrow>
      untouched w w' \<and>
      (entries w' = entries w \<or> entries w' = spec_revoke (clock w) t n u v (entries w))"
    and find_done: "ok e \<Longrightarrow> scope e c t \<Longrightarrow>
      repo_FindActive (repo e) c t n u w = (Inr r, w') \<Longrightarrow>
      w' = w \<and>
      (case r of None \<Rightarrow> \<forall>d \<in> set (entries w). \<not> active (clock w) t n u d
               | Some d \<Rightarrow> d \<in> set (entries w) \<and> active (clock w) t n u d)"
    and find_failed: "ok e \<Longrightarrow> scope e c t \<Longrightarrow>
      repo_FindActive (repo e) c t n u w = (Inl er, w') \<Longrightarrow> w' = w"
    and cascade_done: "ok e \<Longrightarrow> scope e c t \<Longrightarrow>
      repo_CascadeDeleteForTenant (repo e) c t w = (Inr k, w') \<Longrightarrow>
      untouched w w' \<and> entries w' = spec_offboard t (entries w)"
    and cascade_failed: "ok e \<Longrightarrow> scope e c t \<Longrightarrow>
      repo_CascadeDeleteForTenant (repo e) c t w = (Inl er, w') \<Longrightarrow>
      untouched w w' \<and> (entries w' = entries w \<or> entries w' = spec_offboard t (entries w))"
    and remove_done: "ok e \<Longrightarrow> scope e c t \<Longrightarrow>
      repo_SoftDeleteForUser (repo e) c t u w = (Inr k, w') \<Longrightarrow>
      untouched w w' \<and> entries w' = spec_remove_user (clock w) t u (entries w)"
    and remove_failed: "ok e \<Longrightarrow> scope e c t \<Longrightarrow>
      repo_SoftDeleteForUser (repo e) c t u w = (Inl er, w') \<Longrightarrow>
      untouched w w' \<and>
      (entries w' = entries w \<or> entries w' = spec_remove_user (clock w) t u (entries w))"
begin

text \<open>TAE-1 survives every call, whatever it returns.\<close>

lemma grant_unique:
  assumes "ok e" "scope e c (e_TenantID x)" "unique_live (entries w)"
    "repo_Grant (repo e) c x w = (r, w')"
  shows "unique_live (entries w')"
proof (cases r)
  case (Inl er)
  with assms grant_failed [of e c x w er w'] show ?thesis by (auto intro: unique_live_grant)
next
  case (Inr y)
  with assms grant_done [of e c x w y w'] show ?thesis by (auto intro: unique_live_grant)
qed

lemma revoke_unique:
  assumes "ok e" "scope e c t" "unique_live (entries w)" "repo_Revoke (repo e) c t n u v w = (r, w')"
  shows "unique_live (entries w')"
proof (cases r)
  case None
  with assms revoke_done [of e c t n u v w w'] show ?thesis by (auto intro: unique_live_ops)
next
  case (Some er)
  with assms revoke_failed [of e c t n u v w er w'] show ?thesis by (auto intro: unique_live_ops)
qed

text \<open>A granted access is found at once, a revoked one no longer.\<close>

lemma find_after_grant:
  assumes "ok e" "scope e c (e_TenantID x)" "scope e c' (e_TenantID x)" "unique_live (entries w)"
    and g: "repo_Grant (repo e) c x w = (Inr y, w1)"
    and f: "repo_FindActive (repo e) c' (e_TenantID x) (e_TenderID x) (e_UserID x) w1 = (Inr r, w2)"
    and unexpired: "IsActive y (clock w1)"
  shows "r = Some y"
proof -
  note gr = grant_done [OF assms(1,2) g]
  note fi = find_done [OF assms(1,3) f]
  have uniq: "unique_live (entries w1)" using grant_unique [OF assms(1,2,4) g] .
  have y: "y \<in> set (entries w1)" "active (clock w1) (e_TenantID x) (e_TenderID x) (e_UserID x) y"
    using gr unexpired by (auto simp: active_def granted_as_def)
  show ?thesis
  proof (cases r)
    case None
    with fi y show ?thesis by auto
  next
    case (Some d)
    with fi have "d \<in> set (entries w1)" "active (clock w1) (e_TenantID x) (e_TenderID x) (e_UserID x) d"
      by auto
    with y uniq Some show ?thesis
      by (metis active_imp_live length_filter_le_one_unique unique_live_def)
  qed
qed

lemma find_after_revoke:
  assumes "ok e" "scope e c t" "scope e c' t" "unique_live (entries w)"
    and r: "repo_Revoke (repo e) c t n u v w = (None, w1)"
    and f: "repo_FindActive (repo e) c' t n u w1 = (Inr r, w2)"
  shows "r = None"
proof (cases r)
  case (Some d)
  note re = revoke_done [OF assms(1,2) r]
  from find_done [OF assms(1,3) f] Some have "d \<in> set (entries w1)" "live t n u d"
    by (auto dest: active_imp_live)
  with re assms(4) show ?thesis by (auto dest: spec_revoke_kills)
qed

end

section \<open>The contract of the idempotency ledger\<close>

text \<open>
  \<open>seen\<close> are the events the ledger knows for its consumer; a mark whose commit is not confirmed
  has been recorded or not.
\<close>

locale idempotency_store =
  fixes ok :: "'e \<Rightarrow> bool"
    and store :: "'e \<Rightarrow> 'w IdempotencyStore"
    and seen :: "'e \<Rightarrow> 'w \<Rightarrow> uuid set"
    and untouched :: "'w \<Rightarrow> 'w \<Rightarrow> bool"
  assumes is_done: "ok e \<Longrightarrow> is_IsProcessed (store e) c ev w = (Inr b, w') \<Longrightarrow>
      w' = w \<and> b = (ev \<in> seen e w)"
    and is_failed: "ok e \<Longrightarrow> is_IsProcessed (store e) c ev w = (Inl er, w') \<Longrightarrow> w' = w"
    and mark_done: "ok e \<Longrightarrow> is_MarkProcessed (store e) c ev w = (None, w') \<Longrightarrow>
      untouched w w' \<and> seen e w' = insert ev (seen e w)"
    and mark_failed: "ok e \<Longrightarrow> is_MarkProcessed (store e) c ev w = (Some er, w') \<Longrightarrow>
      untouched w w' \<and> (seen e w' = seen e w \<or> seen e w' = insert ev (seen e w))"
begin

text \<open>A marked event is found from then on, and marking never forgets another one.\<close>

lemma found_after_mark:
  assumes "ok e" "is_MarkProcessed (store e) c ev w = (None, w1)"
    "is_IsProcessed (store e) c' ev' w1 = (Inr b, w2)"
  shows "b \<longleftrightarrow> ev' = ev \<or> ev' \<in> seen e w"
  using mark_done [OF assms(1,2)] is_done [OF assms(1,3)] by auto

lemma mark_keeps_seen:
  assumes "ok e" "is_MarkProcessed (store e) c ev w = (r, w')"
  shows "seen e w \<subseteq> seen e w'"
proof (cases r)
  case None
  with mark_done [of e c ev w w'] assms show ?thesis by auto
next
  case (Some er)
  with mark_failed [of e c ev w er w'] assms show ?thesis by auto
qed

end

section \<open>The contract of TxRunner\<close>

text \<open>
  \<open>tables\<close> is the part of the world that a transaction commits or rolls back, and \<open>opened\<close> relates
  the context a transaction was asked for in to the one its function sees.  Whatever the runner
  reports, the tables are as they were or as one complete successful run of the function on them
  leaves them.
\<close>

locale tx_runner =
  fixes ok :: "'e \<Rightarrow> bool"
    and runner :: "'e \<Rightarrow> 'w TxRunner"
    and tables :: "'w \<Rightarrow> 'd"
    and opened :: "ctx \<Rightarrow> ctx \<Rightarrow> bool"
  assumes run_done: "ok e \<Longrightarrow> tx_RunInTx (runner e) c fn w = (None, w') \<Longrightarrow>
      \<exists>c' w1. opened c c' \<and> tables w1 = tables w \<and> fn c' w1 = (None, w')"
    and run_failed: "ok e \<Longrightarrow> tx_RunInTx (runner e) c fn w = (Some er, w') \<Longrightarrow>
      tables w' = tables w \<or>
      (\<exists>c' w1. opened c c' \<and> tables w1 = tables w \<and> fn c' w1 = (None, w'))"

section \<open>The contract of Cache\<close>

text \<open>
  \<open>holds\<close> is what the cache server has under each (tenant, tender, user): a value and the instant
  at which it stops being served.  A call that reports an error may or may not have reached the
  server.
\<close>

type_synonym acl_key = "uuid \<times> uuid \<times> uuid"
type_synonym cache_view = "acl_key \<rightharpoonup> CachedAccess \<times> instant"

locale acl_cache =
  fixes ok :: "'e \<Rightarrow> bool"
    and cache :: "'e \<Rightarrow> 'w Cache"
    and holds :: "'e \<Rightarrow> 'w \<Rightarrow> cache_view"
    and clock :: "'w \<Rightarrow> instant"
    and lifetime :: duration
    and cache_only :: "'w \<Rightarrow> 'w \<Rightarrow> bool"
  assumes get_any: "ok e \<Longrightarrow> cache_Get (cache e) c t n u w = (r, w') \<Longrightarrow>
      cache_only w w' \<and> holds e w' = holds e w"
    and get_hit: "ok e \<Longrightarrow> cache_Get (cache e) c t n u w = (Inr (Some v), w') \<Longrightarrow>
      \<exists>until. holds e w (t, n, u) = Some (v, until) \<and> clock w < until"
    and set_done: "ok e \<Longrightarrow> cache_Set (cache e) c t n u v w = (None, w') \<Longrightarrow>
      cache_only w w' \<and> holds e w' = (holds e w)((t, n, u) \<mapsto> (v, clock w + lifetime))"
    and set_failed: "ok e \<Longrightarrow> cache_Set (cache e) c t n u v w = (Some er, w') \<Longrightarrow>
      cache_only w w' \<and>
      (holds e w' = holds e w \<or> holds e w' = (holds e w)((t, n, u) \<mapsto> (v, clock w + lifetime)))"
    and delete_done: "ok e \<Longrightarrow> cache_Delete (cache e) c t n u w = (None, w') \<Longrightarrow>
      cache_only w w' \<and> holds e w' = (holds e w)((t, n, u) := None)"
    and delete_failed: "ok e \<Longrightarrow> cache_Delete (cache e) c t n u w = (Some er, w') \<Longrightarrow>
      cache_only w w' \<and> (holds e w' = holds e w \<or> holds e w' = (holds e w)((t, n, u) := None))"
    and ping_any: "ok e \<Longrightarrow> cache_Ping (cache e) c w = (pr, w') \<Longrightarrow>
      cache_only w w' \<and> holds e w' = holds e w"
begin

lemma delete_any:
  assumes "ok e" "cache_Delete (cache e) c t n u w = (r, w')"
  shows "cache_only w w'" "holds e w' = holds e w \<or> holds e w' = (holds e w)((t, n, u) := None)"
    "r = None \<Longrightarrow> holds e w' = (holds e w)((t, n, u) := None)"
  using delete_done [OF assms(1)] delete_failed [OF assms(1)] assms(2) by (cases r; fastforce)+

lemma set_any:
  assumes "ok e" "cache_Set (cache e) c t n u v w = (r, w')"
  shows "cache_only w w'"
    "holds e w' = holds e w \<or> holds e w' = (holds e w)((t, n, u) \<mapsto> (v, clock w + lifetime))"
  using set_done [OF assms(1)] set_failed [OF assms(1)] assms(2) by (cases r; fastforce)+

text \<open>A deleted value is not served again, whatever key is read.\<close>

lemma miss_after_delete:
  assumes "ok e" "cache_Delete (cache e) c t n u w = (None, w1)"
    "cache_Get (cache e) c' t n u w1 = (r, w2)"
  shows "r \<noteq> Inr (Some v)"
  using get_hit [OF assms(1), of c' t n u w1 v w2] delete_done [OF assms(1,2)] assms(3) by auto

text \<open>What was set is what is served, to that key alone.\<close>

lemma hit_after_set:
  assumes "ok e" "cache_Set (cache e) c t n u v w = (None, w1)"
    "cache_Get (cache e) c' t' n' u' w1 = (Inr (Some x), w2)"
  shows "if (t', n', u') = (t, n, u) then x = v else \<exists>until. holds e w (t', n', u') = Some (x, until)"
  using get_hit [OF assms(1,3)] set_done [OF assms(1,2)] by (auto split: if_splits)

end

section \<open>The contract of MembershipCheckClient\<close>

text \<open>
  \<open>confirmed\<close> and \<open>denied\<close> are what the provider answered: an active membership with its id, or
  none.  The check changes nothing here, and it never answers for the provider.
\<close>

locale membership_check =
  fixes ok :: "'e \<Rightarrow> bool"
    and checker :: "'e \<Rightarrow> 'w MembershipCheckClient"
    and confirmed :: "'e \<Rightarrow> ctx \<Rightarrow> 'w \<Rightarrow> uuid \<Rightarrow> uuid \<Rightarrow> uuid \<Rightarrow> bool"
    and denied :: "'e \<Rightarrow> ctx \<Rightarrow> 'w \<Rightarrow> uuid \<Rightarrow> uuid \<Rightarrow> bool"
  assumes exists_quiet: "ok e \<Longrightarrow> mc_Exists (checker e) c t u w = (res, w') \<Longrightarrow> w' = w"
    and exists_active: "ok e \<Longrightarrow> mc_Exists (checker e) c t u w = (Inr (True, m), w') \<Longrightarrow>
      m \<noteq> 0 \<and> confirmed e c w t u m"
    and exists_inactive: "ok e \<Longrightarrow> mc_Exists (checker e) c t u w = (Inr (False, m), w') \<Longrightarrow>
      m = 0 \<and> denied e c w t u"

section \<open>Contracts of a component of an environment\<close>

text \<open>A port that is one part of a larger environment keeps its contract there.\<close>

lemma acl_repository_part:
  assumes L: "acl_repository ok repo scope entries clock untouched" and f: "\<And>e. ok' e \<Longrightarrow> ok (f e)"
  shows "acl_repository ok' (\<lambda>e. repo (f e)) (\<lambda>e. scope (f e)) entries clock untouched"
proof -
  note laws = acl_repository.clock_untouched [OF L]
    acl_repository.list_done [OF L] acl_repository.list_failed [OF L]
    acl_repository.grant_done [OF L] acl_repository.grant_failed [OF L]
    acl_repository.revoke_done [OF L] acl_repository.revoke_failed [OF L]
    acl_repository.find_done [OF L] acl_repository.find_failed [OF L]
    acl_repository.cascade_done [OF L] acl_repository.cascade_failed [OF L]
    acl_repository.remove_done [OF L] acl_repository.remove_failed [OF L]
  show ?thesis by (rule acl_repository.intro; (rule laws; (erule f | assumption)))
qed

lemma acl_cache_part:
  assumes L: "acl_cache ok cache holds clock lifetime cache_only" and f: "\<And>e. ok' e \<Longrightarrow> ok (f e)"
  shows "acl_cache ok' (\<lambda>e. cache (f e)) (\<lambda>e. holds (f e)) clock lifetime cache_only"
proof -
  note laws = acl_cache.get_any [OF L] acl_cache.get_hit [OF L] acl_cache.set_done [OF L]
    acl_cache.set_failed [OF L] acl_cache.delete_done [OF L] acl_cache.delete_failed [OF L]
    acl_cache.ping_any [OF L]
  show ?thesis by (rule acl_cache.intro; (rule laws; (erule f | assumption)))
qed

lemma membership_check_part:
  assumes L: "membership_check ok checker confirmed denied" and f: "\<And>e. ok' e \<Longrightarrow> ok (f e)"
  shows "membership_check ok' (\<lambda>e. checker (f e)) (\<lambda>e. confirmed (f e)) (\<lambda>e. denied (f e))"
proof -
  note laws = membership_check.exists_quiet [OF L] membership_check.exists_active [OF L]
    membership_check.exists_inactive [OF L]
  show ?thesis by (rule membership_check.intro; (rule laws; (erule f | assumption)))
qed

end
