(* ===== verification/AclService.thy ===== *)
theory AclService
  imports Ports
begin

text \<open>
  The business logic of TAC-1 to TAC-4, \<open>internal/core/service/acl_service.go\<close>, over its ports, and
  what it guarantees when the ports keep their contracts: the locale \<open>acl_service\<close> joins the contracts
  of the repository, the cache and the membership check.
\<close>

section \<open>acl_service.go\<close>

definition maxReasonLength :: nat where
  "maxReasonLength = 500"

text \<open>\<open>sv_Now\<close> is \<open>time.Now\<close>.\<close>

record 'w ACLService =
  sv_repo :: "'w TenderACLRepository"
  sv_checker :: "'w MembershipCheckClient"
  sv_cache :: "'w Cache"
  sv_metrics :: "'w ACLMetrics"
  sv_logger :: "'w SlogStyleLogger"
  sv_tracer :: Tracer
  sv_Now :: "'w \<Rightarrow> instant"

definition NewACLService ::
  "'w TenderACLRepository \<Rightarrow> 'w MembershipCheckClient \<Rightarrow> 'w Cache \<Rightarrow> 'w ACLMetrics
    \<Rightarrow> 'w SlogStyleLogger \<Rightarrow> Tracer \<Rightarrow> ('w \<Rightarrow> instant) \<Rightarrow> 'w ACLService" where
  "NewACLService repo checker cache metrics logger tracer now =
     \<lparr>sv_repo = repo, sv_checker = checker, sv_cache = cache, sv_metrics = metrics,
      sv_logger = logger, sv_tracer = tracer, sv_Now = now\<rparr>"

definition statusFor :: "bool \<Rightarrow> string" where
  "statusFor hasAccess = (if hasAccess then ''has_access'' else ''no_access'')"

definition Svc_List ::
  "'w ACLService \<Rightarrow> ctx \<Rightarrow> uuid \<Rightarrow> uuid \<Rightarrow> int \<Rightarrow> int \<Rightarrow> 'w
    \<Rightarrow> (go_error + TenderACLEntry list) \<times> 'w" where
  "Svc_List s c tenantID tenderID limit offset w =
     (let c = Start (sv_tracer s) c ''service.ACLService.List'' in
      case repo_List (sv_repo s) c tenantID tenderID limit offset w of
        (Inl err, w) \<Rightarrow> (Inl (Wrapped ''acl: list: '' err), w)
      | (Inr entries, w) \<Rightarrow> (Inr entries, w))"

definition Svc_Grant ::
  "'w ACLService \<Rightarrow> ctx \<Rightarrow> uuid \<Rightarrow> uuid \<Rightarrow> uuid \<Rightarrow> uuid \<Rightarrow> TenderACLLevel \<Rightarrow> string
    \<Rightarrow> instant option \<Rightarrow> 'w \<Rightarrow> (go_error + TenderACLEntry) \<times> 'w" where
  "Svc_Grant s c tenantID tenderID userID grantedBy level reason expiresAt w =
     (let c = Start (sv_tracer s) c ''service.ACLService.Grant'' in
      if \<not> Valid level
      then (Inl (NewError ErrCodeInvalidAccessLevel ''access_level must be one of view, edit, approve''), w)
      else if maxReasonLength < length reason
      then (Inl (NewError ErrCodeInvalidReason ''reason must be 500 characters or fewer''), w)
      else if (case expiresAt of Some x \<Rightarrow> \<not> sv_Now s w < x | None \<Rightarrow> False)
      then (Inl (NewError ErrCodeInvalidExpiry ''expires_at must be in the future''), w)
      else
        (case mc_Exists (sv_checker s) c tenantID userID w of
           (Inl err, w) \<Rightarrow>
             (let w = am_RecordGrantCheck (sv_metrics s) c ''unavailable'' w
              in (Inl (NewError ErrCodeCoreUnavailable
                         (''membership check unavailable: '' @ Error_text err)), w))
         | (Inr (is_active, membershipID), w) \<Rightarrow>
             if \<not> is_active
             then
               (let w = am_RecordGrantCheck (sv_metrics s) c ''not_active'' w
                in (Inl (NewError ErrCodeGranteeNotActiveMember
                           ''grantee does not hold an active tenant membership''), w))
             else
               (let w = am_RecordGrantCheck (sv_metrics s) c ''active'' w;
                    entry = zero_entry\<lparr>e_TenantID := tenantID, e_TenderID := tenderID,
                              e_UserID := userID, e_TenantMembershipID := membershipID,
                              e_AccessLevel := level, e_GrantedBy := grantedBy,
                              e_Reason := reason, e_ExpiresAt := expiresAt\<rparr>
                in case repo_Grant (sv_repo s) c entry w of
                     (Inl err, w) \<Rightarrow> (Inl err, am_RecordWrite (sv_metrics s) c ''grant'' ''error'' w)
                   | (Inr created, w) \<Rightarrow>
                       (let w = am_RecordWrite (sv_metrics s) c ''grant'' ''success'' w
                        in case cache_Delete (sv_cache s) c tenantID tenderID userID w of
                             (Some err, w) \<Rightarrow>
                               (Inr created,
                                WarnContext (sv_logger s) c
                                  ''acl check cache invalidation failed after grant''
                                  [AString ''error'', AString (Error_text err)] w)
                           | (None, w) \<Rightarrow> (Inr created, w)))))"

definition Svc_Revoke ::
  "'w ACLService \<Rightarrow> ctx \<Rightarrow> uuid \<Rightarrow> uuid \<Rightarrow> uuid \<Rightarrow> int \<Rightarrow> 'w \<Rightarrow> go_error option \<times> 'w" where
  "Svc_Revoke s c tenantID tenderID userID expectedVersion w =
     (let c = Start (sv_tracer s) c ''service.ACLService.Revoke'' in
      case repo_Revoke (sv_repo s) c tenantID tenderID userID expectedVersion w of
        (Some err, w) \<Rightarrow>
          (Some (Wrapped ''acl: revoke: '' err), am_RecordWrite (sv_metrics s) c ''revoke'' ''error'' w)
      | (None, w) \<Rightarrow>
          (let w = am_RecordWrite (sv_metrics s) c ''revoke'' ''success'' w
           in case cache_Delete (sv_cache s) c tenantID tenderID userID w of
                (Some err, w) \<Rightarrow>
                  (None,
                   WarnContext (sv_logger s) c ''acl check cache invalidation failed after revoke''
                     [AString ''error'', AString (Error_text err)] w)
              | (None, w) \<Rightarrow> (None, w)))"

text \<open>The second half of \<open>CheckAccess\<close>, from the repository read on.\<close>

definition check_uncached ::
  "'w ACLService \<Rightarrow> ctx \<Rightarrow> uuid \<Rightarrow> uuid \<Rightarrow> uuid \<Rightarrow> 'w \<Rightarrow> (go_error + CachedAccess) \<times> 'w" where
  "check_uncached s c tenantID tenderID userID w =
     (case repo_FindActive (sv_repo s) c tenantID tenderID userID w of
        (Inl err, w) \<Rightarrow> (Inl (Wrapped ''acl: check access: '' err), w)
      | (Inr entry, w) \<Rightarrow>
          (let result = (case entry of
                           Some e \<Rightarrow> \<lparr>ca_HasAccess = True, ca_AccessLevel = Some (e_AccessLevel e),
                                      ca_ExpiresAt = e_ExpiresAt e\<rparr>
                         | None \<Rightarrow> \<lparr>ca_HasAccess = False, ca_AccessLevel = None, ca_ExpiresAt = None\<rparr>);
               w = am_RecordCheckCall (sv_metrics s) c (statusFor (ca_HasAccess result)) w
           in case cache_Set (sv_cache s) c tenantID tenderID userID result w of
                (Some err, w) \<Rightarrow>
                  (Inr result,
                   WarnContext (sv_logger s) c ''acl check cache populate failed''
                     [AString ''error'', AString (Error_text err)] w)
              | (None, w) \<Rightarrow> (Inr result, w)))"

definition Svc_CheckAccess ::
  "'w ACLService \<Rightarrow> ctx \<Rightarrow> uuid \<Rightarrow> uuid \<Rightarrow> uuid \<Rightarrow> 'w \<Rightarrow> (go_error + CachedAccess) \<times> 'w" where
  "Svc_CheckAccess s c tenantID tenderID userID w =
     (let c = Start (sv_tracer s) c ''service.ACLService.CheckAccess'' in
      case cache_Get (sv_cache s) c tenantID tenderID userID w of
        (Inl err, w) \<Rightarrow>
          (let w = WarnContext (sv_logger s) c
                     ''acl check cache read failed, falling back to postgres''
                     [AString ''error'', AString (Error_text err)] w
           in check_uncached s c tenantID tenderID userID w)
      | (Inr (Some cached), w) \<Rightarrow>
          (let w = am_RecordCacheHit (sv_metrics s) c w;
               w = am_RecordCheckCall (sv_metrics s) c (statusFor (ca_HasAccess cached)) w
           in (Inr cached, w))
      | (Inr None, w) \<Rightarrow>
          check_uncached s c tenantID tenderID userID (am_RecordCacheMiss (sv_metrics s) c w))"

section \<open>The specification of an access answer\<close>

text \<open>The entry that a grant request asks the repository to store.\<close>

definition grant_entry ::
  "uuid \<Rightarrow> uuid \<Rightarrow> uuid \<Rightarrow> uuid \<Rightarrow> uuid \<Rightarrow> TenderACLLevel \<Rightarrow> string \<Rightarrow> instant option \<Rightarrow> TenderACLEntry" where
  "grant_entry t n u m g l re x =
     zero_entry\<lparr>e_TenantID := t, e_TenderID := n, e_UserID := u, e_TenantMembershipID := m,
       e_AccessLevel := l, e_GrantedBy := g, e_Reason := re, e_ExpiresAt := x\<rparr>"

text \<open>\<open>v\<close> is the truth about the entries \<open>es\<close> at an instant.\<close>

definition access_answer ::
  "instant \<Rightarrow> uuid \<Rightarrow> uuid \<Rightarrow> uuid \<Rightarrow> TenderACLEntry list \<Rightarrow> CachedAccess \<Rightarrow> bool" where
  "access_answer now t n u es v \<longleftrightarrow>
     (if ca_HasAccess v
      then \<exists>d \<in> set es. active now t n u d \<and> ca_AccessLevel v = Some (e_AccessLevel d) \<and>
             ca_ExpiresAt v = e_ExpiresAt d
      else (\<forall>d \<in> set es. \<not> active now t n u d) \<and> ca_AccessLevel v = None \<and> ca_ExpiresAt v = None)"

text \<open>The request checks that come before the membership check.\<close>

definition grant_valid :: "instant \<Rightarrow> TenderACLLevel \<Rightarrow> string \<Rightarrow> instant option \<Rightarrow> bool" where
  "grant_valid now l re x \<longleftrightarrow>
     Valid l \<and> length re \<le> maxReasonLength \<and> (case x of None \<Rightarrow> True | Some t \<Rightarrow> now < t)"

lemma grant_entry_sel [simp]:
  "e_TenantID (grant_entry t n u m g l re x) = t" "e_TenderID (grant_entry t n u m g l re x) = n"
  "e_UserID (grant_entry t n u m g l re x) = u" "e_TenantMembershipID (grant_entry t n u m g l re x) = m"
  "e_AccessLevel (grant_entry t n u m g l re x) = l" "e_GrantedBy (grant_entry t n u m g l re x) = g"
  "e_Reason (grant_entry t n u m g l re x) = re" "e_ExpiresAt (grant_entry t n u m g l re x) = x"
  by (simp_all add: grant_entry_def zero_entry_def)

lemma access_answer_unique:
  assumes "unique_live es" "access_answer now t n u es v" "access_answer now t n u es v'"
  shows "v' = v"
proof (cases "ca_HasAccess v")
  case True
  with assms(2,3) obtain d d' where d: "d \<in> set es" "active now t n u d"
      "v = \<lparr>ca_HasAccess = True, ca_AccessLevel = Some (e_AccessLevel d), ca_ExpiresAt = e_ExpiresAt d\<rparr>"
    and d': "d' \<in> set es" "active now t n u d'"
      "v' = \<lparr>ca_HasAccess = True, ca_AccessLevel = Some (e_AccessLevel d'), ca_ExpiresAt = e_ExpiresAt d'\<rparr>"
    by (cases v; cases v') (auto simp: access_answer_def split: if_splits)
  with assms(1) have "d' = d"
    by (metis active_imp_live length_filter_le_one_unique unique_live_def)
  with d d' show ?thesis by simp
next
  case False
  with assms(2,3) show ?thesis
    by (cases v; cases v') (auto simp: access_answer_def split: if_splits)
qed

section \<open>The paths through each operation\<close>

definition logged_failure ::
  "'w ACLService \<Rightarrow> ctx \<Rightarrow> string \<Rightarrow> go_error option \<Rightarrow> 'w \<Rightarrow> 'w" where
  "logged_failure s c msg er w =
     (case er of
        None \<Rightarrow> w
      | Some err \<Rightarrow> WarnContext (sv_logger s) c msg [AString ''error'', AString (Error_text err)] w)"

lemma Svc_Grant_paths:
  assumes run: "Svc_Grant s c t n u g l re x w = (r, w')"
  defines "c' \<equiv> Start (sv_tracer s) c ''service.ACLService.Grant''"
  obtains (invalid) er where "\<not> grant_valid (sv_Now s w) l re x" "r = Inl er" "w' = w"
  | (unavailable) err w1 where "grant_valid (sv_Now s w) l re x"
      "mc_Exists (sv_checker s) c' t u w = (Inl err, w1)"
      "r = Inl (NewError ErrCodeCoreUnavailable (''membership check unavailable: '' @ Error_text err))"
      "w' = am_RecordGrantCheck (sv_metrics s) c' ''unavailable'' w1"
  | (inactive) m w1 where "grant_valid (sv_Now s w) l re x"
      "mc_Exists (sv_checker s) c' t u w = (Inr (False, m), w1)"
      "r = Inl (NewError ErrCodeGranteeNotActiveMember ''grantee does not hold an active tenant membership'')"
      "w' = am_RecordGrantCheck (sv_metrics s) c' ''not_active'' w1"
  | (rejected) m w1 err w2 where "grant_valid (sv_Now s w) l re x"
      "mc_Exists (sv_checker s) c' t u w = (Inr (True, m), w1)"
      "repo_Grant (sv_repo s) c' (grant_entry t n u m g l re x)
         (am_RecordGrantCheck (sv_metrics s) c' ''active'' w1) = (Inl err, w2)"
      "r = Inl err" "w' = am_RecordWrite (sv_metrics s) c' ''grant'' ''error'' w2"
  | (granted) m w1 y w2 er w3 where "grant_valid (sv_Now s w) l re x"
      "mc_Exists (sv_checker s) c' t u w = (Inr (True, m), w1)"
      "repo_Grant (sv_repo s) c' (grant_entry t n u m g l re x)
         (am_RecordGrantCheck (sv_metrics s) c' ''active'' w1) = (Inr y, w2)"
      "cache_Delete (sv_cache s) c' t n u (am_RecordWrite (sv_metrics s) c' ''grant'' ''success'' w2) = (er, w3)"
      "r = Inr y" "w' = logged_failure s c' ''acl check cache invalidation failed after grant'' er w3"
proof (cases "grant_valid (sv_Now s w) l re x")
  case False
  with run show thesis
    by (intro invalid [of "case r of Inl er \<Rightarrow> er | _ \<Rightarrow> undefined"])
      (auto simp: Svc_Grant_def grant_valid_def Let_def split: option.splits if_splits)
next
  case True
  then have pass: "Valid l" "\<not> maxReasonLength < length re"
    "\<not> (case x of Some y \<Rightarrow> \<not> sv_Now s w < y | None \<Rightarrow> False)"
    by (auto simp: grant_valid_def split: option.splits)
  note G = run [unfolded Svc_Grant_def Let_def, folded c'_def grant_entry_def]
  obtain ex w1 where ex: "mc_Exists (sv_checker s) c' t u w = (ex, w1)" by fastforce
  consider (err) err where "ex = Inl err" | (no) m where "ex = Inr (False, m)" | (yes) m where "ex = Inr (True, m)"
    by (metis (full_types) sumE surj_pair)
  then show thesis
  proof cases
    case err
    with G pass ex show thesis by (intro unavailable [OF True]) auto
  next
    case no
    with G pass ex show thesis by (intro inactive [OF True]) auto
  next
    case (yes m)
    obtain gr w2 where gr: "repo_Grant (sv_repo s) c' (grant_entry t n u m g l re x)
        (am_RecordGrantCheck (sv_metrics s) c' ''active'' w1) = (gr, w2)" by fastforce
    show thesis
    proof (cases gr)
      case (Inl err)
      with G pass ex yes gr show thesis by (intro rejected [OF True, of m w1 err w2]) auto
    next
      case (Inr y)
      obtain er w3 where "cache_Delete (sv_cache s) c' t n u
          (am_RecordWrite (sv_metrics s) c' ''grant'' ''success'' w2) = (er, w3)" by fastforce
      with G pass ex yes gr Inr show thesis
        by (intro granted [OF True, of m w1 y w2 er w3])
          (auto simp: logged_failure_def split: option.splits)
    qed
  qed
qed

lemma Svc_Revoke_paths:
  assumes run: "Svc_Revoke s c t n u v w = (r, w')"
  defines "c' \<equiv> Start (sv_tracer s) c ''service.ACLService.Revoke''"
  obtains (rejected) err w1 where "repo_Revoke (sv_repo s) c' t n u v w = (Some err, w1)"
      "r = Some (Wrapped ''acl: revoke: '' err)" "w' = am_RecordWrite (sv_metrics s) c' ''revoke'' ''error'' w1"
  | (revoked) w1 er w2 where "repo_Revoke (sv_repo s) c' t n u v w = (None, w1)"
      "cache_Delete (sv_cache s) c' t n u (am_RecordWrite (sv_metrics s) c' ''revoke'' ''success'' w1) = (er, w2)"
      "r = None" "w' = logged_failure s c' ''acl check cache invalidation failed after revoke'' er w2"
proof -
  obtain r0 w1 where rv: "repo_Revoke (sv_repo s) c' t n u v w = (r0, w1)" by fastforce
  note R = run [unfolded Svc_Revoke_def Let_def, folded c'_def]
  show thesis
  proof (cases r0)
    case (Some err)
    with R rv show thesis by (intro rejected) auto
  next
    case None
    obtain er w2 where "cache_Delete (sv_cache s) c' t n u
        (am_RecordWrite (sv_metrics s) c' ''revoke'' ''success'' w1) = (er, w2)" by fastforce
    with R rv None show thesis
      by (intro revoked [of w1 er w2]) (auto simp: logged_failure_def split: option.splits)
  qed
qed

definition answer_of :: "TenderACLEntry option \<Rightarrow> CachedAccess" where
  "answer_of entry =
     (case entry of
        Some e \<Rightarrow> \<lparr>ca_HasAccess = True, ca_AccessLevel = Some (e_AccessLevel e), ca_ExpiresAt = e_ExpiresAt e\<rparr>
      | None \<Rightarrow> \<lparr>ca_HasAccess = False, ca_AccessLevel = None, ca_ExpiresAt = None\<rparr>)"

lemma check_uncached_paths:
  assumes run: "check_uncached s c t n u w = (r, w')"
  obtains (failed) err where "repo_FindActive (sv_repo s) c t n u w = (Inl err, w')"
      "r = Inl (Wrapped ''acl: check access: '' err)"
  | (answered) d w1 er w2 where "repo_FindActive (sv_repo s) c t n u w = (Inr d, w1)"
      "cache_Set (sv_cache s) c t n u (answer_of d)
         (am_RecordCheckCall (sv_metrics s) c (statusFor (ca_HasAccess (answer_of d))) w1) = (er, w2)"
      "r = Inr (answer_of d)" "w' = logged_failure s c ''acl check cache populate failed'' er w2"
proof -
  note U = run [unfolded check_uncached_def Let_def, folded answer_of_def]
  obtain r0 w1 where f: "repo_FindActive (sv_repo s) c t n u w = (r0, w1)" by fastforce
  show thesis
  proof (cases r0)
    case (Inl err)
    with U f show thesis by (intro failed) auto
  next
    case (Inr d)
    obtain er w2 where "cache_Set (sv_cache s) c t n u (answer_of d)
         (am_RecordCheckCall (sv_metrics s) c (statusFor (ca_HasAccess (answer_of d))) w1) = (er, w2)" by fastforce
    with U f Inr show thesis
      by (intro answered [of d w1 er w2]) (auto simp: logged_failure_def split: option.splits)
  qed
qed

lemma Svc_CheckAccess_paths:
  assumes run: "Svc_CheckAccess s c t n u w = (r, w')"
  defines "c' \<equiv> Start (sv_tracer s) c ''service.ACLService.CheckAccess''"
  obtains (hit) v w1 where "cache_Get (sv_cache s) c' t n u w = (Inr (Some v), w1)" "r = Inr v"
      "w' = am_RecordCheckCall (sv_metrics s) c' (statusFor (ca_HasAccess v))
              (am_RecordCacheHit (sv_metrics s) c' w1)"
  | (uncached) r0 w1 w2 where "cache_Get (sv_cache s) c' t n u w = (r0, w1)"
      "w2 = am_RecordCacheMiss (sv_metrics s) c' w1 \<or>
       (\<exists>err. w2 = WarnContext (sv_logger s) c' ''acl check cache read failed, falling back to postgres''
                 [AString ''error'', AString (Error_text err)] w1)"
      "check_uncached s c' t n u w2 = (r, w')"
proof -
  note C = run [unfolded Svc_CheckAccess_def Let_def, folded c'_def]
  obtain g w1 where g: "cache_Get (sv_cache s) c' t n u w = (g, w1)" by fastforce
  consider (err) err where "g = Inl err" | (hit) v where "g = Inr (Some v)" | (miss) "g = Inr None"
    by (metis option.exhaust sumE)
  then show thesis
  proof cases
    case err
    with C g show thesis by (intro uncached [of g w1]) auto
  next
    case hit
    with C g show thesis by (intro that(1)) auto
  next
    case miss
    with C g show thesis by (intro uncached [of g w1]) auto
  qed
qed

lemma NewACLService_sel [simp]:
  "sv_repo (NewACLService a b d m l tr now) = a" "sv_checker (NewACLService a b d m l tr now) = b"
  "sv_cache (NewACLService a b d m l tr now) = d" "sv_metrics (NewACLService a b d m l tr now) = m"
  "sv_logger (NewACLService a b d m l tr now) = l" "sv_tracer (NewACLService a b d m l tr now) = tr"
  "sv_Now (NewACLService a b d m l tr now) = now"
  by (simp_all add: NewACLService_def)

section \<open>The service over its ports' contracts\<close>

text \<open>
  \<open>quiet\<close> relates worlds that differ in counters and log lines only.  Each port leaves the others'
  state alone.
\<close>

locale acl_service =
  acl_repository ok repo scope entries db_clock untouched +
  acl_cache ok cache holds cache_clock lifetime cache_only +
  membership_check ok checker confirmed denied
  for ok :: "'e \<Rightarrow> bool" and repo :: "'e \<Rightarrow> 'w TenderACLRepository"
    and scope :: "'e \<Rightarrow> ctx \<Rightarrow> uuid \<Rightarrow> bool" and entries :: "'w \<Rightarrow> TenderACLEntry list"
    and db_clock :: "'w \<Rightarrow> instant" and untouched :: "'w \<Rightarrow> 'w \<Rightarrow> bool"
    and cache :: "'e \<Rightarrow> 'w Cache" and holds :: "'e \<Rightarrow> 'w \<Rightarrow> cache_view"
    and cache_clock :: "'w \<Rightarrow> instant" and lifetime :: duration
    and cache_only :: "'w \<Rightarrow> 'w \<Rightarrow> bool" and checker :: "'e \<Rightarrow> 'w MembershipCheckClient"
    and confirmed :: "'e \<Rightarrow> ctx \<Rightarrow> 'w \<Rightarrow> uuid \<Rightarrow> uuid \<Rightarrow> uuid \<Rightarrow> bool"
    and denied :: "'e \<Rightarrow> ctx \<Rightarrow> 'w \<Rightarrow> uuid \<Rightarrow> uuid \<Rightarrow> bool" +
  fixes metrics :: "'w ACLMetrics" and logger :: "'w SlogStyleLogger"
    and quiet :: "'w \<Rightarrow> 'w \<Rightarrow> bool"
  assumes scope_start: "scope e c t \<Longrightarrow> scope e (Start tr c name) t"
    and cache_only_store: "cache_only w w' \<Longrightarrow> entries w' = entries w \<and> db_clock w' = db_clock w \<and>
      cache_clock w' = cache_clock w"
    and untouched_cache: "untouched w w' \<Longrightarrow> holds e w' = holds e w \<and> cache_clock w' = cache_clock w"
    and quiet_same: "quiet w w' \<Longrightarrow> entries w' = entries w \<and> holds e w' = holds e w \<and>
      db_clock w' = db_clock w \<and> cache_clock w' = cache_clock w"
    and metrics_quiet: "quiet w (am_RecordGrantCheck metrics c st w)"
      "quiet w (am_RecordCheckCall metrics c st w)" "quiet w (am_RecordWrite metrics c op st w)"
      "quiet w (am_RecordCacheHit metrics c w)" "quiet w (am_RecordCacheMiss metrics c w)"
    and logger_quiet: "quiet w (log4 logger c level msg args b w)"
begin

abbreviation svc :: "'e \<Rightarrow> Tracer \<Rightarrow> ('w \<Rightarrow> instant) \<Rightarrow> 'w ACLService" where
  "svc e tr now \<equiv> NewACLService (repo e) (checker e) (cache e) metrics logger tr now"

lemma quiet_logged: "quiet w (logged_failure (svc e tr now) c msg (Some er) w)"
  by (simp add: logged_failure_def log_defs logger_quiet)

lemma logged_same [simp]:
  "entries (logged_failure (svc e tr now) c msg er w) = entries w"
  "holds e' (logged_failure (svc e tr now) c msg er w) = holds e' w"
  "db_clock (logged_failure (svc e tr now) c msg er w) = db_clock w"
  "cache_clock (logged_failure (svc e tr now) c msg er w) = cache_clock w"
  using quiet_logged [THEN quiet_same] by (cases er; simp add: logged_failure_def)+

lemma metrics_same [simp]:
  "entries (am_RecordGrantCheck metrics c st w) = entries w"
  "entries (am_RecordCheckCall metrics c st w) = entries w"
  "entries (am_RecordWrite metrics c op st w) = entries w"
  "entries (am_RecordCacheHit metrics c w) = entries w"
  "entries (am_RecordCacheMiss metrics c w) = entries w"
  "holds e (am_RecordGrantCheck metrics c st w) = holds e w"
  "holds e (am_RecordCheckCall metrics c st w) = holds e w"
  "holds e (am_RecordWrite metrics c op st w) = holds e w"
  "holds e (am_RecordCacheHit metrics c w) = holds e w"
  "holds e (am_RecordCacheMiss metrics c w) = holds e w"
  "db_clock (am_RecordGrantCheck metrics c st w) = db_clock w"
  "db_clock (am_RecordCheckCall metrics c st w) = db_clock w"
  "db_clock (am_RecordWrite metrics c op st w) = db_clock w"
  "db_clock (am_RecordCacheHit metrics c w) = db_clock w"
  "db_clock (am_RecordCacheMiss metrics c w) = db_clock w"
  "cache_clock (am_RecordGrantCheck metrics c st w) = cache_clock w"
  "cache_clock (am_RecordCheckCall metrics c st w) = cache_clock w"
  "cache_clock (am_RecordWrite metrics c op st w) = cache_clock w"
  "cache_clock (am_RecordCacheHit metrics c w) = cache_clock w"
  "cache_clock (am_RecordCacheMiss metrics c w) = cache_clock w"
  using metrics_quiet [THEN quiet_same] by blast+

text \<open>
  Invalidation after a write: the entries stay, and the key is gone or, when the deletion failed,
  perhaps still there.
\<close>

lemma invalidate:
  assumes "ok e" "cache_Delete (cache e) c t n u w = (er, w1)"
  shows "entries w1 = entries w" "db_clock w1 = db_clock w" "cache_clock w1 = cache_clock w"
    "holds e w1 = (holds e w)((t, n, u) := None) \<or> er \<noteq> None \<and> holds e w1 = holds e w"
  using delete_any [OF assms] cache_only_store by blast+

text \<open>
  TAC-FAIL-1: no entry is stored unless the request was valid and the provider confirmed the
  membership whose id the entry carries; and then the entry is exactly the one asked for.
\<close>

lemma Svc_Grant_any:
  assumes ok: "ok e" and scope: "scope e c t"
    and run: "Svc_Grant (svc e tr now) c t n u g l re x w = (r, w')"
  defines "c' \<equiv> Start tr c ''service.ACLService.Grant''"
  shows "(entries w' = entries w \<and> holds e w' = holds e w \<and> (\<exists>er. r = Inl er)) \<or>
    (\<exists>m y. grant_valid (now w) l re x \<and> m \<noteq> 0 \<and> confirmed e c' w t u m \<and>
       entries w' = entries w @ [y] \<and> granted_as (grant_entry t n u m g l re x) y \<and>
       (\<forall>d \<in> set (entries w). \<not> live t n u d) \<and>
       (r = Inr y \<and> (holds e w' = (holds e w)((t, n, u) := None) \<or> holds e w' = holds e w) \<or>
        (\<exists>er. r = Inl er) \<and> holds e w' = holds e w))"
proof -
  let ?x = "\<lambda>m. grant_entry t n u m g l re x"
  have sc: "scope e c' (e_TenantID (?x m))" for m using scope_start [OF scope] by (simp add: c'_def)
  from run show ?thesis
  proof (cases rule: Svc_Grant_paths)
    case (invalid er)
    then show ?thesis by simp
  next
    case (unavailable err w1)
    with exists_quiet [OF ok] show ?thesis by fastforce
  next
    case (inactive m w1)
    with exists_quiet [OF ok] show ?thesis by fastforce
  next
    case (rejected m w1 err w2)
    then have m: "m \<noteq> 0" "confirmed e c' w t u m" and w1: "w1 = w"
      using exists_active [OF ok, of c' t u w m w1] exists_quiet [OF ok] by (auto simp: c'_def)
    note gf = grant_failed [OF ok sc [of m] rejected(3) [folded c'_def, simplified, folded c'_def]]
    from gf w1 m rejected(1,4,5) untouched_cache show ?thesis by auto
  next
    case (granted m w1 y w2 er w3)
    then have m: "m \<noteq> 0" "confirmed e c' w t u m" and w1: "w1 = w"
      using exists_active [OF ok, of c' t u w m w1] exists_quiet [OF ok] by (auto simp: c'_def)
    note gd = grant_done [OF ok sc [of m] granted(3) [folded c'_def, simplified, folded c'_def]]
    note inv = invalidate [OF ok granted(4) [simplified]]
    from gd have "holds e w2 = holds e w1"
      using untouched_cache [of "am_RecordGrantCheck metrics c' ''active'' w1" w2 e] by simp
    with gd inv w1 m granted(1,5,6) show ?thesis by auto
  qed
qed

lemma Svc_List_any:
  assumes ok: "ok e" and scope: "scope e c t"
    and run: "Svc_List (svc e tr now) c t n limit offset w = (r, w')"
  shows "w' = w"
proof -
  let ?c = "Start tr c ''service.ACLService.List''"
  have sc: "scope e ?c t" using scope_start [OF scope] .
  obtain r0 w1 where run0: "repo_List (repo e) ?c t n limit offset w = (r0, w1)" by fastforce
  have "w1 = w"
    using list_done [OF ok sc] list_failed [OF ok sc] run0 by (cases r0) blast+
  with run run0 show ?thesis by (auto simp: Svc_List_def Let_def NewACLService_def split: sum.splits)
qed

lemma Svc_Revoke_any:
  assumes ok: "ok e" and scope: "scope e c t"
    and run: "Svc_Revoke (svc e tr now) c t n u v w = (r, w')"
  shows "(r \<noteq> None \<and> holds e w' = holds e w \<and>
      (entries w' = entries w \<or> entries w' = spec_revoke (db_clock w) t n u v (entries w))) \<or>
    (r = None \<and> entries w' = spec_revoke (db_clock w) t n u v (entries w) \<and>
      (\<exists>d \<in> set (entries w). live t n u d \<and> e_RecordVersion d = v) \<and>
      (holds e w' = (holds e w)((t, n, u) := None) \<or> holds e w' = holds e w))"
proof -
  let ?c = "Start tr c ''service.ACLService.Revoke''"
  have sc: "scope e ?c t" using scope_start [OF scope] .
  from run show ?thesis
  proof (cases rule: Svc_Revoke_paths)
    case (rejected err w1)
    with revoke_failed [OF ok sc, of n u v w err w1] untouched_cache show ?thesis by auto
  next
    case (revoked w1 er w2)
    note rd = revoke_done [OF ok sc, of n u v w w1]
    note inv = invalidate [OF ok revoked(2) [simplified]]
    from rd revoked inv untouched_cache [of w w1 e] show ?thesis by auto
  qed
qed

lemma answer_of_truth:
  assumes "case r of None \<Rightarrow> \<forall>d \<in> set es. \<not> active now t n u d | Some d \<Rightarrow> d \<in> set es \<and> active now t n u d"
  shows "access_answer now t n u es (answer_of r)"
  using assms by (auto simp: access_answer_def answer_of_def split: option.splits)

lemma check_uncached_any:
  assumes ok: "ok e" and scope: "scope e c t"
    and run: "check_uncached (svc e tr now) c t n u w = (r, w')"
  shows "entries w' = entries w" "db_clock w' = db_clock w" "cache_clock w' = cache_clock w"
    "(\<exists>er. r = Inl er) \<and> holds e w' = holds e w \<or>
     (\<exists>v. r = Inr v \<and> access_answer (db_clock w) t n u (entries w) v \<and>
        (holds e w' = holds e w \<or> holds e w' = (holds e w)((t, n, u) \<mapsto> (v, cache_clock w + lifetime))))"
proof -
  have "entries w' = entries w \<and> db_clock w' = db_clock w \<and> cache_clock w' = cache_clock w \<and>
    ((\<exists>er. r = Inl er) \<and> holds e w' = holds e w \<or>
     (\<exists>v. r = Inr v \<and> access_answer (db_clock w) t n u (entries w) v \<and>
        (holds e w' = holds e w \<or> holds e w' = (holds e w)((t, n, u) \<mapsto> (v, cache_clock w + lifetime)))))"
    using run
  proof (cases rule: check_uncached_paths)
    case (failed err)
    with find_failed [OF ok scope, of n u w err w'] show ?thesis by simp
  next
    case (answered d w1 er w2)
    with find_done [OF ok scope, of n u w d w1] have w1: "w1 = w"
      and truth: "access_answer (db_clock w) t n u (entries w) (answer_of d)"
      by (auto intro: answer_of_truth)
    from set_any [OF ok answered(2) [simplified]] cache_only_store w1 truth answered(3,4)
    show ?thesis by fastforce
  qed
  then show "entries w' = entries w" "db_clock w' = db_clock w" "cache_clock w' = cache_clock w"
    "(\<exists>er. r = Inl er) \<and> holds e w' = holds e w \<or>
     (\<exists>v. r = Inr v \<and> access_answer (db_clock w) t n u (entries w) v \<and>
        (holds e w' = holds e w \<or> holds e w' = (holds e w)((t, n, u) \<mapsto> (v, cache_clock w + lifetime))))"
    by blast+
qed

text \<open>
  An access check changes no entry.  It answers what the cache holds and still serves, or else the
  truth about the entries, which it may put into the cache for one lifetime.
\<close>

lemma Svc_CheckAccess_any:
  assumes ok: "ok e" and scope: "scope e c t"
    and run: "Svc_CheckAccess (svc e tr now) c t n u w = (r, w')"
  shows "entries w' = entries w \<and> db_clock w' = db_clock w \<and> cache_clock w' = cache_clock w \<and>
    (holds e w' = holds e w \<and>
       (\<forall>v. r = Inr v \<longrightarrow> access_answer (db_clock w) t n u (entries w) v \<or>
          (\<exists>until. holds e w (t, n, u) = Some (v, until) \<and> cache_clock w < until)) \<or>
     (\<exists>v. r = Inr v \<and> access_answer (db_clock w) t n u (entries w) v \<and>
        holds e w' = (holds e w)((t, n, u) \<mapsto> (v, cache_clock w + lifetime))))"
proof -
  let ?c = "Start tr c ''service.ACLService.CheckAccess''"
  have sc: "scope e ?c t" using scope_start [OF scope] .
  from run show ?thesis
  proof (cases rule: Svc_CheckAccess_paths)
    case (hit v w1)
    from get_any [OF ok hit(1) [simplified]] get_hit [OF ok hit(1) [simplified]] cache_only_store hit(2,3)
    show ?thesis by fastforce
  next
    case (uncached r0 w1 w2)
    from get_any [OF ok uncached(1) [simplified]] cache_only_store
    have w1: "entries w1 = entries w" "db_clock w1 = db_clock w" "cache_clock w1 = cache_clock w"
      "holds e w1 = holds e w" by blast+
    have w2: "entries w2 = entries w1" "db_clock w2 = db_clock w1" "cache_clock w2 = cache_clock w1"
      "holds e w2 = holds e w1"
      using uncached(2) quiet_same [OF logger_quiet] by (auto simp: log_defs)
    from uncached(3) have "check_uncached (svc e tr now) ?c t n u w2 = (r, w')" by simp
    note un = check_uncached_any [OF ok sc this]
    from un w1 w2 show ?thesis by auto
  qed
qed

text \<open>A miss reads through: with nothing cached under the key, the answer is the truth.\<close>

lemma check_truth:
  assumes "ok e" "scope e c t" "Svc_CheckAccess (svc e tr now) c t n u w = (Inr v, w')"
    and none: "holds e w (t, n, u) = None"
  shows "access_answer (db_clock w) t n u (entries w) v"
  using Svc_CheckAccess_any [OF assms(1-3)] none by auto

text \<open>
  After a revoke, a check denies access, unless the invalidation failed and the cache still
  serves what it held before.
\<close>

lemma denied_after_revoke:
  assumes ok: "ok e" and scope: "scope e c t" "scope e c2 t" and uniq: "unique_live (entries w)"
    and rev: "Svc_Revoke (svc e tr now) c t n u v w = (None, w1)"
    and chk: "Svc_CheckAccess (svc e tr now) c2 t n u w1 = (Inr a, w2)"
  shows "\<not> ca_HasAccess a \<or> (\<exists>until. holds e w1 = holds e w \<and> holds e w (t, n, u) = Some (a, until) \<and>
    cache_clock w1 < until)"
proof -
  from Svc_Revoke_any [OF ok scope(1) rev] obtain d where
    ent: "entries w1 = spec_revoke (db_clock w) t n u v (entries w)"
    and d: "d \<in> set (entries w)" "live t n u d" "e_RecordVersion d = v"
    and h: "holds e w1 = (holds e w)((t, n, u) := None) \<or> holds e w1 = holds e w" by auto
  have dead: "\<forall>d' \<in> set (entries w1). \<not> active (db_clock w1) t n u d'"
    using spec_revoke_kills [OF uniq d] ent active_imp_live by metis
  consider "access_answer (db_clock w1) t n u (entries w1) a"
    | until where "holds e w1 (t, n, u) = Some (a, until)" "cache_clock w1 < until"
    using Svc_CheckAccess_any [OF ok scope(2) chk] by auto
  then show ?thesis
  proof cases
    case 1
    with dead show ?thesis by (auto simp: access_answer_def split: if_splits)
  next
    case 2
    with h show ?thesis by (auto simp: fun_upd_def)
  qed
qed

lemma allowed_after_grant:
  assumes ok: "ok e" and scope: "scope e c t" "scope e c2 t"
    and gr: "Svc_Grant (svc e tr now) c t n u g l re x w = (Inr y, w1)"
    and unexpired: "IsActive y (db_clock w1)"
    and chk: "Svc_CheckAccess (svc e tr now) c2 t n u w1 = (Inr a, w2)"
  shows "a = \<lparr>ca_HasAccess = True, ca_AccessLevel = Some l, ca_ExpiresAt = e_ExpiresAt y\<rparr> \<or>
    (\<exists>until. holds e w1 = holds e w \<and> holds e w (t, n, u) = Some (a, until) \<and> cache_clock w1 < until)"
proof -
  from Svc_Grant_any [OF ok scope(1) gr] obtain m where
    ent: "entries w1 = entries w @ [y]" and as: "granted_as (grant_entry t n u m g l re x) y"
    and fresh: "\<forall>d \<in> set (entries w). \<not> live t n u d"
    and h: "holds e w1 = (holds e w)((t, n, u) := None) \<or> holds e w1 = holds e w" by auto
  have act: "active (db_clock w1) t n u y" and l: "e_AccessLevel y = l"
    using as unexpired by (auto simp: active_def granted_as_def)
  have only: "d = y" if "d \<in> set (entries w1)" "active (db_clock w1) t n u d" for d
    using that fresh ent active_imp_live by auto
  consider "access_answer (db_clock w1) t n u (entries w1) a"
    | until where "holds e w1 (t, n, u) = Some (a, until)" "cache_clock w1 < until"
    using Svc_CheckAccess_any [OF ok scope(2) chk] by auto
  then show ?thesis
  proof cases
    case 1
    have "ca_HasAccess a" using 1 act ent by (auto simp: access_answer_def split: if_splits)
    with 1 only l show ?thesis by (cases a) (auto simp: access_answer_def)
  next
    case 2
    with h show ?thesis by (auto simp: fun_upd_def)
  qed
qed

end

end
