(* ===== verification/Schema.thy ===== *)
theory Schema
  imports Domain "HOL-Library.Multiset"
begin

text \<open>
  The database of the service: the two tables, the constraints, the trigger and the row-level
  security policy of \<open>postgres/migrations\<close>, and the meaning of the nine SQL statements that
  \<open>repository.go\<close> and \<open>processed_events.go\<close> send.  A statement takes the tenant GUC of its
  transaction and the transaction's \<open>now()\<close>, and gives an error or its result with the new
  tables.

  What the server decides and the SQL text does not say is a parameter: how text is read as a
  uuid, the text of a server error, the resolution of a timestamp column, the fresh row id and
  the order in which a scan delivers rows.
\<close>

section \<open>Tables\<close>

record acl_row =
  r_id :: uuid
  r_tenant_id :: uuid
  r_tender_id :: uuid
  r_user_id :: uuid
  r_tenant_membership_id :: uuid
  r_access_level :: string
  r_granted_by :: uuid
  r_reason :: "string option"
  r_expires_at :: "instant option"
  r_record_version :: int
  r_created_at :: instant
  r_updated_at :: instant
  r_deleted_at :: "instant option"

record event_row =
  p_event_id :: uuid
  p_consumer :: string
  p_processed_at :: instant

record database =
  tender_acl_entries :: "acl_row list"
  processed_events :: "event_row list"

record pg_server =
  pg_uuid_in :: "string \<Rightarrow> uuid option"
  pg_text :: "string \<Rightarrow> string"
  pg_timestamptz :: "instant \<Rightarrow> instant"
  gen_random_uuid :: "database \<Rightarrow> uuid"
  scan_order :: "acl_row list \<Rightarrow> acl_row list"

definition pg_error :: "pg_server \<Rightarrow> string \<Rightarrow> go_error" where
  "pg_error srv state = PgErr state (pg_text srv state)"

lemma as_domain_pg_error [simp]: "as_domain (pg_error srv st) = None"
  by (simp add: pg_error_def)

lemma sqlstate_pg_error [simp]: "sqlstate (pg_error srv st) = Some st"
  by (simp add: pg_error_def)

lemma errors_Is_pg_error [simp]: "errors_Is (pg_error srv st) s = False"
  by (simp add: pg_error_def)

section \<open>Row-level security\<close>

text \<open>
  The policy \<open>tenant_isolation\<close>: \<open>NULLIF(current_setting('app.tenant_id', true), '')::uuid\<close>.  An
  unset or empty GUC is NULL, which equals no tenant.
\<close>

definition tenant_isolation :: "pg_server \<Rightarrow> string option \<Rightarrow> go_error + uuid option" where
  "tenant_isolation srv guc =
     (case guc of
        None \<Rightarrow> Inr None
      | Some s \<Rightarrow>
          if s = [] then Inr None
          else (case pg_uuid_in srv s of
                  None \<Rightarrow> Inl (pg_error srv ''22P02'')
                | Some u \<Rightarrow> Inr (Some u)))"

section \<open>The trigger trg_touch_tae\<close>

definition touch_row :: "instant \<Rightarrow> acl_row \<Rightarrow> acl_row \<Rightarrow> acl_row" where
  "touch_row now old new = new\<lparr>r_updated_at := now, r_record_version := r_record_version old + 1\<rparr>"

definition trg_touch_tae :: "instant \<Rightarrow> acl_row \<Rightarrow> acl_row \<Rightarrow> acl_row" where
  "trg_touch_tae now old new = (if old \<noteq> new then touch_row now old new else new)"

section \<open>Statements on tender_acl_entries\<close>

text \<open>\<open>char_length\<close> of UTF-8 text: the bytes that do not continue a character.\<close>

definition char_length :: "string \<Rightarrow> nat" where
  "char_length s =
     length (filter (\<lambda>c. \<not> (128 \<le> (of_char c :: nat) \<and> (of_char c :: nat) < 192)) s)"

text \<open>A \<open>SELECT\<close> with condition \<open>P\<close>: the rows the policy shows that satisfy it, in scan order.\<close>

definition select_where ::
  "pg_server \<Rightarrow> string option \<Rightarrow> (acl_row \<Rightarrow> bool) \<Rightarrow> database \<Rightarrow> go_error + acl_row list" where
  "select_where srv guc P d =
     (case tenant_isolation srv guc of
        Inl e \<Rightarrow> Inl e
      | Inr t \<Rightarrow>
          Inr (scan_order srv
                 (filter (\<lambda>r. t = Some (r_tenant_id r) \<and> P r) (tender_acl_entries d))))"

text \<open>The list query: \<open>ORDER BY created_at LIMIT $3 OFFSET $4\<close>.\<close>

definition select_list ::
  "pg_server \<Rightarrow> string option \<Rightarrow> uuid \<Rightarrow> uuid \<Rightarrow> int \<Rightarrow> int \<Rightarrow> database \<Rightarrow> go_error + acl_row list" where
  "select_list srv guc tenant tender limit offset d =
     (if limit < 0 then Inl (pg_error srv ''2201W'')
      else if offset < 0 then Inl (pg_error srv ''2201X'')
      else (case select_where srv guc
                   (\<lambda>r. r_tenant_id r = tenant \<and> r_tender_id r = tender \<and> r_deleted_at r = None) d of
              Inl e \<Rightarrow> Inl e
            | Inr rows \<Rightarrow> Inr (take (nat limit) (drop (nat offset) (sort_key r_created_at rows)))))"

text \<open>The access query, with the TAE-3 predicate.\<close>

definition select_active ::
  "pg_server \<Rightarrow> string option \<Rightarrow> instant \<Rightarrow> uuid \<Rightarrow> uuid \<Rightarrow> uuid \<Rightarrow> database \<Rightarrow> go_error + acl_row list" where
  "select_active srv guc now tenant tender user d =
     select_where srv guc
       (\<lambda>r. r_tenant_id r = tenant \<and> r_tender_id r = tender \<and> r_user_id r = user \<and>
            r_deleted_at r = None \<and>
            (case r_expires_at r of None \<Rightarrow> True | Some x \<Rightarrow> now < x)) d"

text \<open>
  The insert, with the checks in the server's order: parameter conversion (the enum cast, a NUL
  byte in text), the policy's \<open>WITH CHECK\<close>, the CHECK constraints, the primary key and
  \<open>uq_tae_active_entry\<close>.
\<close>

definition insert_entry ::
  "pg_server \<Rightarrow> string option \<Rightarrow> instant \<Rightarrow> uuid \<Rightarrow> uuid \<Rightarrow> uuid \<Rightarrow> uuid \<Rightarrow> string \<Rightarrow> uuid
    \<Rightarrow> string option \<Rightarrow> instant option \<Rightarrow> database \<Rightarrow> go_error + acl_row \<times> database" where
  "insert_entry srv guc now tenant tender user membership level granted_by reason expires d =
     (if level \<noteq> ''view'' \<and> level \<noteq> ''edit'' \<and> level \<noteq> ''approve''
      then Inl (pg_error srv ''22P02'')
      else if (case reason of Some s \<Rightarrow> CHR 0x00 \<in> set s | None \<Rightarrow> False)
      then Inl (pg_error srv ''22021'')
      else (case tenant_isolation srv guc of
              Inl e \<Rightarrow> Inl e
            | Inr t \<Rightarrow>
                if t \<noteq> Some tenant then Inl (pg_error srv ''42501'')
                else if (case reason of Some s \<Rightarrow> 500 < char_length s | None \<Rightarrow> False)
                then Inl (pg_error srv ''23514'')
                else
                  (let row = \<lparr>r_id = gen_random_uuid srv d, r_tenant_id = tenant,
                              r_tender_id = tender, r_user_id = user,
                              r_tenant_membership_id = membership, r_access_level = level,
                              r_granted_by = granted_by, r_reason = reason,
                              r_expires_at = map_option (pg_timestamptz srv) expires,
                              r_record_version = 1, r_created_at = now, r_updated_at = now,
                              r_deleted_at = None\<rparr>
                   in if list_ex (\<lambda>r. r_id r = r_id row) (tender_acl_entries d)
                      then Inl (pg_error srv ''23505'')
                      else if list_ex (\<lambda>r. r_tenant_id r = tenant \<and> r_tender_id r = tender \<and>
                                            r_user_id r = user \<and> r_deleted_at r = None)
                                (tender_acl_entries d)
                      then Inl (pg_error srv ''23505'')
                      else Inr (row, d\<lparr>tender_acl_entries := tender_acl_entries d @ [row]\<rparr>))))"

text \<open>
  \<open>UPDATE ... SET deleted_at = now() WHERE P\<close>: every row the policy shows that satisfies \<open>P\<close> is
  updated and passes the trigger; \<open>record_version\<close> is a bigint, so an increment past its range
  fails the statement.  The number of matched rows is the command tag.
\<close>

definition soft_delete_row :: "instant \<Rightarrow> acl_row \<Rightarrow> acl_row" where
  "soft_delete_row now r = trg_touch_tae now r (r\<lparr>r_deleted_at := Some now\<rparr>)"

definition soft_delete_where ::
  "pg_server \<Rightarrow> string option \<Rightarrow> instant \<Rightarrow> (acl_row \<Rightarrow> bool) \<Rightarrow> database \<Rightarrow> go_error + nat \<times> database" where
  "soft_delete_where srv guc now P d =
     (case tenant_isolation srv guc of
        Inl e \<Rightarrow> Inl e
      | Inr t \<Rightarrow>
          (let hit = (\<lambda>r. t = Some (r_tenant_id r) \<and> P r)
           in if list_ex (\<lambda>r. hit r \<and> MaxInt64 < r_record_version (soft_delete_row now r))
                   (tender_acl_entries d)
              then Inl (pg_error srv ''22003'')
              else Inr (length (filter hit (tender_acl_entries d)),
                        d\<lparr>tender_acl_entries :=
                            map (\<lambda>r. if hit r then soft_delete_row now r else r)
                              (tender_acl_entries d)\<rparr>)))"

definition update_revoke ::
  "pg_server \<Rightarrow> string option \<Rightarrow> instant \<Rightarrow> uuid \<Rightarrow> uuid \<Rightarrow> uuid \<Rightarrow> int \<Rightarrow> database
    \<Rightarrow> go_error + nat \<times> database" where
  "update_revoke srv guc now tenant tender user version d =
     soft_delete_where srv guc now
       (\<lambda>r. r_tenant_id r = tenant \<and> r_tender_id r = tender \<and> r_user_id r = user \<and>
            r_deleted_at r = None \<and> r_record_version r = version) d"

definition update_user ::
  "pg_server \<Rightarrow> string option \<Rightarrow> instant \<Rightarrow> uuid \<Rightarrow> uuid \<Rightarrow> database \<Rightarrow> go_error + nat \<times> database" where
  "update_user srv guc now tenant user d =
     soft_delete_where srv guc now
       (\<lambda>r. r_tenant_id r = tenant \<and> r_user_id r = user \<and> r_deleted_at r = None) d"

definition delete_tenant ::
  "pg_server \<Rightarrow> string option \<Rightarrow> uuid \<Rightarrow> database \<Rightarrow> go_error + nat \<times> database" where
  "delete_tenant srv guc tenant d =
     (case tenant_isolation srv guc of
        Inl e \<Rightarrow> Inl e
      | Inr t \<Rightarrow>
          (let hit = (\<lambda>r. t = Some (r_tenant_id r) \<and> r_tenant_id r = tenant)
           in Inr (length (filter hit (tender_acl_entries d)),
                   d\<lparr>tender_acl_entries := filter (\<lambda>r. \<not> hit r) (tender_acl_entries d)\<rparr>)))"

section \<open>Statements on processed_events\<close>

definition event_exists :: "uuid \<Rightarrow> string \<Rightarrow> database \<Rightarrow> bool" where
  "event_exists ev consumer d =
     list_ex (\<lambda>p. p_event_id p = ev \<and> p_consumer p = consumer) (processed_events d)"

definition insert_event :: "instant \<Rightarrow> uuid \<Rightarrow> string \<Rightarrow> database \<Rightarrow> database" where
  "insert_event now ev consumer d =
     (if event_exists ev consumer d then d
      else d\<lparr>processed_events :=
               processed_events d @
                 [\<lparr>p_event_id = ev, p_consumer = consumer, p_processed_at = now\<rparr>]\<rparr>)"

definition delete_expired_events :: "instant \<Rightarrow> string \<Rightarrow> database \<Rightarrow> nat \<times> database" where
  "delete_expired_events now consumer d =
     (let old = (\<lambda>p. p_consumer p = consumer \<and> p_processed_at p < now - 8 * Day)
      in (length (filter old (processed_events d)),
          d\<lparr>processed_events := filter (\<lambda>p. \<not> old p) (processed_events d)\<rparr>))"

section \<open>The schema invariant\<close>

text \<open>The rows that \<open>uq_tae_active_entry\<close> indexes for one (tenant, tender, user).\<close>

definition live_for :: "uuid \<Rightarrow> uuid \<Rightarrow> uuid \<Rightarrow> acl_row \<Rightarrow> bool" where
  "live_for tenant tender user r \<longleftrightarrow>
     r_tenant_id r = tenant \<and> r_tender_id r = tender \<and> r_user_id r = user \<and> r_deleted_at r = None"

definition row_ok :: "acl_row \<Rightarrow> bool" where
  "row_ok r \<longleftrightarrow>
     Valid (r_access_level r) \<and> 0 < r_record_version r \<and> r_record_version r \<le> MaxInt64 \<and>
     (case r_reason r of None \<Rightarrow> True | Some s \<Rightarrow> char_length s \<le> 500)"

definition schema_inv :: "database \<Rightarrow> bool" where
  "schema_inv d \<longleftrightarrow>
     distinct (map r_id (tender_acl_entries d)) \<and>
     (\<forall>t n u. length (filter (live_for t n u) (tender_acl_entries d)) \<le> 1) \<and>
     (\<forall>r \<in> set (tender_acl_entries d). row_ok r) \<and>
     distinct (map (\<lambda>p. (p_event_id p, p_consumer p)) (processed_events d))"

definition empty_db :: database where
  "empty_db = \<lparr>tender_acl_entries = [], processed_events = []\<rparr>"

section \<open>Facts about single rows\<close>

lemma char_length_le: "char_length s \<le> length s"
  by (simp add: char_length_def)

lemma soft_delete_row_live:
  "r_deleted_at r = None \<Longrightarrow>
     soft_delete_row now r =
       r\<lparr>r_deleted_at := Some now, r_updated_at := now, r_record_version := r_record_version r + 1\<rparr>"
  by (cases r) (simp add: soft_delete_row_def trg_touch_tae_def touch_row_def)

lemma soft_delete_row_sel [simp]:
  "r_id (soft_delete_row now r) = r_id r"
  "r_tenant_id (soft_delete_row now r) = r_tenant_id r"
  "r_tender_id (soft_delete_row now r) = r_tender_id r"
  "r_user_id (soft_delete_row now r) = r_user_id r"
  "r_tenant_membership_id (soft_delete_row now r) = r_tenant_membership_id r"
  "r_access_level (soft_delete_row now r) = r_access_level r"
  "r_granted_by (soft_delete_row now r) = r_granted_by r"
  "r_reason (soft_delete_row now r) = r_reason r"
  "r_expires_at (soft_delete_row now r) = r_expires_at r"
  "r_created_at (soft_delete_row now r) = r_created_at r"
  "r_deleted_at (soft_delete_row now r) = Some now"
  by (cases r; simp add: soft_delete_row_def trg_touch_tae_def touch_row_def)+

lemma soft_delete_row_version:
  "r_record_version r \<le> r_record_version (soft_delete_row now r)"
  by (simp add: soft_delete_row_def trg_touch_tae_def touch_row_def)

lemma live_for_soft_delete [simp]: "\<not> live_for t n u (soft_delete_row now r)"
  by (simp add: live_for_def)

lemma tenant_isolation_fail_closed:
  "tenant_isolation srv None = Inr None" "tenant_isolation srv (Some []) = Inr None"
  by (simp_all add: tenant_isolation_def)

section \<open>Every statement keeps the schema invariant\<close>

lemma schema_invI:
  assumes "distinct (map r_id (tender_acl_entries d))"
    and "\<And>t n u. length (filter (live_for t n u) (tender_acl_entries d)) \<le> 1"
    and "\<And>r. r \<in> set (tender_acl_entries d) \<Longrightarrow> row_ok r"
    and "distinct (map (\<lambda>p. (p_event_id p, p_consumer p)) (processed_events d))"
  shows "schema_inv d"
  using assms by (simp add: schema_inv_def)

lemma schema_inv_empty: "schema_inv empty_db"
  by (simp add: schema_inv_def empty_db_def)

lemma insert_entry_row:
  assumes "insert_entry srv guc now t n u m l g re ex d = Inr (row, d')"
  shows "r_tenant_id row = t \<and> r_tender_id row = n \<and> r_user_id row = u \<and>
    r_tenant_membership_id row = m \<and> r_access_level row = l \<and> r_granted_by row = g \<and>
    r_reason row = re \<and> r_expires_at row = map_option (pg_timestamptz srv) ex \<and>
    r_record_version row = 1 \<and> r_created_at row = now \<and> r_updated_at row = now \<and>
    r_deleted_at row = None \<and> r_id row = gen_random_uuid srv d \<and>
    d' = d\<lparr>tender_acl_entries := tender_acl_entries d @ [row]\<rparr> \<and> row_ok row \<and>
    (\<forall>r \<in> set (tender_acl_entries d). r_id r \<noteq> r_id row \<and> \<not> live_for t n u r) \<and>
    tenant_isolation srv guc = Inr (Some t)"
  using assms
  by (auto simp: insert_entry_def Let_def row_ok_def Valid_def acl_levels live_for_def
      list_ex_iff MaxInt64_def split: if_splits sum.splits option.splits)

lemma insert_entry_inv:
  assumes inv: "schema_inv d" and ins: "insert_entry srv guc now t n u m l g re ex d = Inr (row, d')"
  shows "schema_inv d'"
proof (rule schema_invI)
  note row = insert_entry_row [OF ins]
  show "distinct (map r_id (tender_acl_entries d'))"
    using inv row by (auto simp: schema_inv_def)
  show "length (filter (live_for t' n' u') (tender_acl_entries d')) \<le> 1" for t' n' u'
  proof (cases "t' = t \<and> n' = n \<and> u' = u")
    case True
    with row have "filter (live_for t' n' u') (tender_acl_entries d) = []"
      by (auto simp: filter_nil_iff)
    with row show ?thesis by simp
  next
    case False
    with row have "\<not> live_for t' n' u' row" by (auto simp: live_for_def)
    with inv row show ?thesis by (simp add: schema_inv_def)
  qed
  show "row_ok r" if "r \<in> set (tender_acl_entries d')" for r
    using that inv row by (auto simp: schema_inv_def)
  show "distinct (map (\<lambda>p. (p_event_id p, p_consumer p)) (processed_events d'))"
    using inv row by (simp add: schema_inv_def)
qed

lemma soft_delete_where_result:
  assumes "soft_delete_where srv guc now P d = Inr (k, d')"
  obtains t where "tenant_isolation srv guc = Inr t"
    and "k = length (filter (\<lambda>r. t = Some (r_tenant_id r) \<and> P r) (tender_acl_entries d))"
    and "d' = d\<lparr>tender_acl_entries :=
           map (\<lambda>r. if t = Some (r_tenant_id r) \<and> P r then soft_delete_row now r else r)
             (tender_acl_entries d)\<rparr>"
    and "\<And>r. r \<in> set (tender_acl_entries d) \<Longrightarrow> t = Some (r_tenant_id r) \<Longrightarrow> P r \<Longrightarrow>
           r_record_version (soft_delete_row now r) \<le> MaxInt64"
  using assms
  by (auto simp: soft_delete_where_def Let_def list_ex_iff not_less
      split: sum.splits if_splits)

lemma row_ok_soft_delete:
  assumes "row_ok r" "r_record_version (soft_delete_row now r) \<le> MaxInt64"
  shows "row_ok (soft_delete_row now r)"
proof -
  have "0 < r_record_version (soft_delete_row now r)"
    using assms(1) soft_delete_row_version [of r now] by (simp add: row_ok_def)
  with assms show ?thesis by (simp add: row_ok_def)
qed

lemma soft_delete_where_inv:
  assumes inv: "schema_inv d" and upd: "soft_delete_where srv guc now P d = Inr (k, d')"
  shows "schema_inv d'"
proof -
  from upd obtain t where d': "d' = d\<lparr>tender_acl_entries :=
      map (\<lambda>r. if t = Some (r_tenant_id r) \<and> P r then soft_delete_row now r else r)
        (tender_acl_entries d)\<rparr>"
    and bound: "\<And>r. r \<in> set (tender_acl_entries d) \<Longrightarrow> t = Some (r_tenant_id r) \<Longrightarrow> P r \<Longrightarrow>
      r_record_version (soft_delete_row now r) \<le> MaxInt64"
    by (rule soft_delete_where_result) blast
  show ?thesis
  proof (rule schema_invI)
    have "map r_id (tender_acl_entries d') = map r_id (tender_acl_entries d)"
      by (simp add: d')
    with inv show "distinct (map r_id (tender_acl_entries d'))"
      by (simp add: schema_inv_def)
    show "length (filter (live_for t' n' u') (tender_acl_entries d')) \<le> 1" for t' n' u'
    proof -
      have "length (filter (live_for t' n' u') (tender_acl_entries d'))
          \<le> length (filter (live_for t' n' u') (tender_acl_entries d))"
        by (auto simp: d' filter_map_if intro!: length_filter_mono)
      with inv show ?thesis by (meson le_trans schema_inv_def)
    qed
    show "row_ok r" if "r \<in> set (tender_acl_entries d')" for r
      using that inv bound by (auto simp: d' schema_inv_def row_ok_soft_delete)
    show "distinct (map (\<lambda>p. (p_event_id p, p_consumer p)) (processed_events d'))"
      using inv by (simp add: d' schema_inv_def)
  qed
qed

lemma update_revoke_inv:
  "schema_inv d \<Longrightarrow> update_revoke srv guc now t n u v d = Inr (k, d') \<Longrightarrow> schema_inv d'"
  unfolding update_revoke_def by (rule soft_delete_where_inv)

lemma update_user_inv:
  "schema_inv d \<Longrightarrow> update_user srv guc now t u d = Inr (k, d') \<Longrightarrow> schema_inv d'"
  unfolding update_user_def by (rule soft_delete_where_inv)

lemma delete_tenant_inv:
  assumes inv: "schema_inv d" and del: "delete_tenant srv guc t d = Inr (k, d')"
  shows "schema_inv d'"
proof -
  from del obtain Q where d': "d' = d\<lparr>tender_acl_entries := filter Q (tender_acl_entries d)\<rparr>"
    by (auto simp: delete_tenant_def Let_def split: sum.splits)
  show ?thesis
  proof (rule schema_invI)
    show "length (filter (live_for t' n' u') (tender_acl_entries d')) \<le> 1" for t' n' u'
    proof -
      have "length (filter (live_for t' n' u') (tender_acl_entries d'))
          \<le> length (filter (live_for t' n' u') (tender_acl_entries d))"
        by (auto simp: d' intro!: length_filter_mono)
      with inv show ?thesis by (meson le_trans schema_inv_def)
    qed
  qed (use inv in \<open>auto simp: d' schema_inv_def distinct_map_filter\<close>)
qed

lemma insert_event_inv: "schema_inv d \<Longrightarrow> schema_inv (insert_event now ev c d)"
  by (auto simp: schema_inv_def insert_event_def event_exists_def list_ex_iff)

lemma delete_expired_events_inv:
  "schema_inv d \<Longrightarrow> schema_inv (snd (delete_expired_events now c d))"
  by (simp add: schema_inv_def delete_expired_events_def Let_def distinct_map_filter)

lemmas statement_inv =
  insert_entry_inv update_revoke_inv update_user_inv delete_tenant_inv insert_event_inv
  delete_expired_events_inv

end
