(* ===== verification/World.thy ===== *)
theory World
  imports Schema Logger
begin

text \<open>
  The state of the outside world that the service's adapters read and change: the database,
  the cache server (its state type \<open>'r\<close> belongs to the server and stays abstract), the process's
  Prometheus counters, the lines written to the log sink, and three clocks, since
  \<open>time.Now()\<close>, the database's \<open>now()\<close> and the cache server's expiry are read on three machines.
  The file also has the counters of \<open>metrics/metrics.go\<close>.
\<close>

record log_line =
  ll_level :: slog_level
  ll_msg :: string
  ll_fields :: fields

record 'r world =
  db :: database
  rds :: 'r
  counters :: "string \<times> string list \<Rightarrow> nat"
  log_lines :: "log_line list"
  now_app :: instant
  now_db :: instant
  now_cache :: instant

section \<open>The log sink\<close>

definition write_log :: "slog_level \<Rightarrow> string \<Rightarrow> fields \<Rightarrow> 'r world \<Rightarrow> 'r world" where
  "write_log level msg fs w =
     w\<lparr>log_lines := log_lines w @ [\<lparr>ll_level = level, ll_msg = msg, ll_fields = fs\<rparr>]\<rparr>"

definition sink :: "'r world Logger" where
  "sink = \<lparr>lg_Debug = write_log LevelDebug, lg_Info = write_log LevelInfo,
           lg_Warn = write_log LevelWarn, lg_Error = write_log LevelError\<rparr>"

definition slog_default :: "slog_level \<Rightarrow> string \<Rightarrow> go_any list \<Rightarrow> 'r world \<Rightarrow> 'r world" where
  "slog_default level msg args = write_log level msg (kvToFields args)"

text \<open>The logger of the composition root: the sink, wrapped for slog-style calls.\<close>

definition svcLog :: "'r world SlogStyleLogger" where
  "svcLog = NewSlogStyleLogger slog_default (Some sink)"

section \<open>Counters (metrics.go)\<close>

definition inc :: "string \<Rightarrow> string list \<Rightarrow> 'r world \<Rightarrow> 'r world" where
  "inc name labels w = w\<lparr>counters := (counters w)((name, labels) := counters w (name, labels) + 1)\<rparr>"

definition cacheKeyLabel :: string where
  "cacheKeyLabel = ''tac:acl''"

definition RecordWrite :: "ctx \<Rightarrow> string \<Rightarrow> string \<Rightarrow> 'r world \<Rightarrow> 'r world" where
  "RecordWrite c op result = inc ''tender_acl_writes_total'' [op, result]"

definition RecordGrantCheck :: "ctx \<Rightarrow> string \<Rightarrow> 'r world \<Rightarrow> 'r world" where
  "RecordGrantCheck c status = inc ''tender_acl_grant_checks_total'' [status]"

definition RecordCheckCall :: "ctx \<Rightarrow> string \<Rightarrow> 'r world \<Rightarrow> 'r world" where
  "RecordCheckCall c status = inc ''tender_acl_check_calls_total'' [status]"

definition RecordCacheHit :: "ctx \<Rightarrow> 'r world \<Rightarrow> 'r world" where
  "RecordCacheHit c = inc ''tender_acl_cache_hits_total'' [cacheKeyLabel]"

definition RecordCacheMiss :: "ctx \<Rightarrow> 'r world \<Rightarrow> 'r world" where
  "RecordCacheMiss c = inc ''tender_acl_cache_misses_total'' [cacheKeyLabel]"

definition RecordCascade :: "ctx \<Rightarrow> string \<Rightarrow> 'r world \<Rightarrow> 'r world" where
  "RecordCascade c result = inc ''tender_acl_tenant_offboarding_cascade_total'' [result]"

definition RecordMemberRemovalCascade :: "ctx \<Rightarrow> string \<Rightarrow> 'r world \<Rightarrow> 'r world" where
  "RecordMemberRemovalCascade c result = inc ''tender_acl_member_removal_cascade_total'' [result]"

definition RecordUnexpectedEventType :: "ctx \<Rightarrow> string \<Rightarrow> string \<Rightarrow> 'r world \<Rightarrow> 'r world" where
  "RecordUnexpectedEventType c queue eventType =
     inc ''tender_acl_unexpected_event_type_total'' [queue, eventType]"

definition RecordProcessedEventsDuplicate :: "ctx \<Rightarrow> string \<Rightarrow> 'r world \<Rightarrow> 'r world" where
  "RecordProcessedEventsDuplicate c consumer =
     inc ''tender_acl_processed_events_duplicates_total'' [consumer]"

lemmas record_defs =
  RecordWrite_def RecordGrantCheck_def RecordCheckCall_def RecordCacheHit_def RecordCacheMiss_def
  RecordCascade_def RecordMemberRemovalCascade_def RecordUnexpectedEventType_def
  RecordProcessedEventsDuplicate_def

section \<open>Frames\<close>

lemma world_db_same [simp]: "\<exists>d. w = w\<lparr>db := d\<rparr>"
  by (rule exI [of _ "db w"]) simp

lemma inc_frame [frame_simps]:
  "db (inc n ls w) = db w" "rds (inc n ls w) = rds w"
  "now_app (inc n ls w) = now_app w" "now_db (inc n ls w) = now_db w"
  "now_cache (inc n ls w) = now_cache w" "log_lines (inc n ls w) = log_lines w"
  by (simp_all add: inc_def)

lemma write_log_frame [frame_simps]:
  "db (write_log l m f w) = db w" "rds (write_log l m f w) = rds w"
  "now_app (write_log l m f w) = now_app w" "now_db (write_log l m f w) = now_db w"
  "now_cache (write_log l m f w) = now_cache w" "counters (write_log l m f w) = counters w"
  by (simp_all add: write_log_def)

lemma record_frame [frame_simps]:
  "db (RecordWrite c x y w) = db w" "db (RecordGrantCheck c x w) = db w"
  "db (RecordCheckCall c x w) = db w" "db (RecordCacheHit c w) = db w"
  "db (RecordCacheMiss c w) = db w" "db (RecordCascade c x w) = db w"
  "db (RecordMemberRemovalCascade c x w) = db w"
  "db (RecordUnexpectedEventType c x y w) = db w"
  "db (RecordProcessedEventsDuplicate c x w) = db w"
  by (simp_all add: record_defs inc_frame)

text \<open>A log call through the composition root's logger, with any bound fields, writes one line.\<close>

lemma log4_svcLog:
  "\<exists>fs. log4 (With svcLog base) c level msg args b w =
     write_log (case level of LevelOther _ \<Rightarrow> LevelError | _ \<Rightarrow> level) msg fs w"
  by (auto simp: log4_def With_def svcLog_def NewSlogStyleLogger_def sink_def Let_def
      split: slog_level.splits)

lemma With_Nil: "With s [] = s"
  by (cases s) (simp add: With_def)

lemma log4_frame [frame_simps]:
  "db (log4 (With svcLog base) c level msg args b w) = db w"
  "rds (log4 (With svcLog base) c level msg args b w) = rds w"
  "now_app (log4 (With svcLog base) c level msg args b w) = now_app w"
  "now_db (log4 (With svcLog base) c level msg args b w) = now_db w"
  "now_cache (log4 (With svcLog base) c level msg args b w) = now_cache w"
  "counters (log4 (With svcLog base) c level msg args b w) = counters w"
  using log4_svcLog [of base c level msg args b w] by (auto simp: write_log_frame)

lemma log4_svcLog_frame [frame_simps]:
  "db (log4 svcLog c level msg args b w) = db w"
  "rds (log4 svcLog c level msg args b w) = rds w"
  "now_app (log4 svcLog c level msg args b w) = now_app w"
  "now_db (log4 svcLog c level msg args b w) = now_db w"
  "now_cache (log4 svcLog c level msg args b w) = now_cache w"
  "counters (log4 svcLog c level msg args b w) = counters w"
  using log4_frame [of "[]" c level msg args b w] by (simp_all add: With_Nil)

end
