(* ===== verification/Pg.thy ===== *)
theory Pg
  imports World Complex_Main
begin

text \<open>
  The transaction layer: \<open>postgres/db.go\<close> and \<open>withTenant\<close> of \<open>postgres/repository.go\<close>.

  The transaction runner of platform-pgcommon, its error classifiers, the driver and the
  server's failures are not code of the repository: they are the fields of \<open>pg_env\<close>, and what
  the source relies on is stated by \<open>tx_contract\<close> and \<open>classifier_contract\<close>.  A closure that runs in a transaction
  gives its error, the value it assigns to the variables it captures (\<open>tx_val\<close>) and the world it
  leaves behind; counters and log lines it writes are not undone by a rollback.
\<close>

section \<open>The environment\<close>

datatype tx_val =
    VNone
  | VEntry TenderACLEntry
  | VEntries "TenderACLEntry list"
  | VCount int
  | VBool bool

datatype stmt =
    SelectList | InsertGrant | UpdateRevoke | SelectActive | DeleteTenant | UpdateUser
  | SelectEvent | InsertEvent | DeleteEvents

type_synonym 'r tx_result = "go_error option \<times> tx_val \<times> 'r world"
type_synonym 'r tx_body = "ctx \<Rightarrow> pgx_tx \<Rightarrow> 'r world \<Rightarrow> 'r tx_result"

record RetryOptions =
  MaxAttempts :: nat
  InitialWait :: duration
  MaxWait :: duration
  Multiplier :: rat
  JitterFraction :: rat

record 'r pg_env =
  pg_srv :: pg_server
  RunInTx :: "ctx \<Rightarrow> 'r tx_body \<Rightarrow> 'r world \<Rightarrow> 'r tx_result"
  RunInTxWithRetryOpts :: "RetryOptions \<Rightarrow> ctx \<Rightarrow> 'r tx_body \<Rightarrow> 'r world \<Rightarrow> 'r tx_result"
  stmt_fault :: "stmt \<Rightarrow> pgx_tx \<Rightarrow> 'r world \<Rightarrow> go_error option"
  scan_fault :: "acl_row \<Rightarrow> go_error option"
  rows_err :: "pgx_tx \<Rightarrow> 'r world \<Rightarrow> go_error option"
  WithValidatedGUCSet :: "string \<Rightarrow> go_error option"
  IsUniqueViolation :: "go_error \<Rightarrow> bool"
  IsConnectionException :: "go_error \<Rightarrow> bool"
  IsInsufficientResources :: "go_error \<Rightarrow> bool"
  IsPgError :: "go_error \<Rightarrow> bool"
  uuid_String :: "uuid \<Rightarrow> string"
  uuid_Parse :: "string \<Rightarrow> go_error + uuid"

section \<open>Error classification (db.go)\<close>

definition isOperatorOrSystemErrorSQLState :: "'r pg_env \<Rightarrow> go_error \<Rightarrow> bool" where
  "isOperatorOrSystemErrorSQLState pg err =
     (if \<not> IsPgError pg err then False
      else (let msg = Error_text err
            in Contains msg ''SQLSTATE 57'' \<or> Contains msg ''SQLSTATE 58''))"

definition ECONNRESET :: int where
  "ECONNRESET = 104"

definition ECONNREFUSED :: int where
  "ECONNREFUSED = 111"

definition EPIPE :: int where
  "EPIPE = 32"

definition ETIMEDOUT :: int where
  "ETIMEDOUT = 110"

fun as_errno :: "go_error \<Rightarrow> int option" where
  "as_errno (ErrnoErr n txt) = Some n"
| "as_errno (Wrapped p e) = as_errno e"
| "as_errno _ = None"

fun as_op_error :: "go_error \<Rightarrow> bool" where
  "as_op_error (OpErr txt) = True"
| "as_op_error (Wrapped p e) = as_op_error e"
| "as_op_error _ = False"

definition isNetworkError :: "go_error \<Rightarrow> bool" where
  "isNetworkError err =
     (if errors_Is err SEOF \<or> errors_Is err ErrUnexpectedEOF then True
      else if as_op_error err then True
      else if (case as_errno err of
                 Some n \<Rightarrow> n = ECONNRESET \<or> n = ECONNREFUSED \<or> n = EPIPE \<or> n = ETIMEDOUT
               | None \<Rightarrow> False) then True
      else (let msg = Error_text err
            in Contains msg ''connection refused'' \<or> Contains msg ''connection reset'' \<or>
               Contains msg ''broken pipe'' \<or> Contains msg ''EOF''))"

definition wrapConnErr :: "'r pg_env \<Rightarrow> go_error option \<Rightarrow> go_error option" where
  "wrapConnErr pg err =
     (case err of
        None \<Rightarrow> None
      | Some e \<Rightarrow>
          if as_domain e \<noteq> None then Some e
          else if IsConnectionException pg e \<or> IsInsufficientResources pg e \<or>
                  isOperatorOrSystemErrorSQLState pg e \<or> errors_Is e ErrClosedPool
          then Some (NewError ErrCodeDependencyUnavailable ''database unavailable'')
          else if isNetworkError e
          then Some (NewError ErrCodeDependencyUnavailable ''database unavailable'')
          else Some e)"

section \<open>Transactions (db.go, repository.go)\<close>

definition writeRetryOpts :: RetryOptions where
  "writeRetryOpts =
     \<lparr>MaxAttempts = 3, InitialWait = 10 * Millisecond, MaxWait = 500 * Millisecond,
      Multiplier = 2, JitterFraction = 1 / 4\<rparr>"

definition wrap_result :: "'r pg_env \<Rightarrow> 'r tx_result \<Rightarrow> 'r tx_result" where
  "wrap_result pg res = (case res of (err, v, w) \<Rightarrow> (wrapConnErr pg err, v, w))"

text \<open>\<open>TxRunner.RunInTx\<close>: the caller's function sees the open transaction in its context.\<close>

definition TxRunner_RunInTx ::
  "'r pg_env \<Rightarrow> ctx \<Rightarrow> (ctx \<Rightarrow> 'r world \<Rightarrow> go_error option \<times> 'r world) \<Rightarrow> 'r world
    \<Rightarrow> go_error option \<times> 'r world" where
  "TxRunner_RunInTx pg c fn w =
     (case wrap_result pg
             (RunInTxWithRetryOpts pg writeRetryOpts c
                (\<lambda>c' tx w. case fn (WithTx c' tx) w of (err, w') \<Rightarrow> (err, VNone, w')) w) of
        (err, _, w') \<Rightarrow> (err, w'))"

definition withPool ::
  "'r pg_env \<Rightarrow> ctx \<Rightarrow> (pgx_tx \<Rightarrow> 'r world \<Rightarrow> 'r tx_result) \<Rightarrow> 'r world \<Rightarrow> 'r tx_result" where
  "withPool pg c fn w =
     (case TxFromContext c of
        Some tx \<Rightarrow> wrap_result pg (fn tx w)
      | None \<Rightarrow> wrap_result pg (RunInTx pg c (\<lambda>_ tx. fn tx) w))"

definition withTenant ::
  "'r pg_env \<Rightarrow> ctx \<Rightarrow> uuid \<Rightarrow> 'r tx_body \<Rightarrow> 'r world \<Rightarrow> 'r tx_result" where
  "withTenant pg c tenantID fn w =
     (case WithValidatedGUCSet pg (uuid_String pg tenantID) of
        Some err \<Rightarrow>
          (Some (Wrapped (''withTenant: invalid GUCSet for tenant '' @ uuid_String pg tenantID @ '': '')
                   err), VNone, w)
      | None \<Rightarrow>
          (let c = c\<lparr>ctx_guc := Some (uuid_String pg tenantID)\<rparr>
           in case TxFromContext c of
                Some tx \<Rightarrow> wrap_result pg (fn c tx w)
              | None \<Rightarrow> wrap_result pg (RunInTxWithRetryOpts pg writeRetryOpts c fn w)))"

section \<open>What the source relies on\<close>

text \<open>
  One attempt runs the closure in a fresh transaction that has the context's GUC bound; a
  rollback restores the tables and nothing else.
\<close>

definition run_attempt :: "ctx \<Rightarrow> 'r tx_body \<Rightarrow> nat \<Rightarrow> 'r world \<Rightarrow> 'r tx_result" where
  "run_attempt c body k w = body c \<lparr>tx_guc = ctx_guc c, tx_attempt = k\<rparr> w"

definition rollback :: "'r world \<Rightarrow> 'r world \<Rightarrow> 'r world" where
  "rollback w w' = w'\<lparr>db := db w\<rparr>"

inductive attempts_failed :: "ctx \<Rightarrow> 'r tx_body \<Rightarrow> 'r world \<Rightarrow> nat \<Rightarrow> 'r world \<Rightarrow> bool"
  for c :: ctx and body :: "'r tx_body" and w :: "'r world" where
  first: "attempts_failed c body w 0 w"
| again: "attempts_failed c body w k w1 \<Longrightarrow> run_attempt c body k w1 = (r, v, w2) \<Longrightarrow>
    attempts_failed c body w (Suc k) (rollback w w2)"

text \<open>
  The outcomes of a transaction with at most \<open>n\<close> attempts: after some failed attempts, the
  closure succeeds and is committed; or it fails and is rolled back; or the commit fails, and
  then the server has or has not applied it; or no transaction could be opened.
\<close>

definition tx_outcome ::
  "nat \<Rightarrow> ctx \<Rightarrow> 'r tx_body \<Rightarrow> 'r world \<Rightarrow> 'r tx_result \<Rightarrow> bool" where
  "tx_outcome n c body w res \<longleftrightarrow>
     (\<exists>k w1 v w2. k < n \<and> attempts_failed c body w k w1 \<and>
        (res = (None, v, w2) \<and> run_attempt c body k w1 = (None, v, w2) \<or>
         (\<exists>e. res = (Some e, v, rollback w w2) \<and> run_attempt c body k w1 = (Some e, v, w2)) \<or>
         (\<exists>e. (res = (Some e, v, rollback w w2) \<or> res = (Some e, v, w2)) \<and>
              run_attempt c body k w1 = (None, v, w2)) \<or>
         (\<exists>e. res = (Some e, VNone, w1))))"

definition tx_contract :: "'r pg_env \<Rightarrow> bool" where
  "tx_contract pg \<longleftrightarrow>
     (\<forall>c body w. tx_outcome 1 c body w (RunInTx pg c body w)) \<and>
     (\<forall>opts c body w. 0 < MaxAttempts opts \<longrightarrow>
        tx_outcome (MaxAttempts opts) c body w (RunInTxWithRetryOpts pg opts c body w))"

definition sql_class :: "string \<Rightarrow> go_error \<Rightarrow> bool" where
  "sql_class cl e \<longleftrightarrow> (case sqlstate e of Some st \<Rightarrow> take 2 st = cl | None \<Rightarrow> False)"

text \<open>The documented meaning of pgcommon's classifiers, on the SQLSTATE of the wrapped error.\<close>

definition classifier_contract :: "'r pg_env \<Rightarrow> bool" where
  "classifier_contract pg \<longleftrightarrow>
     (\<forall>e. IsUniqueViolation pg e \<longleftrightarrow> sqlstate e = Some ''23505'') \<and>
     (\<forall>e. IsConnectionException pg e \<longleftrightarrow> sql_class ''08'' e) \<and>
     (\<forall>e. IsInsufficientResources pg e \<longleftrightarrow> sql_class ''53'' e) \<and>
     (\<forall>e. IsPgError pg e \<longleftrightarrow> sqlstate e \<noteq> None)"

text \<open>
  The server reads back the text form of a UUID, which is not empty, a scan loses and invents no
  row, and the driver's \<open>ErrNoRows\<close> means that there is no row: no other failure is reported as it.
\<close>

definition server_contract :: "'r pg_env \<Rightarrow> bool" where
  "server_contract pg \<longleftrightarrow>
     (\<forall>u. uuid_String pg u \<noteq> [] \<and> pg_uuid_in (pg_srv pg) (uuid_String pg u) = Some u) \<and>
     (\<forall>xs. mset (scan_order (pg_srv pg) xs) = mset xs) \<and>
     (\<forall>s tx w e. stmt_fault pg s tx w = Some e \<longrightarrow> \<not> errors_Is e ErrNoRows) \<and>
     (\<forall>r e. scan_fault pg r = Some e \<longrightarrow> \<not> errors_Is e ErrNoRows)"

definition pg_ok :: "'r pg_env \<Rightarrow> bool" where
  "pg_ok pg \<longleftrightarrow> tx_contract pg \<and> classifier_contract pg \<and> server_contract pg"

text \<open>
  A fault-free environment: no statement or scan fails, a GUC set with a tenant is accepted, and
  the first attempt decides, unless the closure fails with a deadlock or a serialization failure.
\<close>

definition retryable :: "go_error \<Rightarrow> bool" where
  "retryable e \<longleftrightarrow> sqlstate e = Some ''40001'' \<or> sqlstate e = Some ''40P01''"

definition first_attempt_decides ::
  "(ctx \<Rightarrow> 'r tx_body \<Rightarrow> 'r world \<Rightarrow> 'r tx_result) \<Rightarrow> bool" where
  "first_attempt_decides run \<longleftrightarrow>
     (\<forall>c body w v w'. run_attempt c body 0 w = (None, v, w') \<longrightarrow> run c body w = (None, v, w')) \<and>
     (\<forall>c body w e v w'. run_attempt c body 0 w = (Some e, v, w') \<longrightarrow> \<not> retryable e \<longrightarrow>
        run c body w = (Some e, v, rollback w w'))"

definition pg_healthy :: "'r pg_env \<Rightarrow> bool" where
  "pg_healthy pg \<longleftrightarrow> pg_ok pg \<and>
     (\<forall>s tx w. stmt_fault pg s tx w = None) \<and> (\<forall>r. scan_fault pg r = None) \<and>
     (\<forall>tx w. rows_err pg tx w = None) \<and> (\<forall>s. s \<noteq> [] \<longrightarrow> WithValidatedGUCSet pg s = None) \<and>
     first_attempt_decides (RunInTx pg) \<and>
     (\<forall>opts. 0 < MaxAttempts opts \<longrightarrow> first_attempt_decides (RunInTxWithRetryOpts pg opts))"

section \<open>Facts about outcomes\<close>

lemma rollback_db [simp]: "db (rollback w w') = db w"
  by (simp add: rollback_def)

lemma rollback_sel [simp]:
  "rds (rollback w w') = rds w'" "counters (rollback w w') = counters w'"
  "log_lines (rollback w w') = log_lines w'" "now_app (rollback w w') = now_app w'"
  "now_db (rollback w w') = now_db w'" "now_cache (rollback w w') = now_cache w'"
  by (simp_all add: rollback_def)

lemma attempts_failed_db: "attempts_failed c body w k w1 \<Longrightarrow> db w1 = db w"
  by (induction rule: attempts_failed.induct) auto

text \<open>A closure that changes nothing but the tables.\<close>

definition db_only :: "'r tx_body \<Rightarrow> bool" where
  "db_only body \<longleftrightarrow> (\<forall>c tx w r v w'. body c tx w = (r, v, w') \<longrightarrow> (\<exists>d. w' = w\<lparr>db := d\<rparr>))"

lemma db_only_attempts_failed:
  assumes "attempts_failed c body w k w1" "db_only body"
  shows "w1 = w"
  using assms(1)
proof (induction rule: attempts_failed.induct)
  case (again k w1 r v w2)
  then obtain d where "w2 = w\<lparr>db := d\<rparr>"
    using assms(2) unfolding db_only_def run_attempt_def by blast
  then show ?case by (simp add: rollback_def)
qed simp

text \<open>The three ways a transaction with such a closure can end.\<close>

lemma tx_outcome_db_only:
  assumes out: "tx_outcome n c body w (r, v, w')" and only: "db_only body"
  obtains (committed) k where "r = None" "run_attempt c body k w = (None, v, w')"
  | (undone) e where "r = Some e" "w' = w"
  | (unknown) e k where "r = Some e" "run_attempt c body k w = (None, v, w')"
proof -
  from out obtain k w1 v' w2 where k: "attempts_failed c body w k w1"
    and alt: "(r, v, w') = (None, v', w2) \<and> run_attempt c body k w1 = (None, v', w2) \<or>
      (\<exists>e. (r, v, w') = (Some e, v', rollback w w2) \<and> run_attempt c body k w1 = (Some e, v', w2)) \<or>
      (\<exists>e. ((r, v, w') = (Some e, v', rollback w w2) \<or> (r, v, w') = (Some e, v', w2)) \<and>
           run_attempt c body k w1 = (None, v', w2)) \<or>
      (\<exists>e. (r, v, w') = (Some e, VNone, w1))"
    unfolding tx_outcome_def by blast
  have w1: "w1 = w" using db_only_attempts_failed [OF k only] .
  have undo: "rollback w w2 = w" if "run_attempt c body k w = (r', v', w2)" for r'
  proof -
    from that only obtain d where "w2 = w\<lparr>db := d\<rparr>"
      unfolding db_only_def run_attempt_def by blast
    then show ?thesis by (simp add: rollback_def)
  qed
  from alt show thesis
  proof (elim disjE conjE exE)
    assume "(r, v, w') = (None, v', w2)" "run_attempt c body k w1 = (None, v', w2)"
    with w1 show thesis by (intro committed [of k]) auto
  next
    fix e assume "(r, v, w') = (Some e, v', rollback w w2)"
      "run_attempt c body k w1 = (Some e, v', w2)"
    with w1 undo show thesis by (intro undone [of e]) auto
  next
    fix e assume "(r, v, w') = (Some e, v', rollback w w2)"
      "run_attempt c body k w1 = (None, v', w2)"
    with w1 undo show thesis by (intro undone [of e]) auto
  next
    fix e assume "(r, v, w') = (Some e, v', w2)" "run_attempt c body k w1 = (None, v', w2)"
    with w1 show thesis by (intro unknown [of e k]) auto
  next
    fix e assume "(r, v, w') = (Some e, VNone, w1)"
    with w1 show thesis by (intro undone [of e]) auto
  qed
qed

text \<open>For any closure, the tables are as they were or as one complete run of it leaves them.\<close>

lemma tx_outcome_atomic:
  assumes "tx_outcome n c body w (r, v, w')"
  shows "(r \<noteq> None \<and> db w' = db w) \<or>
    (\<exists>k w1 v'. attempts_failed c body w k w1 \<and> run_attempt c body k w1 = (None, v', w') \<and>
       (r = None \<longrightarrow> v' = v))"
proof -
  from assms obtain k w1 v' w2 where k: "attempts_failed c body w k w1"
    and alt: "(r, v, w') = (None, v', w2) \<and> run_attempt c body k w1 = (None, v', w2) \<or>
      (\<exists>e. (r, v, w') = (Some e, v', rollback w w2) \<and> run_attempt c body k w1 = (Some e, v', w2)) \<or>
      (\<exists>e. ((r, v, w') = (Some e, v', rollback w w2) \<or> (r, v, w') = (Some e, v', w2)) \<and>
           run_attempt c body k w1 = (None, v', w2)) \<or>
      (\<exists>e. (r, v, w') = (Some e, VNone, w1))"
    unfolding tx_outcome_def by blast
  from alt k show ?thesis
    by (elim disjE conjE exE) (auto dest: attempts_failed_db)
qed

text \<open>
  Any relation between the tables before and after that every run of a closure respects, and
  that a transaction which changes nothing respects, holds across the whole transaction.
\<close>

definition db_rel :: "(database \<Rightarrow> database \<Rightarrow> bool) \<Rightarrow> 'r tx_body \<Rightarrow> bool" where
  "db_rel R body \<longleftrightarrow>
     reflp R \<and> (\<forall>c tx w r v w'. body c tx w = (r, v, w') \<longrightarrow> R (db w) (db w'))"

lemma db_rel_run: "db_rel R body \<Longrightarrow> body c tx w = (r, v, w') \<Longrightarrow> R (db w) (db w')"
  unfolding db_rel_def by blast

lemma db_rel_refl: "db_rel R body \<Longrightarrow> R d d"
  unfolding db_rel_def by (simp add: reflpD)

lemma tx_outcome_rel:
  assumes out: "tx_outcome n c body w (r, v, w')" and rel: "db_rel R body"
  shows "R (db w) (db w')"
  using tx_outcome_atomic [OF out]
proof (elim disjE conjE exE)
  assume "db w' = db w"
  then show ?thesis using db_rel_refl [OF rel] by simp
next
  fix k w1 v'
  assume "attempts_failed c body w k w1" "run_attempt c body k w1 = (None, v', w')"
  then show ?thesis
    using db_rel_run [OF rel, of c _ w1 None v' w'] attempts_failed_db
    by (fastforce simp: run_attempt_def)
qed

lemma writeRetryOpts_attempts: "MaxAttempts writeRetryOpts = 3"
  by (simp add: writeRetryOpts_def)

lemma tx_contract_retry:
  "tx_contract pg \<Longrightarrow> tx_outcome 3 c body w (RunInTxWithRetryOpts pg writeRetryOpts c body w)"
  using writeRetryOpts_attempts unfolding tx_contract_def by (metis zero_less_numeral)

lemma tx_contract_once: "tx_contract pg \<Longrightarrow> tx_outcome 1 c body w (RunInTx pg c body w)"
  by (simp add: tx_contract_def)

lemma first_attempt_decidesD:
  assumes "first_attempt_decides run"
  shows "run_attempt c body 0 w = (None, v, w') \<Longrightarrow> run c body w = (None, v, w')"
    and "run_attempt c body 0 w = (Some e, v, w') \<Longrightarrow> \<not> retryable e \<Longrightarrow>
      run c body w = (Some e, v, rollback w w')"
  using assms by (auto simp: first_attempt_decides_def)

section \<open>Facts about the classification\<close>

lemma wrapConnErr_None [simp]: "wrapConnErr pg None = None"
  by (simp add: wrapConnErr_def)

lemma wrapConnErr_eq_None [simp]: "wrapConnErr pg e = None \<longleftrightarrow> e = None"
  by (auto simp: wrapConnErr_def split: option.splits)

lemma wrapConnErr_domain [simp]:
  "as_domain e \<noteq> None \<Longrightarrow> wrapConnErr pg (Some e) = Some e"
  by (simp add: wrapConnErr_def)

lemma wrapConnErr_cases:
  "wrapConnErr pg (Some e) = Some e \<or>
   wrapConnErr pg (Some e) = Some (NewError ErrCodeDependencyUnavailable ''database unavailable'')"
  by (simp add: wrapConnErr_def)

lemma wrap_result_eq:
  "wrap_result pg res = (r, v, w) \<longleftrightarrow> (\<exists>r0. res = (r0, v, w) \<and> r = wrapConnErr pg r0)"
  by (cases res) (auto simp: wrap_result_def)

section \<open>What a transaction helper keeps\<close>

lemma withTenant_rel:
  assumes "tx_contract pg" "db_rel R fn" "withTenant pg c t fn w = (r, v, w')"
  shows "R (db w) (db w')"
proof (cases "WithValidatedGUCSet pg (uuid_String pg t)")
  case (Some err)
  with assms(3) have "w' = w" by (simp add: withTenant_def)
  then show ?thesis using db_rel_refl [OF assms(2)] by simp
next
  case None
  let ?c = "c\<lparr>ctx_guc := Some (uuid_String pg t)\<rparr>"
  show ?thesis
  proof (cases "ctx_tx c")
    case (Some tx)
    with None assms(3) obtain r0 where "fn ?c tx w = (r0, v, w')"
      by (auto simp: withTenant_def Let_def TxFromContext_def wrap_result_eq)
    then show ?thesis by (rule db_rel_run [OF assms(2)])
  next
    case notx: None
    with None assms(3) obtain r0 where
      "RunInTxWithRetryOpts pg writeRetryOpts ?c fn w = (r0, v, w')"
      by (auto simp: withTenant_def Let_def TxFromContext_def wrap_result_eq)
    with tx_contract_retry [OF assms(1), of ?c fn w] show ?thesis
      by (auto intro: tx_outcome_rel [OF _ assms(2)])
  qed
qed

lemma withPool_rel:
  assumes "tx_contract pg" "db_rel R (\<lambda>_. fn)" "withPool pg c fn w = (r, v, w')"
  shows "R (db w) (db w')"
proof (cases "ctx_tx c")
  case (Some tx)
  with assms(3) obtain r0 where "fn tx w = (r0, v, w')"
    by (auto simp: withPool_def TxFromContext_def wrap_result_eq)
  then show ?thesis using db_rel_run [OF assms(2), of tx w r0 v w'] by blast
next
  case None
  with assms(3) obtain r0 where "RunInTx pg c (\<lambda>_. fn) w = (r0, v, w')"
    by (auto simp: withPool_def TxFromContext_def wrap_result_eq)
  with tx_contract_once [OF assms(1), of c "\<lambda>_. fn" w] show ?thesis
    by (auto intro: tx_outcome_rel [OF _ assms(2)])
qed

lemma TxRunner_rel:
  assumes "tx_contract pg" "reflp R"
    and "\<And>c w r w'. fn c w = (r, w') \<Longrightarrow> R (db w) (db w')"
    and run: "TxRunner_RunInTx pg c fn w = (r, w')"
  shows "R (db w) (db w')"
proof -
  let ?body = "\<lambda>c' tx w. case fn (WithTx c' tx) w of (err, w') \<Rightarrow> (err, VNone, w')"
  from run obtain r0 v where "RunInTxWithRetryOpts pg writeRetryOpts c ?body w = (r0, v, w')"
    by (auto simp: TxRunner_RunInTx_def wrap_result_def split: prod.splits)
  moreover have "db_rel R ?body"
    using assms(2,3) by (auto simp: db_rel_def split: prod.splits)
  ultimately show ?thesis
    using tx_contract_retry [OF assms(1), of c ?body w] by (auto intro: tx_outcome_rel)
qed

text \<open>The cache server is outside every transaction: a closure that leaves it alone does so when retried.\<close>

lemma attempts_failed_rds:
  assumes "attempts_failed c body w k w1"
    and "\<And>c tx w r v w'. body c tx w = (r, v, w') \<Longrightarrow> rds w' = rds w"
  shows "rds w1 = rds w"
  using assms(1) by (induction rule: attempts_failed.induct) (auto simp: run_attempt_def dest: assms(2))

lemma tx_outcome_rds:
  assumes "tx_outcome n c body w (r, v, w')"
    and body: "\<And>c tx w r v w'. body c tx w = (r, v, w') \<Longrightarrow> rds w' = rds w"
  shows "rds w' = rds w"
proof -
  from assms(1) obtain k w1 v' w2 where k: "attempts_failed c body w k w1"
    and alt: "(\<exists>r'. run_attempt c body k w1 = (r', v', w2)) \<and> (w' = w2 \<or> w' = rollback w w2) \<or> w' = w1"
    unfolding tx_outcome_def by blast
  have "rds w1 = rds w" using attempts_failed_rds [OF k body] .
  with alt show ?thesis by (auto simp: run_attempt_def dest: body)
qed

lemma TxRunner_rds:
  assumes "tx_contract pg" "TxRunner_RunInTx pg c fn w = (r, w')"
    and "\<And>c w r w'. fn c w = (r, w') \<Longrightarrow> rds w' = rds w"
  shows "rds w' = rds w"
proof -
  let ?body = "\<lambda>c' tx w. case fn (WithTx c' tx) w of (err, w') \<Rightarrow> (err, VNone, w')"
  from assms(2) obtain r0 v where "RunInTxWithRetryOpts pg writeRetryOpts c ?body w = (r0, v, w')"
    by (auto simp: TxRunner_RunInTx_def wrap_result_def split: prod.splits)
  with tx_contract_retry [OF assms(1), of c ?body w] have "tx_outcome 3 c ?body w (r0, v, w')" by simp
  then show ?thesis by (rule tx_outcome_rds) (auto split: prod.splits dest: assms(3))
qed

end
