(* ===== verification/Repository.thy ===== *)
theory Repository
  imports Pg Ports
begin

text \<open>
  The Postgres repository, \<open>postgres/repository.go\<close>: every method as its closure run by
  \<open>withTenant\<close>, and the proof that it implements the abstract store of grants of \<open>Ports\<close>.
\<close>

section \<open>Scanning\<close>

text \<open>The columns of \<open>selectColumnsSQL\<close>, with \<open>COALESCE(reason, '')\<close>.\<close>

definition row_entry :: "acl_row \<Rightarrow> TenderACLEntry" where
  "row_entry r =
     \<lparr>e_ID = r_id r, e_TenantID = r_tenant_id r, e_TenderID = r_tender_id r,
      e_UserID = r_user_id r, e_TenantMembershipID = r_tenant_membership_id r,
      e_AccessLevel = r_access_level r, e_GrantedBy = r_granted_by r,
      e_Reason = (case r_reason r of None \<Rightarrow> [] | Some s \<Rightarrow> s), e_ExpiresAt = r_expires_at r,
      e_RecordVersion = r_record_version r, e_CreatedAt = r_created_at r,
      e_UpdatedAt = r_updated_at r, e_DeletedAt = r_deleted_at r\<rparr>"

definition scanEntry :: "'r pg_env \<Rightarrow> acl_row \<Rightarrow> go_error + TenderACLEntry" where
  "scanEntry pg row = (case scan_fault pg row of Some err \<Rightarrow> Inl err | None \<Rightarrow> Inr (row_entry row))"

fun collect_loop ::
  "'r pg_env \<Rightarrow> acl_row list \<Rightarrow> TenderACLEntry list \<Rightarrow> go_error + TenderACLEntry list" where
  "collect_loop pg [] result = Inr result"
| "collect_loop pg (row # rows) result =
     (case scanEntry pg row of
        Inl err \<Rightarrow> Inl (Wrapped ''scan tender_acl_entries row: '' err)
      | Inr e \<Rightarrow> collect_loop pg rows (result @ [e]))"

definition collectEntries ::
  "'r pg_env \<Rightarrow> pgx_tx \<Rightarrow> 'r world \<Rightarrow> acl_row list \<Rightarrow> go_error + TenderACLEntry list" where
  "collectEntries pg tx w rows =
     (case collect_loop pg rows [] of
        Inl err \<Rightarrow> Inl err
      | Inr result \<Rightarrow> (case rows_err pg tx w of Some err \<Rightarrow> Inl err | None \<Rightarrow> Inr result))"

text \<open>Sending a statement: the driver or the server may fail it; else it has its meaning.\<close>

definition send ::
  "'r pg_env \<Rightarrow> stmt \<Rightarrow> pgx_tx \<Rightarrow> 'r world \<Rightarrow> go_error + 'a \<Rightarrow> go_error + 'a" where
  "send pg s tx w res = (case stmt_fault pg s tx w of Some err \<Rightarrow> Inl err | None \<Rightarrow> res)"

section \<open>The closures\<close>

definition list_body :: "'r pg_env \<Rightarrow> uuid \<Rightarrow> uuid \<Rightarrow> int \<Rightarrow> int \<Rightarrow> 'r tx_body" where
  "list_body pg tenantID tenderID limit offset c tx w =
     (case send pg SelectList tx w
             (select_list (pg_srv pg) (tx_guc tx) tenantID tenderID limit offset (db w)) of
        Inl err \<Rightarrow> (Some (Wrapped ''query tender_acl_entries: '' err), VNone, w)
      | Inr rows \<Rightarrow>
          (case collectEntries pg tx w rows of
             Inl err \<Rightarrow> (Some err, VNone, w)
           | Inr result \<Rightarrow> (None, VEntries result, w)))"

definition grant_body :: "'r pg_env \<Rightarrow> TenderACLEntry \<Rightarrow> 'r tx_body" where
  "grant_body pg entry c tx w =
     (let reason = (if e_Reason entry \<noteq> [] then Some (e_Reason entry) else None)
      in case (case send pg InsertGrant tx w
                      (insert_entry (pg_srv pg) (tx_guc tx) (now_db w) (e_TenantID entry)
                         (e_TenderID entry) (e_UserID entry) (e_TenantMembershipID entry)
                         (e_AccessLevel entry) (e_GrantedBy entry) reason (e_ExpiresAt entry)
                         (db w)) of
                 Inl err \<Rightarrow> Inl err
               | Inr (row, d) \<Rightarrow>
                   (case scanEntry pg row of Inl err \<Rightarrow> Inl err | Inr e \<Rightarrow> Inr (e, d))) of
           Inl err \<Rightarrow>
             if IsUniqueViolation pg err
             then (Some (NewError ErrCodeDuplicateGrant
                           ''an active grant already exists for this tenant/tender/user''),
                   VNone, w)
             else (Some (Wrapped ''insert tender_acl_entries: '' err), VNone, w)
         | Inr (e, d) \<Rightarrow> (None, VEntry e, w\<lparr>db := d\<rparr>))"

definition revoke_body :: "'r pg_env \<Rightarrow> uuid \<Rightarrow> uuid \<Rightarrow> uuid \<Rightarrow> int \<Rightarrow> 'r tx_body" where
  "revoke_body pg tenantID tenderID userID expectedVersion c tx w =
     (case send pg UpdateRevoke tx w
             (update_revoke (pg_srv pg) (tx_guc tx) (now_db w) tenantID tenderID userID
                expectedVersion (db w)) of
        Inl err \<Rightarrow> (Some (Wrapped ''revoke tender_acl_entries: '' err), VNone, w)
      | Inr (n, d) \<Rightarrow>
          if n = 0
          then (Some (NewError ErrCodeOptimisticLockConflict ''record version conflict''),
                VNone, w\<lparr>db := d\<rparr>)
          else (None, VNone, w\<lparr>db := d\<rparr>))"

definition find_body :: "'r pg_env \<Rightarrow> uuid \<Rightarrow> uuid \<Rightarrow> uuid \<Rightarrow> 'r tx_body" where
  "find_body pg tenantID tenderID userID c tx w =
     (case (case send pg SelectActive tx w
                   (select_active (pg_srv pg) (tx_guc tx) (now_db w) tenantID tenderID userID
                      (db w)) of
              Inl err \<Rightarrow> Inl err
            | Inr [] \<Rightarrow> Inl (Sentinel ErrNoRows ''no rows in result set'')
            | Inr (row # _) \<Rightarrow> scanEntry pg row) of
        Inl err \<Rightarrow>
          if errors_Is err ErrNoRows then (None, VNone, w)
          else (Some (Wrapped ''query active tender_acl_entries: '' err), VNone, w)
      | Inr e \<Rightarrow> (None, VEntry e, w))"

definition cascade_body :: "'r pg_env \<Rightarrow> uuid \<Rightarrow> 'r tx_body" where
  "cascade_body pg tenantID c tx w =
     (case send pg DeleteTenant tx w
             (delete_tenant (pg_srv pg) (tx_guc tx) tenantID (db w)) of
        Inl err \<Rightarrow> (Some (Wrapped ''cascade delete tender_acl_entries: '' err), VNone, w)
      | Inr (n, d) \<Rightarrow> (None, VCount (int n), w\<lparr>db := d\<rparr>))"

definition soft_delete_body :: "'r pg_env \<Rightarrow> uuid \<Rightarrow> uuid \<Rightarrow> 'r tx_body" where
  "soft_delete_body pg tenantID userID c tx w =
     (case send pg UpdateUser tx w
             (update_user (pg_srv pg) (tx_guc tx) (now_db w) tenantID userID (db w)) of
        Inl err \<Rightarrow> (Some (Wrapped ''soft delete tender_acl_entries for user: '' err), VNone, w)
      | Inr (n, d) \<Rightarrow> (None, VCount (int n), w\<lparr>db := d\<rparr>))"

section \<open>The methods\<close>

definition Repo_List ::
  "'r pg_env \<Rightarrow> ctx \<Rightarrow> uuid \<Rightarrow> uuid \<Rightarrow> int \<Rightarrow> int \<Rightarrow> 'r world
    \<Rightarrow> (go_error + TenderACLEntry list) \<times> 'r world" where
  "Repo_List pg c tenantID tenderID limit offset w =
     (case withTenant pg c tenantID (list_body pg tenantID tenderID limit offset) w of
        (Some err, _, w') \<Rightarrow> (Inl err, w')
      | (None, v, w') \<Rightarrow> (Inr (case v of VEntries result \<Rightarrow> result | _ \<Rightarrow> []), w'))"

definition Repo_Grant ::
  "'r pg_env \<Rightarrow> ctx \<Rightarrow> TenderACLEntry \<Rightarrow> 'r world \<Rightarrow> (go_error + TenderACLEntry) \<times> 'r world" where
  "Repo_Grant pg c entry w =
     (case withTenant pg c (e_TenantID entry) (grant_body pg entry) w of
        (Some err, _, w') \<Rightarrow> (Inl err, w')
      | (None, v, w') \<Rightarrow> (Inr (case v of VEntry created \<Rightarrow> created | _ \<Rightarrow> zero_entry), w'))"

definition Repo_Revoke ::
  "'r pg_env \<Rightarrow> ctx \<Rightarrow> uuid \<Rightarrow> uuid \<Rightarrow> uuid \<Rightarrow> int \<Rightarrow> 'r world \<Rightarrow> go_error option \<times> 'r world" where
  "Repo_Revoke pg c tenantID tenderID userID expectedVersion w =
     (case withTenant pg c tenantID
             (revoke_body pg tenantID tenderID userID expectedVersion) w of
        (err, _, w') \<Rightarrow> (err, w'))"

definition Repo_FindActive ::
  "'r pg_env \<Rightarrow> ctx \<Rightarrow> uuid \<Rightarrow> uuid \<Rightarrow> uuid \<Rightarrow> 'r world
    \<Rightarrow> (go_error + TenderACLEntry option) \<times> 'r world" where
  "Repo_FindActive pg c tenantID tenderID userID w =
     (case withTenant pg c tenantID (find_body pg tenantID tenderID userID) w of
        (Some err, _, w') \<Rightarrow> (Inl err, w')
      | (None, v, w') \<Rightarrow> (Inr (case v of VEntry e \<Rightarrow> Some e | _ \<Rightarrow> None), w'))"

definition Repo_CascadeDeleteForTenant ::
  "'r pg_env \<Rightarrow> ctx \<Rightarrow> uuid \<Rightarrow> 'r world \<Rightarrow> (go_error + int) \<times> 'r world" where
  "Repo_CascadeDeleteForTenant pg c tenantID w =
     (case withTenant pg c tenantID (cascade_body pg tenantID) w of
        (Some err, _, w') \<Rightarrow> (Inl err, w')
      | (None, v, w') \<Rightarrow> (Inr (case v of VCount n \<Rightarrow> n | _ \<Rightarrow> 0), w'))"

definition Repo_SoftDeleteForUser ::
  "'r pg_env \<Rightarrow> ctx \<Rightarrow> uuid \<Rightarrow> uuid \<Rightarrow> 'r world \<Rightarrow> (go_error + int) \<times> 'r world" where
  "Repo_SoftDeleteForUser pg c tenantID userID w =
     (case withTenant pg c tenantID (soft_delete_body pg tenantID userID) w of
        (Some err, _, w') \<Rightarrow> (Inl err, w')
      | (None, v, w') \<Rightarrow> (Inr (case v of VCount n \<Rightarrow> n | _ \<Rightarrow> 0), w'))"

definition NewTenderACLRepository :: "'r pg_env \<Rightarrow> 'r world TenderACLRepository" where
  "NewTenderACLRepository pg =
     \<lparr>repo_List = Repo_List pg, repo_Grant = Repo_Grant pg, repo_Revoke = Repo_Revoke pg,
      repo_FindActive = Repo_FindActive pg,
      repo_CascadeDeleteForTenant = Repo_CascadeDeleteForTenant pg,
      repo_SoftDeleteForUser = Repo_SoftDeleteForUser pg\<rparr>"

section \<open>Rows and entries\<close>

text \<open>The abstraction: all rows of the table, read as entries.\<close>

definition entries_of :: "'r world \<Rightarrow> TenderACLEntry list" where
  "entries_of w = map row_entry (tender_acl_entries (db w))"

lemma row_entry_sel [simp]:
  "e_ID (row_entry r) = r_id r" "e_TenantID (row_entry r) = r_tenant_id r"
  "e_TenderID (row_entry r) = r_tender_id r" "e_UserID (row_entry r) = r_user_id r"
  "e_TenantMembershipID (row_entry r) = r_tenant_membership_id r"
  "e_AccessLevel (row_entry r) = r_access_level r" "e_GrantedBy (row_entry r) = r_granted_by r"
  "e_ExpiresAt (row_entry r) = r_expires_at r"
  "e_RecordVersion (row_entry r) = r_record_version r"
  "e_CreatedAt (row_entry r) = r_created_at r" "e_UpdatedAt (row_entry r) = r_updated_at r"
  "e_DeletedAt (row_entry r) = r_deleted_at r"
  by (simp_all add: row_entry_def)

lemma live_row_entry [simp]: "live t n u (row_entry r) = live_for t n u r"
  by (simp add: live_def live_for_def)

lemma row_entry_soft_delete:
  "r_deleted_at r = None \<Longrightarrow> row_entry (soft_delete_row now r) = delete_entry now (row_entry r)"
  by (simp add: soft_delete_row_live row_entry_def delete_entry_def)

lemma entries_of_db: "db w' = db w \<Longrightarrow> entries_of w' = entries_of w"
  by (simp add: entries_of_def)

lemma schema_inv_unique_live: "schema_inv (db w) \<Longrightarrow> unique_live (entries_of w)"
  by (simp add: schema_inv_def unique_live_def entries_of_def filter_map comp_def)

lemma isolation_bound:
  "pg_ok pg \<Longrightarrow> tenant_isolation (pg_srv pg) (Some (uuid_String pg t)) = Inr (Some t)"
  by (simp add: tenant_isolation_def pg_ok_def server_contract_def)

section \<open>Running a closure with withTenant\<close>

text \<open>A closure that changes only the tables, and nothing at all when it fails.\<close>

definition clean :: "'r tx_body \<Rightarrow> bool" where
  "clean fn \<longleftrightarrow> db_only fn \<and> (\<forall>c tx w e v w'. fn c tx w = (Some e, v, w') \<longrightarrow> w' = w)"

text \<open>
  Where a repository call happens: outside any transaction, or inside one whose GUC was bound
  to the same tenant.
\<close>

definition bound :: "'r pg_env \<Rightarrow> ctx \<Rightarrow> uuid \<Rightarrow> bool" where
  "bound pg c t \<longleftrightarrow>
     (case ctx_tx c of None \<Rightarrow> True | Some tx \<Rightarrow> tx_guc tx = Some (uuid_String pg t))"

lemma bound_no_tx [simp]: "ctx_tx c = None \<Longrightarrow> bound pg c t"
  by (simp add: bound_def)

text \<open>Inside a transaction of the caller an error of the closure is all that can go wrong.\<close>

lemma withTenant_joined:
  assumes "clean fn" "ctx_tx c = Some tx" and run: "withTenant pg c t fn w = (r, v, w')"
  obtains (committed) c' where "r = None" "fn c' tx w = (None, v, w')"
  | (undone) e where "r = Some e" "w' = w"
proof (cases "WithValidatedGUCSet pg (uuid_String pg t)")
  case None
  with assms obtain c' r0 where r0: "fn c' tx w = (r0, v, w')" "r = wrapConnErr pg r0"
    by (auto simp: withTenant_def Let_def TxFromContext_def wrap_result_eq)
  show thesis
  proof (cases r0)
    case (Some e)
    with r0 assms(1) have "w' = w" by (auto simp: clean_def)
    moreover from Some r0 obtain e' where "r = Some e'" by (metis not_None_eq wrapConnErr_eq_None)
    ultimately show thesis by (intro undone)
  qed (use r0 committed in auto)
qed (use run undone in \<open>auto simp: withTenant_def\<close>)

text \<open>A transaction of its own may also report an error after it has committed.\<close>

lemma withTenant_own:
  assumes "pg_ok pg" "clean fn" "ctx_tx c = None" and run: "withTenant pg c t fn w = (r, v, w')"
  obtains (undone) e where "r = Some e" "w' = w"
  | (ran) c' tx where "tx_guc tx = Some (uuid_String pg t)" "fn c' tx w = (None, v, w')"
proof (cases "WithValidatedGUCSet pg (uuid_String pg t)")
  case None
  let ?c = "c\<lparr>ctx_guc := Some (uuid_String pg t)\<rparr>"
  from None run assms(3) obtain r0 where
    r0: "RunInTxWithRetryOpts pg writeRetryOpts ?c fn w = (r0, v, w')" "r = wrapConnErr pg r0"
    by (auto simp: withTenant_def Let_def TxFromContext_def wrap_result_eq)
  have att: thesis if "run_attempt ?c fn k w = (None, v, w')" for k
    using that by (intro ran) (auto simp: run_attempt_def)
  from assms(1) tx_contract_retry [of pg ?c fn w] r0 have "tx_outcome 3 ?c fn w (r0, v, w')"
    by (simp add: pg_ok_def)
  then show thesis
  proof (rule tx_outcome_db_only)
    show "db_only fn" using assms(2) by (simp add: clean_def)
    show thesis if "r0 = Some e" "w' = w" for e
      using r0 that by (metis not_None_eq undone wrapConnErr_eq_None)
  qed (erule att)+
qed (use run undone in \<open>auto simp: withTenant_def\<close>)

lemma withTenant_cases:
  assumes ok: "pg_ok pg" and clean: "clean fn" and bound: "bound pg c t"
    and run: "withTenant pg c t fn w = (r, v, w')"
  obtains (committed) c' tx where "r = None" "tx_guc tx = Some (uuid_String pg t)"
      "fn c' tx w = (None, v, w')"
  | (undone) e where "r = Some e" "w' = w"
  | (unknown) e c' tx where "r = Some e" "ctx_tx c = None" "tx_guc tx = Some (uuid_String pg t)"
      "fn c' tx w = (None, v, w')"
proof (cases "ctx_tx c")
  case (Some tx)
  from clean Some run show thesis
  proof (cases rule: withTenant_joined)
    case (committed c')
    moreover from bound Some have "tx_guc tx = Some (uuid_String pg t)" by (simp add: bound_def)
    ultimately show thesis by (intro that(1))
  qed (rule undone)
next
  case None
  from ok clean None run show thesis
  proof (cases rule: withTenant_own)
    case (ran c' tx)
    with None show thesis by (cases r) (auto intro: that)
  qed (rule undone)
qed

text \<open>In a fault-free environment the first run of the closure decides.\<close>

lemma withTenant_healthy:
  fixes t :: uuid
  assumes "pg_healthy pg" "ctx_tx c = None" "clean fn"
  defines "c' \<equiv> c\<lparr>ctx_guc := Some (uuid_String pg t)\<rparr>"
  defines "tx \<equiv> \<lparr>tx_guc = Some (uuid_String pg t), tx_attempt = 0\<rparr>"
  shows "fn c' tx w = (None, v, w') \<Longrightarrow> withTenant pg c t fn w = (None, v, w')"
    and "fn c' tx w = (Some e, v, w') \<Longrightarrow> \<not> retryable e \<Longrightarrow>
      withTenant pg c t fn w = (wrapConnErr pg (Some e), v, w)"
proof -
  have val: "WithValidatedGUCSet pg (uuid_String pg t) = None"
    using assms(1) by (simp add: pg_healthy_def pg_ok_def server_contract_def)
  have dec: "first_attempt_decides (RunInTxWithRetryOpts pg writeRetryOpts)"
    using assms(1) by (simp add: pg_healthy_def writeRetryOpts_def)
  have with_run: "withTenant pg c t fn w =
      wrap_result pg (RunInTxWithRetryOpts pg writeRetryOpts c' fn w)"
    using val assms(2) by (simp add: withTenant_def TxFromContext_def c'_def)
  have att: "run_attempt c' fn 0 w = fn c' tx w"
    by (simp add: run_attempt_def c'_def tx_def)
  show "withTenant pg c t fn w = (None, v, w')" if "fn c' tx w = (None, v, w')"
  proof -
    from that att have "RunInTxWithRetryOpts pg writeRetryOpts c' fn w = (None, v, w')"
      by (intro first_attempt_decidesD(1) [OF dec]) simp
    with with_run show ?thesis by (simp add: wrap_result_def)
  qed
  show "withTenant pg c t fn w = (wrapConnErr pg (Some e), v, w)"
    if "fn c' tx w = (Some e, v, w')" "\<not> retryable e"
  proof -
    from that(1) assms(3) have d: "\<exists>d. w' = w\<lparr>db := d\<rparr>" by (auto simp: clean_def db_only_def)
    from that att have
      "RunInTxWithRetryOpts pg writeRetryOpts c' fn w = (Some e, v, rollback w w')"
      by (intro first_attempt_decidesD(2) [OF dec]) simp_all
    with with_run d show ?thesis by (auto simp: wrap_result_def rollback_def)
  qed
qed

section \<open>What each closure does\<close>

text \<open>Two worlds that differ in the rows of \<open>tender_acl_entries\<close> only.\<close>

definition only_entries :: "'r world \<Rightarrow> 'r world \<Rightarrow> bool" where
  "only_entries w w' \<longleftrightarrow> (\<exists>rows. w' = w\<lparr>db := (db w)\<lparr>tender_acl_entries := rows\<rparr>\<rparr>)"

lemma only_entries_refl [simp]: "only_entries w w"
  unfolding only_entries_def by (rule exI [of _ "tender_acl_entries (db w)"]) simp

lemma only_entries_frame:
  assumes "only_entries w w'"
  shows "rds w' = rds w" "counters w' = counters w" "log_lines w' = log_lines w"
    "now_app w' = now_app w" "now_db w' = now_db w" "now_cache w' = now_cache w"
    "processed_events (db w') = processed_events (db w)"
  using assms by (auto simp: only_entries_def)

lemma soft_delete_none_hit:
  assumes "soft_delete_where srv guc now P d = Inr (0, d')"
  shows "d' = d"
proof -
  from assms obtain t where
    none: "0 = length (filter (\<lambda>r. t = Some (r_tenant_id r) \<and> P r) (tender_acl_entries d))"
    and d': "d' = d\<lparr>tender_acl_entries :=
      map (\<lambda>r. if t = Some (r_tenant_id r) \<and> P r then soft_delete_row now r else r)
        (tender_acl_entries d)\<rparr>"
    by (rule soft_delete_where_result) blast
  from none have "\<forall>r \<in> set (tender_acl_entries d). \<not> (t = Some (r_tenant_id r) \<and> P r)"
    by (simp add: filter_nil_iff)
  then have "map (\<lambda>r. if t = Some (r_tenant_id r) \<and> P r then soft_delete_row now r else r)
      (tender_acl_entries d) = tender_acl_entries d"
    by (intro map_if_id) blast
  then show ?thesis by (simp add: d')
qed

lemma clean_list: "clean (list_body pg t n l off)"
  unfolding clean_def db_only_def list_body_def
  by (auto split: sum.splits)

lemma clean_grant: "clean (grant_body pg x)"
  unfolding clean_def db_only_def grant_body_def Let_def
  by (auto split: sum.splits prod.splits if_splits)

lemma clean_revoke: "clean (revoke_body pg t n u v)"
  unfolding clean_def db_only_def revoke_body_def send_def update_revoke_def
  by (auto split: sum.splits prod.splits if_splits option.splits dest: soft_delete_none_hit
     )

lemma clean_find: "clean (find_body pg t n u)"
  unfolding clean_def db_only_def find_body_def
  by (auto split: sum.splits list.splits if_splits)

lemma clean_cascade: "clean (cascade_body pg t)"
  unfolding clean_def db_only_def cascade_body_def
  by (auto split: sum.splits prod.splits)

lemma clean_soft_delete: "clean (soft_delete_body pg t u)"
  unfolding clean_def db_only_def soft_delete_body_def
  by (auto split: sum.splits prod.splits)

lemmas clean_bodies =
  clean_list clean_grant clean_revoke clean_find clean_cascade clean_soft_delete

text \<open>A soft delete by a predicate on the tenant's rows, read on entries.\<close>

lemma soft_delete_entries:
  assumes iso: "tenant_isolation srv guc = Inr (Some t)"
    and P: "\<And>r. P r \<longleftrightarrow> r_tenant_id r = t \<and> r_deleted_at r = None \<and> Q (row_entry r)"
    and upd: "soft_delete_where srv guc now P d = Inr (k, d')"
  shows "d' = d\<lparr>tender_acl_entries := tender_acl_entries d'\<rparr>"
    and "map row_entry (tender_acl_entries d') =
      map (\<lambda>e. if e_TenantID e = t \<and> e_DeletedAt e = None \<and> Q e then delete_entry now e else e)
        (map row_entry (tender_acl_entries d))"
    and "k = length (filter P (tender_acl_entries d))"
proof -
  from upd obtain t' where t': "tenant_isolation srv guc = Inr t'"
    and k: "k = length (filter (\<lambda>r. t' = Some (r_tenant_id r) \<and> P r) (tender_acl_entries d))"
    and d': "d' = d\<lparr>tender_acl_entries :=
      map (\<lambda>r. if t' = Some (r_tenant_id r) \<and> P r then soft_delete_row now r else r)
        (tender_acl_entries d)\<rparr>"
    by (rule soft_delete_where_result) blast
  from iso t' have t'_eq: "t' = Some t" by simp
  have hit: "t' = Some (r_tenant_id r) \<and> P r \<longleftrightarrow> P r" for r
    by (auto simp: P t'_eq)
  show "d' = d\<lparr>tender_acl_entries := tender_acl_entries d'\<rparr>" by (simp add: d')
  show "k = length (filter P (tender_acl_entries d))"
    by (simp only: k hit)
  have "row_entry (if P r then soft_delete_row now r else r) =
      (if e_TenantID (row_entry r) = t \<and> e_DeletedAt (row_entry r) = None \<and> Q (row_entry r)
       then delete_entry now (row_entry r) else row_entry r)" for r
    by (simp add: P row_entry_soft_delete)
  then show "map row_entry (tender_acl_entries d') =
      map (\<lambda>e. if e_TenantID e = t \<and> e_DeletedAt e = None \<and> Q e then delete_entry now e else e)
        (map row_entry (tender_acl_entries d))"
    by (simp only: d' hit) (simp add: comp_def)
qed

lemma revoke_body_commit:
  assumes ok: "pg_ok pg" and guc: "tx_guc tx = Some (uuid_String pg t)"
    and run: "revoke_body pg t n u ver c tx w = (None, v, w')"
  shows "only_entries w w'" "entries_of w' = spec_revoke (now_db w) t n u ver (entries_of w)"
    "\<exists>e \<in> set (entries_of w). live t n u e \<and> e_RecordVersion e = ver"
proof -
  let ?P = "\<lambda>r. r_tenant_id r = t \<and> r_tender_id r = n \<and> r_user_id r = u \<and>
    r_deleted_at r = None \<and> r_record_version r = ver"
  let ?Q = "\<lambda>e. e_TenderID e = n \<and> e_UserID e = u \<and> e_RecordVersion e = ver"
  from run obtain k d where upd: "soft_delete_where (pg_srv pg) (tx_guc tx) (now_db w) ?P (db w) = Inr (k, d)"
    and k: "k \<noteq> 0" and w': "w' = w\<lparr>db := d\<rparr>"
    by (auto simp: revoke_body_def send_def update_revoke_def
        split: sum.splits prod.splits if_splits option.splits)
  have iso: "tenant_isolation (pg_srv pg) (tx_guc tx) = Inr (Some t)"
    using ok guc by (simp add: isolation_bound)
  have P: "?P r \<longleftrightarrow> r_tenant_id r = t \<and> r_deleted_at r = None \<and> ?Q (row_entry r)" for r
    by auto
  note upd' = soft_delete_entries [OF iso P upd]
  show "only_entries w w'"
    unfolding only_entries_def w' using upd'(1) by metis
  have "(\<lambda>e. e_TenantID e = t \<and> e_DeletedAt e = None \<and> ?Q e) =
      (\<lambda>e. live t n u e \<and> e_RecordVersion e = ver)"
    by (auto simp: live_def)
  with upd'(2) show "entries_of w' = spec_revoke (now_db w) t n u ver (entries_of w)"
    by (simp add: entries_of_def w' spec_revoke_def live_def conj_ac)
  from k upd'(3) have "filter ?P (tender_acl_entries (db w)) \<noteq> []" by auto
  then obtain r where r: "r \<in> set (filter ?P (tender_acl_entries (db w)))"
    by (meson list.set_sel(1))
  then have "row_entry r \<in> set (entries_of w)" "live t n u (row_entry r)"
    "e_RecordVersion (row_entry r) = ver"
    by (simp_all add: entries_of_def live_for_def)
  then show "\<exists>e \<in> set (entries_of w). live t n u e \<and> e_RecordVersion e = ver" by blast
qed

lemma soft_delete_body_commit:
  assumes ok: "pg_ok pg" and guc: "tx_guc tx = Some (uuid_String pg t)"
    and run: "soft_delete_body pg t u c tx w = (None, v, w')"
  shows "only_entries w w'" "entries_of w' = spec_remove_user (now_db w) t u (entries_of w)"
    "\<exists>k. v = VCount k"
proof -
  let ?P = "\<lambda>r. r_tenant_id r = t \<and> r_user_id r = u \<and> r_deleted_at r = None"
  from run obtain k d where upd: "soft_delete_where (pg_srv pg) (tx_guc tx) (now_db w) ?P (db w) = Inr (k, d)"
    and w': "w' = w\<lparr>db := d\<rparr>" and v: "v = VCount (int k)"
    by (auto simp: soft_delete_body_def send_def update_user_def
        split: sum.splits prod.splits option.splits)
  have iso: "tenant_isolation (pg_srv pg) (tx_guc tx) = Inr (Some t)"
    using ok guc by (simp add: isolation_bound)
  have P: "?P r \<longleftrightarrow> r_tenant_id r = t \<and> r_deleted_at r = None \<and> e_UserID (row_entry r) = u" for r
    by auto
  note upd' = soft_delete_entries [OF iso P upd]
  show "only_entries w w'"
    unfolding only_entries_def w' using upd'(1) by metis
  show "entries_of w' = spec_remove_user (now_db w) t u (entries_of w)"
    using upd'(2) by (simp add: entries_of_def w' spec_remove_user_def conj_ac)
  show "\<exists>k. v = VCount k" using v by blast
qed

lemma cascade_body_commit:
  assumes ok: "pg_ok pg" and guc: "tx_guc tx = Some (uuid_String pg t)"
    and run: "cascade_body pg t c tx w = (None, v, w')"
  shows "only_entries w w'" "entries_of w' = spec_offboard t (entries_of w)" "\<exists>k. v = VCount k"
proof -
  have iso: "tenant_isolation (pg_srv pg) (tx_guc tx) = Inr (Some t)"
    using ok guc by (simp add: isolation_bound)
  with run have w': "w' = w\<lparr>db := (db w)\<lparr>tender_acl_entries :=
      filter (\<lambda>r. r_tenant_id r \<noteq> t) (tender_acl_entries (db w))\<rparr>\<rparr>" and v: "\<exists>k. v = VCount k"
    by (auto simp: cascade_body_def send_def delete_tenant_def Let_def
        eq_commute [of t] split: sum.splits prod.splits option.splits)
  show "only_entries w w'" unfolding only_entries_def using w' by blast
  show "entries_of w' = spec_offboard t (entries_of w)"
    by (simp add: w' entries_of_def spec_offboard_def filter_map comp_def)
  show "\<exists>k. v = VCount k" by (rule v)
qed

lemma grant_body_commit:
  assumes run: "grant_body pg x c tx w = (None, v, w')"
  shows "\<exists>y. v = VEntry y \<and> only_entries w w' \<and> entries_of w' = entries_of w @ [y] \<and>
    granted_as x y \<and> e_ExpiresAt y = map_option (pg_timestamptz (pg_srv pg)) (e_ExpiresAt x) \<and>
    e_CreatedAt y = now_db w \<and> Valid (e_AccessLevel x) \<and>
    (\<forall>e \<in> set (entries_of w). \<not> live (e_TenantID x) (e_TenderID x) (e_UserID x) e)"
proof -
  let ?re = "if e_Reason x \<noteq> [] then Some (e_Reason x) else None"
  from run obtain row d where ins: "insert_entry (pg_srv pg) (tx_guc tx) (now_db w) (e_TenantID x)
      (e_TenderID x) (e_UserID x) (e_TenantMembershipID x) (e_AccessLevel x) (e_GrantedBy x) ?re
      (e_ExpiresAt x) (db w) = Inr (row, d)"
    and w': "w' = w\<lparr>db := d\<rparr>" and v: "v = VEntry (row_entry row)"
    by (auto simp: grant_body_def Let_def send_def scanEntry_def
        split: sum.splits prod.splits if_splits option.splits)
  note row = insert_entry_row [OF ins]
  have "granted_as x (row_entry row)"
    using row by (auto simp: granted_as_def row_entry_def)
  moreover have "Valid (e_AccessLevel x)" using row by (auto simp: row_ok_def)
  ultimately show ?thesis
    using row v by (auto simp: w' only_entries_def entries_of_def)
qed

lemma find_body_commit:
  assumes ok: "pg_ok pg" and guc: "tx_guc tx = Some (uuid_String pg t)"
    and run: "find_body pg t n u c tx w = (None, v, w')"
  shows "w' = w"
    and "(v = VNone \<and> (\<forall>e \<in> set (entries_of w). \<not> active (now_db w) t n u e)) \<or>
      (\<exists>e \<in> set (entries_of w). v = VEntry e \<and> active (now_db w) t n u e)"
proof -
  let ?P = "\<lambda>r. active (now_db w) t n u (row_entry r)"
  have iso: "tenant_isolation (pg_srv pg) (tx_guc tx) = Inr (Some t)"
    using ok guc by (simp add: isolation_bound)
  have sel: "select_active (pg_srv pg) (tx_guc tx) (now_db w) t n u (db w) =
      Inr (scan_order (pg_srv pg) (filter ?P (tender_acl_entries (db w))))"
    unfolding select_active_def select_where_def iso
    by (auto simp: active_def IsActive_iff intro!: arg_cong [of _ _ "scan_order _"] filter_cong
        split: option.splits)
  define rows where "rows = scan_order (pg_srv pg) (filter ?P (tender_acl_entries (db w)))"
  have rows: "set rows = set (filter ?P (tender_acl_entries (db w)))"
    using ok unfolding rows_def pg_ok_def server_contract_def by (metis set_mset_mset)
  show "w' = w"
    using run by (auto simp: find_body_def split: sum.splits list.splits if_splits)
  have faults: "stmt_fault pg SelectActive tx w0 = Some e \<Longrightarrow> \<not> errors_Is e ErrNoRows"
    "scan_fault pg r = Some e \<Longrightarrow> \<not> errors_Is e ErrNoRows" for e r w0
    using ok by (auto simp: pg_ok_def server_contract_def)
  show "(v = VNone \<and> (\<forall>e \<in> set (entries_of w). \<not> active (now_db w) t n u e)) \<or>
      (\<exists>e \<in> set (entries_of w). v = VEntry e \<and> active (now_db w) t n u e)"
  proof (cases rows)
    case Nil
    with rows have none: "\<forall>e \<in> set (entries_of w). \<not> active (now_db w) t n u e"
      by (auto simp: entries_of_def filter_nil_iff)
    from run sel Nil have "v = VNone"
      by (auto simp: find_body_def send_def rows_def [symmetric] split: option.splits if_splits
          dest: faults)
    with none show ?thesis by blast
  next
    case (Cons r rs)
    with rows have "r \<in> set (filter ?P (tender_acl_entries (db w)))" by auto
    then have "row_entry r \<in> set (entries_of w)" "active (now_db w) t n u (row_entry r)"
      by (simp_all add: entries_of_def)
    moreover from run sel Cons have "v = VEntry (row_entry r)"
      by (auto simp: find_body_def send_def scanEntry_def rows_def [symmetric]
          split: option.splits if_splits dest: faults)
    ultimately show ?thesis by blast
  qed
qed

section \<open>The repository implements the port\<close>

lemma collect_loop_done:
  "collect_loop pg rows acc = Inr es \<Longrightarrow> es = acc @ map row_entry rows"
  by (induction pg rows acc rule: collect_loop.induct)
    (auto simp: scanEntry_def split: sum.splits option.splits)

text \<open>The rows a page is cut from.\<close>

definition listing :: "'r pg_env \<Rightarrow> uuid \<Rightarrow> uuid \<Rightarrow> 'r world \<Rightarrow> TenderACLEntry list" where
  "listing pg t n w =
     map row_entry (sort_key r_created_at (scan_order (pg_srv pg)
       (filter (\<lambda>r. r_tenant_id r = t \<and> r_tender_id r = n \<and> r_deleted_at r = None)
          (tender_acl_entries (db w)))))"

lemma list_body_commit:
  assumes ok: "pg_ok pg" and guc: "tx_guc tx = Some (uuid_String pg t)"
    and run: "list_body pg t n limit offset c tx w = (None, v, w')"
  shows "w' = w \<and> 0 \<le> limit \<and> 0 \<le> offset \<and>
    v = VEntries (take (nat limit) (drop (nat offset) (listing pg t n w)))"
proof -
  have iso: "tenant_isolation (pg_srv pg) (tx_guc tx) = Inr (Some t)"
    using ok guc by (simp add: isolation_bound)
  let ?P = "\<lambda>r. r_tenant_id r = t \<and> r_tender_id r = n \<and> r_deleted_at r = None"
  have sel: "select_where (pg_srv pg) (tx_guc tx) ?P (db w) =
      Inr (scan_order (pg_srv pg) (filter ?P (tender_acl_entries (db w))))"
    unfolding select_where_def iso
    by (auto intro!: arg_cong [of _ _ "scan_order _"] filter_cong)
  show ?thesis
    using run
    by (auto simp: list_body_def send_def select_list_def sel collectEntries_def
        listing_def take_map drop_map split: sum.splits option.splits if_splits
        dest!: collect_loop_done)
qed

lemma listing_order:
  assumes "pg_ok pg"
  shows "mset (listing pg t n w) =
      filter_mset (\<lambda>x. e_TenantID x = t \<and> e_TenderID x = n \<and> e_DeletedAt x = None)
        (mset (entries_of w))"
    and "sorted (map e_CreatedAt (listing pg t n w))"
proof -
  let ?P = "\<lambda>r. r_tenant_id r = t \<and> r_tender_id r = n \<and> r_deleted_at r = None"
  have "mset (listing pg t n w) =
      image_mset row_entry (mset (filter ?P (tender_acl_entries (db w))))"
    using assms by (simp add: listing_def pg_ok_def server_contract_def)
  then show "mset (listing pg t n w) =
      filter_mset (\<lambda>x. e_TenantID x = t \<and> e_TenderID x = n \<and> e_DeletedAt x = None)
        (mset (entries_of w))"
    by (simp add: entries_of_def filter_mset_image_mset)
  show "sorted (map e_CreatedAt (listing pg t n w))"
    by (simp add: listing_def comp_def)
qed

lemma Repo_List_cases:
  assumes "pg_ok pg" "bound pg c t" "Repo_List pg c t n limit offset w = (r, w')"
  shows "w' = w \<and> (\<forall>es. r = Inr es \<longrightarrow> 0 \<le> limit \<and> 0 \<le> offset \<and>
    es = take (nat limit) (drop (nat offset) (listing pg t n w)))"
proof -
  obtain r0 v where run: "withTenant pg c t (list_body pg t n limit offset) w = (r0, v, w')"
    and r: "r = (case r0 of Some err \<Rightarrow> Inl err | None \<Rightarrow> Inr (case v of VEntries es \<Rightarrow> es | _ \<Rightarrow> []))"
    using assms(3) by (auto simp: Repo_List_def split: prod.splits option.splits)
  from assms(1) clean_list assms(2) run show ?thesis
    by (cases rule: withTenant_cases) (use r in \<open>auto dest!: list_body_commit [OF assms(1)]\<close>)
qed

lemma Repo_Grant_cases:
  assumes "pg_ok pg" "bound pg c (e_TenantID x)" "Repo_Grant pg c x w = (r, w')"
  shows "only_entries w w' \<and>
    ((\<exists>er. r = Inl er \<and> w' = w) \<or>
     (\<exists>y. (r = Inr y \<or> (\<exists>er. r = Inl er)) \<and> entries_of w' = entries_of w @ [y] \<and> granted_as x y \<and>
        e_ExpiresAt y = map_option (pg_timestamptz (pg_srv pg)) (e_ExpiresAt x) \<and>
        (\<forall>d \<in> set (entries_of w). \<not> live (e_TenantID x) (e_TenderID x) (e_UserID x) d)))"
proof -
  obtain r0 v where run: "withTenant pg c (e_TenantID x) (grant_body pg x) w = (r0, v, w')"
    and r: "r = (case r0 of Some err \<Rightarrow> Inl err | None \<Rightarrow> Inr (case v of VEntry y \<Rightarrow> y | _ \<Rightarrow> zero_entry))"
    using assms(3) by (auto simp: Repo_Grant_def split: prod.splits option.splits)
  from assms(1) clean_grant assms(2) run show ?thesis
  proof (cases rule: withTenant_cases)
    case (committed c' tx)
    from grant_body_commit [OF committed(3)] r committed(1) show ?thesis by auto
  next
    case (undone e)
    with r show ?thesis by simp
  next
    case (unknown e c' tx)
    from grant_body_commit [OF unknown(4)] r unknown(1) show ?thesis by auto
  qed
qed

lemma Repo_Revoke_cases:
  assumes "pg_ok pg" "bound pg c t" "Repo_Revoke pg c t n u ver w = (r, w')"
  shows "only_entries w w' \<and>
    ((\<exists>er. r = Some er \<and> w' = w) \<or>
     (entries_of w' = spec_revoke (now_db w) t n u ver (entries_of w) \<and>
      (\<exists>d \<in> set (entries_of w). live t n u d \<and> e_RecordVersion d = ver)))"
proof -
  obtain v where run: "withTenant pg c t (revoke_body pg t n u ver) w = (r, v, w')"
    using assms(3) by (auto simp: Repo_Revoke_def split: prod.splits)
  from assms(1) clean_revoke assms(2) run show ?thesis
  proof (cases rule: withTenant_cases)
    case (committed c' tx)
    with revoke_body_commit [OF assms(1) committed(2,3)] show ?thesis by blast
  next
    case (undone e)
    then show ?thesis by simp
  next
    case (unknown e c' tx)
    with revoke_body_commit [OF assms(1) unknown(3,4)] show ?thesis by blast
  qed
qed

lemma Repo_FindActive_cases:
  assumes "pg_ok pg" "bound pg c t" "Repo_FindActive pg c t n u w = (r, w')"
  shows "w' = w \<and>
    (case r of
       Inl er \<Rightarrow> True
     | Inr None \<Rightarrow> \<forall>d \<in> set (entries_of w). \<not> active (now_db w) t n u d
     | Inr (Some d) \<Rightarrow> d \<in> set (entries_of w) \<and> active (now_db w) t n u d)"
proof -
  obtain r0 v where run: "withTenant pg c t (find_body pg t n u) w = (r0, v, w')"
    and r: "r = (case r0 of Some err \<Rightarrow> Inl err | None \<Rightarrow> Inr (case v of VEntry e \<Rightarrow> Some e | _ \<Rightarrow> None))"
    using assms(3) by (auto simp: Repo_FindActive_def split: prod.splits option.splits)
  from assms(1) clean_find assms(2) run show ?thesis
  proof (cases rule: withTenant_cases)
    case (committed c' tx)
    with find_body_commit [OF assms(1) committed(2,3)] r show ?thesis by auto
  next
    case (undone e)
    with r show ?thesis by simp
  next
    case (unknown e c' tx)
    with find_body_commit [OF assms(1) unknown(3,4)] r show ?thesis by auto
  qed
qed

lemma Repo_Cascade_cases:
  assumes "pg_ok pg" "bound pg c t" "Repo_CascadeDeleteForTenant pg c t w = (r, w')"
  shows "only_entries w w' \<and>
    ((\<exists>er. r = Inl er \<and> w' = w) \<or> entries_of w' = spec_offboard t (entries_of w))"
proof -
  obtain r0 v where run: "withTenant pg c t (cascade_body pg t) w = (r0, v, w')"
    and r: "r = (case r0 of Some err \<Rightarrow> Inl err | None \<Rightarrow> Inr (case v of VCount n \<Rightarrow> n | _ \<Rightarrow> 0))"
    using assms(3) by (auto simp: Repo_CascadeDeleteForTenant_def split: prod.splits option.splits)
  from assms(1) clean_cascade assms(2) run show ?thesis
  proof (cases rule: withTenant_cases)
    case (committed c' tx)
    with cascade_body_commit [OF assms(1) committed(2,3)] show ?thesis by blast
  next
    case (undone e)
    with r show ?thesis by simp
  next
    case (unknown e c' tx)
    with cascade_body_commit [OF assms(1) unknown(3,4)] show ?thesis by blast
  qed
qed

lemma Repo_SoftDelete_cases:
  assumes "pg_ok pg" "bound pg c t" "Repo_SoftDeleteForUser pg c t u w = (r, w')"
  shows "only_entries w w' \<and>
    ((\<exists>er. r = Inl er \<and> w' = w) \<or> entries_of w' = spec_remove_user (now_db w) t u (entries_of w))"
proof -
  obtain r0 v where run: "withTenant pg c t (soft_delete_body pg t u) w = (r0, v, w')"
    and r: "r = (case r0 of Some err \<Rightarrow> Inl err | None \<Rightarrow> Inr (case v of VCount n \<Rightarrow> n | _ \<Rightarrow> 0))"
    using assms(3) by (auto simp: Repo_SoftDeleteForUser_def split: prod.splits option.splits)
  from assms(1) clean_soft_delete assms(2) run show ?thesis
  proof (cases rule: withTenant_cases)
    case (committed c' tx)
    with soft_delete_body_commit [OF assms(1) committed(2,3)] show ?thesis by blast
  next
    case (undone e)
    with r show ?thesis by simp
  next
    case (unknown e c' tx)
    with soft_delete_body_commit [OF assms(1) unknown(3,4)] show ?thesis by blast
  qed
qed

lemma repo_sel [simp]:
  "repo_List (NewTenderACLRepository pg) = Repo_List pg" "repo_Grant (NewTenderACLRepository pg) = Repo_Grant pg"
  "repo_Revoke (NewTenderACLRepository pg) = Repo_Revoke pg"
  "repo_FindActive (NewTenderACLRepository pg) = Repo_FindActive pg"
  "repo_CascadeDeleteForTenant (NewTenderACLRepository pg) = Repo_CascadeDeleteForTenant pg"
  "repo_SoftDeleteForUser (NewTenderACLRepository pg) = Repo_SoftDeleteForUser pg"
  by (simp_all add: NewTenderACLRepository_def)

interpretation pg_repo: acl_repository pg_ok NewTenderACLRepository bound entries_of now_db only_entries
proof (unfold_locales, goal_cases)
  case (1 w w')
  then show ?case by (rule only_entries_frame)
next
  case (2 e c t n limit offset w es w')
  then have "w' = w \<and> 0 \<le> limit \<and> 0 \<le> offset \<and>
      es = take (nat limit) (drop (nat offset) (listing e t n w))"
    using Repo_List_cases [of e c t n limit offset w "Inr es" w'] by simp
  with 2 listing_order [of e t n w] show ?case by blast
next
  case (3 e c t n limit offset w er w')
  then show ?case using Repo_List_cases [of e c t n limit offset w "Inl er" w'] by simp
next
  case (4 e c x w y w')
  then show ?case using Repo_Grant_cases [of e c x w "Inr y" w'] by auto
next
  case (5 e c x w er w')
  then show ?case using Repo_Grant_cases [of e c x w "Inl er" w'] by auto
next
  case (6 e c t n u v w w')
  then show ?case using Repo_Revoke_cases [of e c t n u v w None w'] by auto
next
  case (7 e c t n u v w er w')
  then show ?case using Repo_Revoke_cases [of e c t n u v w "Some er" w'] by auto
next
  case (8 e c t n u w r w')
  then show ?case using Repo_FindActive_cases [of e c t n u w "Inr r" w'] by (auto split: option.splits)
next
  case (9 e c t n u w er w')
  then show ?case using Repo_FindActive_cases [of e c t n u w "Inl er" w'] by simp
next
  case (10 e c t w k w')
  then show ?case using Repo_Cascade_cases [of e c t w "Inr k" w'] by auto
next
  case (11 e c t w er w')
  then show ?case using Repo_Cascade_cases [of e c t w "Inl er" w'] by auto
next
  case (12 e c t u w k w')
  then show ?case using Repo_SoftDelete_cases [of e c t u w "Inr k" w'] by auto
next
  case (13 e c t u w er w')
  then show ?case using Repo_SoftDelete_cases [of e c t u w "Inl er" w'] by auto
qed

end
