(* ===== verification/RepositoryProps.thy ===== *)
theory RepositoryProps
  imports Repository
begin

text \<open>
  What the repository's methods keep and what they answer: the schema invariant, the rows of
  other tenants and the history of every row hold across each call in any environment; in an
  environment without faults each write's answer is characterised on every branch.
\<close>

section \<open>Relations between the tables before and after\<close>

definition keeps_inv :: "database \<Rightarrow> database \<Rightarrow> bool" where
  "keeps_inv d d' \<longleftrightarrow> (schema_inv d \<longrightarrow> schema_inv d')"

definition others :: "uuid \<Rightarrow> database \<Rightarrow> acl_row list" where
  "others t d = filter (\<lambda>r. r_tenant_id r \<noteq> t) (tender_acl_entries d)"

definition keeps_others :: "uuid \<Rightarrow> database \<Rightarrow> database \<Rightarrow> bool" where
  "keeps_others t d d' \<longleftrightarrow> others t d' = others t d \<and> processed_events d' = processed_events d"

text \<open>
  How a row may change: what was granted stays as it was, the version only grows, and a revoked
  row never changes again.
\<close>

definition row_evolves :: "acl_row \<Rightarrow> acl_row \<Rightarrow> bool" where
  "row_evolves r r' \<longleftrightarrow>
     r_tenant_id r' = r_tenant_id r \<and> r_tender_id r' = r_tender_id r \<and> r_user_id r' = r_user_id r \<and>
     r_tenant_membership_id r' = r_tenant_membership_id r \<and>
     r_access_level r' = r_access_level r \<and> r_granted_by r' = r_granted_by r \<and>
     r_reason r' = r_reason r \<and> r_expires_at r' = r_expires_at r \<and>
     r_created_at r' = r_created_at r \<and> r_record_version r \<le> r_record_version r' \<and>
     (r' \<noteq> r \<longrightarrow> r_deleted_at r = None \<and> r_deleted_at r' \<noteq> None \<and>
                r_record_version r' = r_record_version r + 1)"

definition keeps_history :: "database \<Rightarrow> database \<Rightarrow> bool" where
  "keeps_history d d' \<longleftrightarrow>
     (schema_inv d \<longrightarrow>
      (\<forall>r \<in> set (tender_acl_entries d). \<forall>r' \<in> set (tender_acl_entries d').
         r_id r' = r_id r \<longrightarrow> row_evolves r r'))"

lemma row_evolves_refl [simp]: "row_evolves r r"
  by (simp add: row_evolves_def)

lemma row_evolves_soft_delete:
  "r_deleted_at r = None \<Longrightarrow> row_evolves r (soft_delete_row now r)"
  by (simp add: row_evolves_def soft_delete_row_live)

lemma reflp_keeps [simp]:
  "reflp keeps_inv" "reflp (keeps_others t)" "reflp keeps_history"
proof -
  show "reflp keeps_inv" "reflp (keeps_others t)"
    by (auto simp: reflp_def keeps_inv_def keeps_others_def)
  show "reflp keeps_history"
  proof (rule reflpI)
    fix d
    show "keeps_history d d"
      unfolding keeps_history_def
    proof (intro impI ballI)
      fix r r'
      assume "schema_inv d" "r \<in> set (tender_acl_entries d)" "r' \<in> set (tender_acl_entries d)"
        "r_id r' = r_id r"
      then have "r' = r" by (auto simp: schema_inv_def distinct_map dest: inj_onD)
      then show "row_evolves r r'" by simp
    qed
  qed
qed

section \<open>Every statement respects them\<close>

lemma insert_entry_keeps:
  assumes "insert_entry srv guc now t n u m l g re x d = Inr (row, d')"
  shows "keeps_inv d d'" "keeps_others t d d'" "keeps_history d d'"
proof -
  note row = insert_entry_row [OF assms]
  show "keeps_inv d d'" using insert_entry_inv [OF _ assms] by (simp add: keeps_inv_def)
  show "keeps_others t d d'" using row by (simp add: keeps_others_def others_def)
  have "keeps_history d d" using reflp_keeps(3) by (rule reflpD)
  then show "keeps_history d d'" using row by (auto simp: keeps_history_def)
qed

lemma soft_delete_where_keeps:
  assumes P: "\<And>r. P r \<Longrightarrow> r_tenant_id r = t \<and> r_deleted_at r = None"
    and upd: "soft_delete_where srv guc now P d = Inr (k, d')"
  shows "keeps_inv d d'" "keeps_others t d d'" "keeps_history d d'"
proof -
  show "keeps_inv d d'" using soft_delete_where_inv [OF _ upd] by (simp add: keeps_inv_def)
  from upd obtain s where d': "d' = d\<lparr>tender_acl_entries :=
      map (\<lambda>r. if s = Some (r_tenant_id r) \<and> P r then soft_delete_row now r else r)
        (tender_acl_entries d)\<rparr>"
    by (rule soft_delete_where_result) blast
  have "filter (\<lambda>r. r_tenant_id r \<noteq> t)
      (map (\<lambda>r. if s = Some (r_tenant_id r) \<and> P r then soft_delete_row now r else r) rs) =
      filter (\<lambda>r. r_tenant_id r \<noteq> t) rs" for rs
    by (induction rs) (auto dest: P)
  then show "keeps_others t d d'" by (simp add: keeps_others_def others_def d')
  show "keeps_history d d'"
    unfolding keeps_history_def
  proof (intro impI ballI)
    fix r r'
    assume inv: "schema_inv d" and r: "r \<in> set (tender_acl_entries d)"
      and r': "r' \<in> set (tender_acl_entries d')" and id: "r_id r' = r_id r"
    from r' obtain q where q: "q \<in> set (tender_acl_entries d)"
      "r' = (if s = Some (r_tenant_id q) \<and> P q then soft_delete_row now q else q)"
      by (auto simp: d')
    then have "r_id r' = r_id q" by auto
    with id inv q(1) r have "q = r" by (auto simp: schema_inv_def distinct_map dest: inj_onD)
    with q(2) show "row_evolves r r'" by (auto intro: row_evolves_soft_delete dest: P)
  qed
qed

lemma update_keeps:
  assumes "update_revoke srv guc now t n u ver d = Inr (k, d') \<or> update_user srv guc now t u d = Inr (k, d')"
  shows "keeps_inv d d'" "keeps_others t d d'" "keeps_history d d'"
proof -
  from assms have "\<exists>P. soft_delete_where srv guc now P d = Inr (k, d') \<and>
      (\<forall>r. P r \<longrightarrow> r_tenant_id r = t \<and> r_deleted_at r = None)"
    unfolding update_revoke_def update_user_def
    by (elim disjE) (intro exI conjI, assumption, simp)+
  then obtain P where P: "\<And>r. P r \<Longrightarrow> r_tenant_id r = t \<and> r_deleted_at r = None"
    and upd: "soft_delete_where srv guc now P d = Inr (k, d')"
    by blast
  show "keeps_inv d d'" "keeps_others t d d'" "keeps_history d d'"
    by (rule soft_delete_where_keeps [OF P upd]; assumption)+
qed

lemma delete_tenant_keeps:
  assumes "delete_tenant srv guc t d = Inr (k, d')"
  shows "keeps_inv d d'" "keeps_others t d d'" "keeps_history d d'"
proof -
  show "keeps_inv d d'" using delete_tenant_inv [OF _ assms] by (simp add: keeps_inv_def)
  from assms obtain Q where d': "d' = d\<lparr>tender_acl_entries := filter Q (tender_acl_entries d)\<rparr>"
    and Q: "\<And>r. r_tenant_id r \<noteq> t \<Longrightarrow> Q r"
    by (auto simp: delete_tenant_def Let_def split: sum.splits)
  have "filter (\<lambda>r. r_tenant_id r \<noteq> t) (filter Q rs) = filter (\<lambda>r. r_tenant_id r \<noteq> t) rs" for rs
    by (induction rs) (auto dest: Q)
  then show "keeps_others t d d'" by (simp add: keeps_others_def others_def d')
  have "keeps_history d d" using reflp_keeps(3) by (rule reflpD)
  then show "keeps_history d d'" by (auto simp: keeps_history_def d')
qed

section \<open>Every closure respects them\<close>

lemma db_relI:
  assumes "reflp R" "\<And>c tx w r v w'. body c tx w = (r, v, w') \<Longrightarrow> w' = w \<or> R (db w) (db w')"
  shows "db_rel R body"
  unfolding db_rel_def using assms by (metis reflpD)

lemma list_body_rel: "reflp R \<Longrightarrow> db_rel R (list_body pg t n l off)"
  by (rule db_relI) (auto simp: list_body_def split: sum.splits)

lemma find_body_rel: "reflp R \<Longrightarrow> db_rel R (find_body pg t n u)"
  by (rule db_relI) (auto simp: find_body_def split: sum.splits list.splits if_splits)

lemma grant_body_run:
  assumes "grant_body pg x c tx w = (r, v, w')"
  shows "w' = w \<or> (\<exists>row re. insert_entry (pg_srv pg) (tx_guc tx) (now_db w) (e_TenantID x)
    (e_TenderID x) (e_UserID x) (e_TenantMembershipID x) (e_AccessLevel x) (e_GrantedBy x) re
    (e_ExpiresAt x) (db w) = Inr (row, db w'))"
  using assms
  by (auto simp: grant_body_def Let_def send_def split: sum.splits prod.splits if_splits option.splits)

lemma grant_body_rel:
  "db_rel keeps_inv (grant_body pg x)" "db_rel (keeps_others (e_TenantID x)) (grant_body pg x)"
  "db_rel keeps_history (grant_body pg x)"
  by (rule db_relI; auto dest!: grant_body_run dest: insert_entry_keeps)+

lemma revoke_body_run:
  assumes "revoke_body pg t n u ver c tx w = (r, v, w')"
  shows "w' = w \<or> (\<exists>k. update_revoke (pg_srv pg) (tx_guc tx) (now_db w) t n u ver (db w) = Inr (k, db w'))"
  using assms by (auto simp: revoke_body_def send_def split: sum.splits prod.splits if_splits option.splits)

lemma revoke_body_rel:
  "db_rel keeps_inv (revoke_body pg t n u ver)" "db_rel (keeps_others t) (revoke_body pg t n u ver)"
  "db_rel keeps_history (revoke_body pg t n u ver)"
  by (rule db_relI; auto dest!: revoke_body_run intro: update_keeps)+

lemma soft_delete_body_run:
  assumes "soft_delete_body pg t u c tx w = (r, v, w')"
  shows "w' = w \<or> (\<exists>k. update_user (pg_srv pg) (tx_guc tx) (now_db w) t u (db w) = Inr (k, db w'))"
  using assms by (auto simp: soft_delete_body_def send_def split: sum.splits prod.splits option.splits)

lemma soft_delete_body_rel:
  "db_rel keeps_inv (soft_delete_body pg t u)" "db_rel (keeps_others t) (soft_delete_body pg t u)"
  "db_rel keeps_history (soft_delete_body pg t u)"
  by (rule db_relI; auto dest!: soft_delete_body_run intro: update_keeps)+

lemma cascade_body_run:
  assumes "cascade_body pg t c tx w = (r, v, w')"
  shows "w' = w \<or> (\<exists>k. delete_tenant (pg_srv pg) (tx_guc tx) t (db w) = Inr (k, db w'))"
  using assms by (auto simp: cascade_body_def send_def split: sum.splits prod.splits option.splits)

lemma cascade_body_rel:
  "db_rel keeps_inv (cascade_body pg t)" "db_rel (keeps_others t) (cascade_body pg t)"
  "db_rel keeps_history (cascade_body pg t)"
  by (rule db_relI; auto dest!: cascade_body_run dest: delete_tenant_keeps)+

section \<open>Every method respects them\<close>

lemma Repo_List_rel:
  "tx_contract pg \<Longrightarrow> reflp R \<Longrightarrow> Repo_List pg c t n l off w = (r, w') \<Longrightarrow> R (db w) (db w')"
  by (auto simp: Repo_List_def split: prod.splits option.splits
      elim!: withTenant_rel [OF _ list_body_rel])

lemma Repo_FindActive_rel:
  "tx_contract pg \<Longrightarrow> reflp R \<Longrightarrow> Repo_FindActive pg c t n u w = (r, w') \<Longrightarrow> R (db w) (db w')"
  by (auto simp: Repo_FindActive_def split: prod.splits option.splits
      elim!: withTenant_rel [OF _ find_body_rel])

lemma Repo_Grant_rel:
  "tx_contract pg \<Longrightarrow> db_rel R (grant_body pg x) \<Longrightarrow> Repo_Grant pg c x w = (r, w') \<Longrightarrow>
     R (db w) (db w')"
  by (auto simp: Repo_Grant_def split: prod.splits option.splits elim!: withTenant_rel)

lemma Repo_Revoke_rel:
  "tx_contract pg \<Longrightarrow> db_rel R (revoke_body pg t n u v) \<Longrightarrow> Repo_Revoke pg c t n u v w = (r, w') \<Longrightarrow>
     R (db w) (db w')"
  by (auto simp: Repo_Revoke_def split: prod.splits option.splits elim!: withTenant_rel)

lemma Repo_Cascade_rel:
  "tx_contract pg \<Longrightarrow> db_rel R (cascade_body pg t) \<Longrightarrow>
     Repo_CascadeDeleteForTenant pg c t w = (r, w') \<Longrightarrow> R (db w) (db w')"
  by (auto simp: Repo_CascadeDeleteForTenant_def split: prod.splits option.splits
      elim!: withTenant_rel)

lemma Repo_SoftDelete_rel:
  "tx_contract pg \<Longrightarrow> db_rel R (soft_delete_body pg t u) \<Longrightarrow>
     Repo_SoftDeleteForUser pg c t u w = (r, w') \<Longrightarrow> R (db w) (db w')"
  by (auto simp: Repo_SoftDeleteForUser_def split: prod.splits option.splits elim!: withTenant_rel)

lemmas repo_rels =
  Repo_Grant_rel [OF _ grant_body_rel(1)] Repo_Grant_rel [OF _ grant_body_rel(2)]
  Repo_Grant_rel [OF _ grant_body_rel(3)]
  Repo_Revoke_rel [OF _ revoke_body_rel(1)] Repo_Revoke_rel [OF _ revoke_body_rel(2)]
  Repo_Revoke_rel [OF _ revoke_body_rel(3)]
  Repo_Cascade_rel [OF _ cascade_body_rel(1)] Repo_Cascade_rel [OF _ cascade_body_rel(2)]
  Repo_Cascade_rel [OF _ cascade_body_rel(3)]
  Repo_SoftDelete_rel [OF _ soft_delete_body_rel(1)] Repo_SoftDelete_rel [OF _ soft_delete_body_rel(2)]
  Repo_SoftDelete_rel [OF _ soft_delete_body_rel(3)]

section \<open>Answers in an environment without faults\<close>

lemma healthy_ok: "pg_healthy pg \<Longrightarrow> pg_ok pg"
  by (simp add: pg_healthy_def)

lemma healthy_send [simp]: "pg_healthy pg \<Longrightarrow> send pg st tx w res = res"
  by (simp add: pg_healthy_def send_def)

lemma healthy_scan [simp]: "pg_healthy pg \<Longrightarrow> scanEntry pg row = Inr (row_entry row)"
  by (simp add: pg_healthy_def scanEntry_def)

lemma healthy_collect [simp]: "pg_healthy pg \<Longrightarrow> collect_loop pg rows acc = Inr (acc @ map row_entry rows)"
  by (induction rows arbitrary: acc) simp_all

lemma live_version_rows:
  "(\<exists>e \<in> set (entries_of w). live t n u e \<and> e_RecordVersion e = ver) \<longleftrightarrow>
   filter (\<lambda>r. live_for t n u r \<and> r_record_version r = ver) (tender_acl_entries (db w)) \<noteq> []"
  by (auto simp: entries_of_def filter_empty_conv)

lemma update_revoke_answer:
  assumes iso: "tenant_isolation srv guc = Inr (Some t)" and v: "ver < MaxInt64"
  shows "\<exists>d'. update_revoke srv guc now t n u ver d =
    Inr (length (filter (\<lambda>r. live_for t n u r \<and> r_record_version r = ver) (tender_acl_entries d)), d')"
proof -
  have hit: "Some t = Some (r_tenant_id r) \<and> r_tenant_id r = t \<and> r_tender_id r = n \<and> r_user_id r = u \<and>
      r_deleted_at r = None \<and> r_record_version r = ver \<longleftrightarrow> live_for t n u r \<and> r_record_version r = ver" for r
    by (auto simp: live_for_def)
  have "\<not> (live_for t n u r \<and> r_record_version r = ver \<and>
      MaxInt64 < r_record_version (soft_delete_row now r))" for r
    using v by (auto simp: live_for_def soft_delete_row_live)
  then show ?thesis
    unfolding update_revoke_def soft_delete_where_def iso sum.case Let_def hit
    by (simp add: list_ex_iff)
qed

lemma revoke_body_answer:
  assumes h: "pg_healthy pg" and guc: "tx_guc tx = Some (uuid_String pg t)" and v: "ver < MaxInt64"
  shows "if \<exists>e \<in> set (entries_of w). live t n u e \<and> e_RecordVersion e = ver
    then \<exists>w'. revoke_body pg t n u ver c tx w = (None, VNone, w')
    else \<exists>w'. revoke_body pg t n u ver c tx w =
      (Some (NewError ErrCodeOptimisticLockConflict ''record version conflict''), VNone, w')"
proof -
  have iso: "tenant_isolation (pg_srv pg) (tx_guc tx) = Inr (Some t)"
    using healthy_ok [OF h] guc by (simp add: isolation_bound)
  obtain d' where "update_revoke (pg_srv pg) (tx_guc tx) (now_db w) t n u ver (db w) =
    Inr (length (filter (\<lambda>r. live_for t n u r \<and> r_record_version r = ver)
           (tender_acl_entries (db w))), d')"
    using update_revoke_answer [OF iso v] by blast
  with h show ?thesis
    unfolding live_version_rows by (simp add: revoke_body_def)
qed

lemma Repo_Revoke_answer:
  assumes h: "pg_healthy pg" and c: "ctx_tx c = None" and v: "ver < MaxInt64"
  shows "if \<exists>e \<in> set (entries_of w). live t n u e \<and> e_RecordVersion e = ver
    then \<exists>w'. Repo_Revoke pg c t n u ver w = (None, w') \<and>
      entries_of w' = spec_revoke (now_db w) t n u ver (entries_of w)
    else Repo_Revoke pg c t n u ver w =
      (Some (NewError ErrCodeOptimisticLockConflict ''record version conflict''), w)"
proof -
  let ?c = "c\<lparr>ctx_guc := Some (uuid_String pg t)\<rparr>"
  let ?tx = "\<lparr>tx_guc = Some (uuid_String pg t), tx_attempt = 0\<rparr>"
  note run = withTenant_healthy [OF h c clean_revoke, where t = t]
  have ans: "if \<exists>e \<in> set (entries_of w). live t n u e \<and> e_RecordVersion e = ver
    then \<exists>w'. revoke_body pg t n u ver ?c ?tx w = (None, VNone, w')
    else \<exists>w'. revoke_body pg t n u ver ?c ?tx w =
      (Some (NewError ErrCodeOptimisticLockConflict ''record version conflict''), VNone, w')"
    by (rule revoke_body_answer [OF h _ v]) simp
  show ?thesis
  proof (cases "\<exists>e \<in> set (entries_of w). live t n u e \<and> e_RecordVersion e = ver")
    case True
    with ans obtain w' where w': "revoke_body pg t n u ver ?c ?tx w = (None, VNone, w')"
      by (simp only: if_True) blast
    with True run(1) revoke_body_commit(2) [OF healthy_ok [OF h] _ w'] show ?thesis
      by (simp add: Repo_Revoke_def)
  next
    case False
    with ans obtain w' where "revoke_body pg t n u ver ?c ?tx w =
        (Some (NewError ErrCodeOptimisticLockConflict ''record version conflict''), VNone, w')"
      by (simp only: if_False) blast
    with False run(2) show ?thesis by (simp add: Repo_Revoke_def retryable_def)
  qed
qed

text \<open>The requests that pass the column checks, with an id that no row has yet.\<close>

definition insertable :: "'r pg_env \<Rightarrow> TenderACLEntry \<Rightarrow> 'r world \<Rightarrow> bool" where
  "insertable pg x w \<longleftrightarrow>
     Valid (e_AccessLevel x) \<and> CHR 0x00 \<notin> set (e_Reason x) \<and> char_length (e_Reason x) \<le> 500 \<and>
     (\<forall>r \<in> set (tender_acl_entries (db w)). r_id r \<noteq> gen_random_uuid (pg_srv pg) (db w))"

abbreviation stored_reason :: "TenderACLEntry \<Rightarrow> string option" where
  "stored_reason x \<equiv> (if e_Reason x \<noteq> [] then Some (e_Reason x) else None)"

lemma insert_entry_answer:
  fixes now :: instant
  assumes iso: "tenant_isolation (pg_srv pg) guc = Inr (Some (e_TenantID x))"
    and ins: "insertable pg x w"
  defines "res \<equiv> insert_entry (pg_srv pg) guc now (e_TenantID x) (e_TenderID x) (e_UserID x)
    (e_TenantMembershipID x) (e_AccessLevel x) (e_GrantedBy x) (stored_reason x) (e_ExpiresAt x) (db w)"
  shows "if \<exists>e \<in> set (entries_of w). live (e_TenantID x) (e_TenderID x) (e_UserID x) e
    then res = Inl (pg_error (pg_srv pg) ''23505'')
    else \<exists>row d. res = Inr (row, d)"
proof -
  let ?clash = "list_ex (\<lambda>r. r_tenant_id r = e_TenantID x \<and> r_tender_id r = e_TenderID x \<and>
    r_user_id r = e_UserID x \<and> r_deleted_at r = None) (tender_acl_entries (db w))"
  have clash: "(\<exists>e \<in> set (entries_of w). live (e_TenantID x) (e_TenderID x) (e_UserID x) e) \<longleftrightarrow> ?clash"
    by (auto simp: entries_of_def list_ex_iff live_for_def)
  have "\<not> list_ex (\<lambda>r. r_id r = gen_random_uuid (pg_srv pg) (db w)) (tender_acl_entries (db w))"
    using ins by (auto simp: insertable_def list_ex_iff)
  moreover have "Valid (e_AccessLevel x)" "CHR 0x00 \<notin> set (e_Reason x)" "char_length (e_Reason x) \<le> 500"
    using ins by (auto simp: insertable_def)
  ultimately show ?thesis
    unfolding clash res_def insert_entry_def iso
    by (cases ?clash) (auto simp: Valid_def acl_levels Let_def)
qed

lemma Repo_Grant_answer:
  assumes h: "pg_healthy pg" and c: "ctx_tx c = None" and ins: "insertable pg x w"
  shows "if \<exists>e \<in> set (entries_of w). live (e_TenantID x) (e_TenderID x) (e_UserID x) e
    then Repo_Grant pg c x w =
      (Inl (NewError ErrCodeDuplicateGrant
              ''an active grant already exists for this tenant/tender/user''), w)
    else \<exists>y w'. Repo_Grant pg c x w = (Inr y, w')"
proof -
  let ?c = "c\<lparr>ctx_guc := Some (uuid_String pg (e_TenantID x))\<rparr>"
  let ?tx = "\<lparr>tx_guc = Some (uuid_String pg (e_TenantID x)), tx_attempt = 0\<rparr>"
  note run = withTenant_healthy [OF h c clean_grant, where t = "e_TenantID x"]
  have iso: "tenant_isolation (pg_srv pg) (tx_guc ?tx) = Inr (Some (e_TenantID x))"
    using healthy_ok [OF h] by (simp add: isolation_bound)
  note ans = insert_entry_answer [OF iso ins, of "now_db w"]
  have uniq: "IsUniqueViolation pg (pg_error (pg_srv pg) ''23505'')"
    using healthy_ok [OF h] by (simp add: pg_ok_def classifier_contract_def)
  show ?thesis
  proof (cases "\<exists>e \<in> set (entries_of w). live (e_TenantID x) (e_TenderID x) (e_UserID x) e")
    case True
    with ans h uniq have "grant_body pg x ?c ?tx w =
        (Some (NewError ErrCodeDuplicateGrant
           ''an active grant already exists for this tenant/tender/user''), VNone, w)"
      by (simp add: grant_body_def Let_def)
    with True run(2) show ?thesis by (simp add: Repo_Grant_def retryable_def)
  next
    case False
    with ans obtain row d where "insert_entry (pg_srv pg) (tx_guc ?tx) (now_db w) (e_TenantID x)
        (e_TenderID x) (e_UserID x) (e_TenantMembershipID x) (e_AccessLevel x) (e_GrantedBy x)
        (stored_reason x) (e_ExpiresAt x) (db w) = Inr (row, d)"
      by (simp only: if_False) blast
    with h have "grant_body pg x ?c ?tx w = (None, VEntry (row_entry row), w\<lparr>db := d\<rparr>)"
      by (simp add: grant_body_def Let_def)
    with False run(1) show ?thesis by (simp add: Repo_Grant_def)
  qed
qed

lemma Repo_List_answer:
  assumes h: "pg_healthy pg" and c: "ctx_tx c = None" and nn: "0 \<le> limit" "0 \<le> offset"
  shows "Repo_List pg c t n limit offset w =
    (Inr (take (nat limit) (drop (nat offset) (listing pg t n w))), w)"
proof -
  let ?c = "c\<lparr>ctx_guc := Some (uuid_String pg t)\<rparr>"
  let ?tx = "\<lparr>tx_guc = Some (uuid_String pg t), tx_attempt = 0\<rparr>"
  have iso: "tenant_isolation (pg_srv pg) (tx_guc ?tx) = Inr (Some t)"
    using healthy_ok [OF h] by (simp add: isolation_bound)
  obtain rows where rows: "select_list (pg_srv pg) (tx_guc ?tx) t n limit offset (db w) = Inr rows"
    using nn iso by (simp add: select_list_def select_where_def)
  have "rows_err pg ?tx w = None" using h by (simp add: pg_healthy_def)
  with h rows have run: "list_body pg t n limit offset ?c ?tx w = (None, VEntries (map row_entry rows), w)"
    by (simp add: list_body_def collectEntries_def)
  from list_body_commit [OF healthy_ok [OF h] _ run]
  have "map row_entry rows = take (nat limit) (drop (nat offset) (listing pg t n w))" by simp
  with withTenant_healthy(1) [OF h c clean_list run] show ?thesis by (simp add: Repo_List_def)
qed

lemma Repo_FindActive_answer:
  assumes h: "pg_healthy pg" and c: "ctx_tx c = None"
  shows "\<exists>d. Repo_FindActive pg c t n u w = (Inr d, w)"
proof -
  let ?c = "c\<lparr>ctx_guc := Some (uuid_String pg t)\<rparr>"
  let ?tx = "\<lparr>tx_guc = Some (uuid_String pg t), tx_attempt = 0\<rparr>"
  have iso: "tenant_isolation (pg_srv pg) (tx_guc ?tx) = Inr (Some t)"
    using healthy_ok [OF h] by (simp add: isolation_bound)
  then obtain rows where "select_active (pg_srv pg) (tx_guc ?tx) (now_db w) t n u (db w) = Inr rows"
    by (simp add: select_active_def select_where_def)
  with h have "\<exists>v. find_body pg t n u ?c ?tx w = (None, v, w)"
    by (cases rows) (auto simp: find_body_def)
  then obtain v where "find_body pg t n u ?c ?tx w = (None, v, w)" ..
  from withTenant_healthy(1) [OF h c clean_find this] show ?thesis by (simp add: Repo_FindActive_def)
qed

section \<open>Row-level security\<close>

text \<open>
  Whatever a statement asks for, the policy confines it to the tenant whose GUC is bound, and to
  no row at all when none is bound.
\<close>

lemma select_where_confined:
  assumes "pg_ok pg" "select_where (pg_srv pg) guc P d = Inr rows" "r \<in> set rows"
  shows "tenant_isolation (pg_srv pg) guc = Inr (Some (r_tenant_id r))"
proof -
  from assms(2) obtain t where t: "tenant_isolation (pg_srv pg) guc = Inr t"
    and rows: "rows = scan_order (pg_srv pg) (filter (\<lambda>r. t = Some (r_tenant_id r) \<and> P r) (tender_acl_entries d))"
    by (auto simp: select_where_def split: sum.splits)
  have "mset rows = mset (filter (\<lambda>r. t = Some (r_tenant_id r) \<and> P r) (tender_acl_entries d))"
    using assms(1) by (simp add: rows pg_ok_def server_contract_def)
  then have "set rows = set (filter (\<lambda>r. t = Some (r_tenant_id r) \<and> P r) (tender_acl_entries d))"
    by (rule mset_eq_setD)
  with assms(3) t show ?thesis by auto
qed

lemma soft_delete_where_confined:
  assumes "soft_delete_where srv guc now P d = Inr (k, d')" "tenant_isolation srv guc \<noteq> Inr (Some t)"
  shows "filter (\<lambda>r. r_tenant_id r = t) (tender_acl_entries d') =
    filter (\<lambda>r. r_tenant_id r = t) (tender_acl_entries d)"
proof -
  from assms(1) obtain s where s: "tenant_isolation srv guc = Inr s"
    and d': "d' = d\<lparr>tender_acl_entries :=
      map (\<lambda>r. if s = Some (r_tenant_id r) \<and> P r then soft_delete_row now r else r)
        (tender_acl_entries d)\<rparr>"
    by (rule soft_delete_where_result) blast
  from s assms(2) have ne: "s \<noteq> Some t" by auto
  have "filter (\<lambda>r. r_tenant_id r = t)
      (map (\<lambda>r. if s = Some (r_tenant_id r) \<and> P r then soft_delete_row now r else r) rs) =
      filter (\<lambda>r. r_tenant_id r = t) rs" for rs
    using ne by (induction rs) auto
  then show ?thesis by (simp add: d')
qed

end
