(* ===== verification/ProcessedEvents.thy ===== *)
theory ProcessedEvents
  imports RepositoryProps
begin

text \<open>
  The idempotency ledger, \<open>postgres/processed_events.go\<close>: one instance per consumer over the same
  pool as the repository, joined to an open transaction by \<open>withPool\<close>.
\<close>

section \<open>The methods\<close>

record 'r ProcessedEvents =
  pe_pool :: "'r pg_env"
  pe_consumer :: string

definition NewProcessedEvents :: "'r pg_env \<Rightarrow> string \<Rightarrow> 'r ProcessedEvents" where
  "NewProcessedEvents pool consumer = \<lparr>pe_pool = pool, pe_consumer = consumer\<rparr>"

definition is_processed_body ::
  "'r ProcessedEvents \<Rightarrow> uuid \<Rightarrow> pgx_tx \<Rightarrow> 'r world \<Rightarrow> 'r tx_result" where
  "is_processed_body r eventID tx w =
     (case send (pe_pool r) SelectEvent tx w
             (Inr (event_exists eventID (pe_consumer r) (db w))) of
        Inl err \<Rightarrow> (Some err, VBool False, w)
      | Inr exists \<Rightarrow> (None, VBool exists, w))"

definition IsProcessed ::
  "'r ProcessedEvents \<Rightarrow> ctx \<Rightarrow> uuid \<Rightarrow> 'r world \<Rightarrow> (go_error + bool) \<times> 'r world" where
  "IsProcessed r c eventID w =
     (case withPool (pe_pool r) c (is_processed_body r eventID) w of
        (Some err, _, w') \<Rightarrow> (Inl (Wrapped ''check processed_events: '' err), w')
      | (None, v, w') \<Rightarrow> (Inr (case v of VBool exists \<Rightarrow> exists | _ \<Rightarrow> False), w'))"

definition mark_processed_body ::
  "'r ProcessedEvents \<Rightarrow> uuid \<Rightarrow> pgx_tx \<Rightarrow> 'r world \<Rightarrow> 'r tx_result" where
  "mark_processed_body r eventID tx w =
     (case send (pe_pool r) InsertEvent tx w
             (Inr (insert_event (now_db w) eventID (pe_consumer r) (db w))) of
        Inl err \<Rightarrow> (Some err, VNone, w)
      | Inr d \<Rightarrow> (None, VNone, w\<lparr>db := d\<rparr>))"

definition MarkProcessed ::
  "'r ProcessedEvents \<Rightarrow> ctx \<Rightarrow> uuid \<Rightarrow> 'r world \<Rightarrow> go_error option \<times> 'r world" where
  "MarkProcessed r c eventID w =
     (case withPool (pe_pool r) c (mark_processed_body r eventID) w of
        (Some err, _, w') \<Rightarrow> (Some (Wrapped ''mark processed_events: '' err), w')
      | (None, _, w') \<Rightarrow> (None, w'))"

definition cleanup_body :: "'r ProcessedEvents \<Rightarrow> pgx_tx \<Rightarrow> 'r world \<Rightarrow> 'r tx_result" where
  "cleanup_body r tx w =
     (case send (pe_pool r) DeleteEvents tx w
             (Inr (delete_expired_events (now_db w) (pe_consumer r) (db w))) of
        Inl err \<Rightarrow> (Some err, VNone, w)
      | Inr (n, d) \<Rightarrow> (None, VCount (int n), w\<lparr>db := d\<rparr>))"

definition CleanupExpired ::
  "'r ProcessedEvents \<Rightarrow> ctx \<Rightarrow> 'r world \<Rightarrow> (go_error + int) \<times> 'r world" where
  "CleanupExpired r c w =
     (case withPool (pe_pool r) c (cleanup_body r) w of
        (Some err, _, w') \<Rightarrow> (Inl (Wrapped ''cleanup processed_events: '' err), w')
      | (None, v, w') \<Rightarrow> (Inr (case v of VCount deleted \<Rightarrow> deleted | _ \<Rightarrow> 0), w'))"

definition ledger_store :: "'r ProcessedEvents \<Rightarrow> 'r world IdempotencyStore" where
  "ledger_store r = \<lparr>is_IsProcessed = IsProcessed r, is_MarkProcessed = MarkProcessed r\<rparr>"

section \<open>Running a closure with withPool\<close>

lemma withPool_cases:
  assumes ok: "tx_contract pg" and clean: "clean (\<lambda>_. fn)" and run: "withPool pg c fn w = (r, v, w')"
  obtains (committed) tx where "r = None" "fn tx w = (None, v, w')"
  | (undone) e where "r = Some e" "w' = w"
  | (unknown) e tx where "r = Some e" "fn tx w = (None, v, w')"
proof (cases "ctx_tx c")
  case (Some tx)
  with run obtain r0 where r0: "fn tx w = (r0, v, w')" "r = wrapConnErr pg r0"
    by (auto simp: withPool_def TxFromContext_def wrap_result_eq)
  show thesis
  proof (cases r0)
    case None
    with r0 show thesis by (intro committed) auto
  next
    case (Some e)
    with r0 clean have "w' = w" by (auto simp: clean_def)
    moreover from Some r0 obtain e' where "r = Some e'" by (metis not_None_eq wrapConnErr_eq_None)
    ultimately show thesis by (intro undone)
  qed
next
  case None
  with run obtain r0 where r0: "RunInTx pg c (\<lambda>_. fn) w = (r0, v, w')" "r = wrapConnErr pg r0"
    by (auto simp: withPool_def TxFromContext_def wrap_result_eq)
  have out: "tx_outcome 1 c (\<lambda>_. fn) w (r0, v, w')"
    using tx_contract_once [OF ok, of c "\<lambda>_. fn" w] r0 by simp
  from clean have "db_only (\<lambda>_. fn)" by (simp add: clean_def)
  from out this show thesis
  proof (cases rule: tx_outcome_db_only)
    case (committed k)
    with r0 that(1) show thesis by (auto simp: run_attempt_def)
  next
    case (undone e)
    with r0 obtain e' where "r = Some e'" by (metis not_None_eq wrapConnErr_eq_None)
    with undone that(2) show thesis by blast
  next
    case (unknown e k)
    with r0 obtain e' where "r = Some e'" by (metis not_None_eq wrapConnErr_eq_None)
    with unknown that(3) show thesis by (auto simp: run_attempt_def)
  qed
qed

lemma clean_ledger_bodies:
  "clean (\<lambda>_. is_processed_body r ev)" "clean (\<lambda>_. mark_processed_body r ev)" "clean (\<lambda>_. cleanup_body r)"
  by (auto simp: clean_def db_only_def is_processed_body_def mark_processed_body_def cleanup_body_def
      split: sum.splits prod.splits)

section \<open>What the ledger does\<close>

definition only_events :: "'r world \<Rightarrow> 'r world \<Rightarrow> bool" where
  "only_events w w' \<longleftrightarrow> (\<exists>evs. w' = w\<lparr>db := (db w)\<lparr>processed_events := evs\<rparr>\<rparr>)"

definition seen_events :: "'r ProcessedEvents \<Rightarrow> 'r world \<Rightarrow> uuid set" where
  "seen_events r w = {ev. event_exists ev (pe_consumer r) (db w)}"

lemma only_events_refl [simp]: "only_events w w"
  unfolding only_events_def by (rule exI [of _ "processed_events (db w)"]) simp

lemma event_exists_insert:
  "event_exists ev c (insert_event now ev' c' d) \<longleftrightarrow> (ev = ev' \<and> c = c') \<or> event_exists ev c d"
  by (auto simp: insert_event_def event_exists_def)

lemma only_events_insert: "only_events w (w\<lparr>db := insert_event now ev c (db w)\<rparr>)"
  unfolding only_events_def insert_event_def
  by (cases "event_exists ev c (db w)") (auto intro: exI [of _ "processed_events (db w)"])

lemma IsProcessed_cases:
  assumes "tx_contract (pe_pool r)" "IsProcessed r c ev w = (res, w')"
  shows "w' = w \<and> (\<forall>b. res = Inr b \<longrightarrow> b = (ev \<in> seen_events r w))"
proof -
  obtain r0 v where run: "withPool (pe_pool r) c (is_processed_body r ev) w = (r0, v, w')"
    and res: "res = (case r0 of Some err \<Rightarrow> Inl (Wrapped ''check processed_events: '' err)
      | None \<Rightarrow> Inr (case v of VBool b \<Rightarrow> b | _ \<Rightarrow> False))"
    using assms(2) by (auto simp: IsProcessed_def split: prod.splits option.splits)
  from assms(1) clean_ledger_bodies(1) run show ?thesis
    by (cases rule: withPool_cases)
      (use res in \<open>auto simp: is_processed_body_def send_def seen_events_def split: option.splits\<close>)
qed

lemma MarkProcessed_cases:
  assumes "tx_contract (pe_pool r)" "MarkProcessed r c ev w = (res, w')"
  shows "(res \<noteq> None \<and> w' = w) \<or> w' = w\<lparr>db := insert_event (now_db w) ev (pe_consumer r) (db w)\<rparr>"
proof -
  obtain r0 v where run: "withPool (pe_pool r) c (mark_processed_body r ev) w = (r0, v, w')"
    and res: "res = map_option (Wrapped ''mark processed_events: '') r0"
    using assms(2) by (auto simp: MarkProcessed_def split: prod.splits option.splits)
  from assms(1) clean_ledger_bodies(2) run show ?thesis
    by (cases rule: withPool_cases)
      (use res in \<open>auto simp: mark_processed_body_def send_def split: option.splits\<close>)
qed

lemma CleanupExpired_cases:
  assumes "tx_contract (pe_pool r)" "CleanupExpired r c w = (res, w')"
  shows "((\<exists>e. res = Inl e) \<and> w' = w) \<or>
    (w' = w\<lparr>db := snd (delete_expired_events (now_db w) (pe_consumer r) (db w))\<rparr> \<and>
     (\<forall>k. res = Inr k \<longrightarrow> k = int (fst (delete_expired_events (now_db w) (pe_consumer r) (db w)))))"
proof -
  obtain r0 v where run: "withPool (pe_pool r) c (cleanup_body r) w = (r0, v, w')"
    and res: "res = (case r0 of Some err \<Rightarrow> Inl (Wrapped ''cleanup processed_events: '' err)
      | None \<Rightarrow> Inr (case v of VCount b \<Rightarrow> b | _ \<Rightarrow> 0))"
    using assms(2) by (auto simp: CleanupExpired_def split: prod.splits option.splits)
  from assms(1) clean_ledger_bodies(3) run show ?thesis
    by (cases rule: withPool_cases)
      (use res in \<open>auto simp: cleanup_body_def send_def split: option.splits prod.splits\<close>)
qed

lemma seen_after_insert:
  "seen_events r (w\<lparr>db := insert_event now ev (pe_consumer r) (db w)\<rparr>) = insert ev (seen_events r w)"
  by (auto simp: seen_events_def event_exists_insert)

interpretation ledger: idempotency_store "\<lambda>r. pg_ok (pe_pool r)" ledger_store seen_events only_events
proof (unfold_locales, goal_cases)
  case (1 e c ev w b w')
  then show ?case
    using IsProcessed_cases [of e c ev w "Inr b" w'] by (simp add: ledger_store_def pg_ok_def)
next
  case (2 e c ev w er w')
  then show ?case
    using IsProcessed_cases [of e c ev w "Inl er" w'] by (simp add: ledger_store_def pg_ok_def)
next
  case (3 e c ev w w')
  then show ?case
    using MarkProcessed_cases [of e c ev w None w']
    by (auto simp: ledger_store_def pg_ok_def seen_after_insert only_events_insert)
next
  case (4 e c ev w er w')
  then show ?case
    using MarkProcessed_cases [of e c ev w "Some er" w']
    by (auto simp: ledger_store_def pg_ok_def seen_after_insert only_events_insert)
qed

section \<open>Retention\<close>

text \<open>Cleanup removes this consumer's rows past eight days, and nothing else.\<close>

lemma cleanup_exact:
  "processed_events (snd (delete_expired_events now c d)) =
     filter (\<lambda>p. p_consumer p \<noteq> c \<or> now - 8 * Day \<le> p_processed_at p) (processed_events d)"
  "tender_acl_entries (snd (delete_expired_events now c d)) = tender_acl_entries d"
  by (auto simp: delete_expired_events_def Let_def not_less intro!: filter_cong)

lemma ledger_keeps_inv:
  assumes "tx_contract (pe_pool r)"
  shows "IsProcessed r c ev w = (x, w') \<Longrightarrow> schema_inv (db w) \<Longrightarrow> schema_inv (db w')"
    and "MarkProcessed r c ev w = (y, w') \<Longrightarrow> schema_inv (db w) \<Longrightarrow> schema_inv (db w')"
    and "CleanupExpired r c w = (z, w') \<Longrightarrow> schema_inv (db w) \<Longrightarrow> schema_inv (db w')"
  using IsProcessed_cases [OF assms] MarkProcessed_cases [OF assms] CleanupExpired_cases [OF assms]
  by (fastforce intro: insert_event_inv delete_expired_events_inv)+

end
