(* ===== verification/Consumers.thy ===== *)
theory Consumers
  imports ProcessedEvents
begin

text \<open>
  The two event consumers, \<open>internal/adapter/inbound/consumer\<close>: \<open>dedup.go\<close>,
  \<open>offboarding_consumer.go\<close> and \<open>member_removal_consumer.go\<close>.  The consumers are written over their
  ports; the locale \<open>cascades\<close> states what they rely on and has the facts on atomicity and redelivery,
  \<open>offboarding_cascade\<close> and \<open>member_removal_cascade\<close> extend it with the two handlers, and both are
  interpreted on the Postgres repository, ledger and transaction runner.
\<close>

section \<open>dedup.go\<close>

text \<open>The functions of the uuid package and of pgcommon that the consumers call.\<close>

record go_lib =
  lib_Parse :: "string \<Rightarrow> go_error + uuid"
  lib_String :: "uuid \<Rightarrow> string"
  lib_WithValidatedGUCSet :: "string \<Rightarrow> go_error option"

text \<open>\<open>events.Envelope\<close>: the fields the handlers read.\<close>

record Envelope =
  env_ID :: string
  env_Type :: string
  env_TenantID :: string
  env_Subject :: string

definition offboardingConsumerName :: string where
  "offboardingConsumerName = ''tenant_lifecycle_cleanup''"

definition memberRemovalConsumerName :: string where
  "memberRemovalConsumerName = ''member_removal''"

definition skipDuplicate ::
  "ctx \<Rightarrow> 'w IdempotencyStore \<Rightarrow> ('w, 'm) event_metrics_scheme \<Rightarrow> string \<Rightarrow> uuid \<Rightarrow> 'w \<Rightarrow> (go_error + bool) \<times> 'w" where
  "skipDuplicate c dedup metrics consumer eventID w =
     (case is_IsProcessed dedup c eventID w of
        (Inl err, w) \<Rightarrow> (Inl err, w)
      | (Inr processed, w) \<Rightarrow>
          if processed
          then (Inr True, em_RecordProcessedEventsDuplicate metrics c consumer w)
          else (Inr False, w))"

definition markProcessedInTx ::
  "ctx \<Rightarrow> 'w TxRunner \<Rightarrow> 'w IdempotencyStore \<Rightarrow> uuid \<Rightarrow> 'w \<Rightarrow> go_error option \<times> 'w" where
  "markProcessedInTx c tx dedup eventID w =
     tx_RunInTx tx c
       (\<lambda>txCtx w.
          case is_MarkProcessed dedup txCtx eventID w of
            (Some err, w) \<Rightarrow> (Some (Wrapped ''mark processed: '' err), w)
          | (None, w) \<Rightarrow> (None, w)) w"

text \<open>The dash in the log message, as UTF-8.\<close>

definition em_dash :: string where
  "em_dash = [CHR 0xE2, CHR 0x80, CHR 0x94]"

definition ackUnknown ::
  "go_lib \<Rightarrow> ctx \<Rightarrow> 'w TxRunner \<Rightarrow> 'w IdempotencyStore \<Rightarrow> ('w, 'm) event_metrics_scheme \<Rightarrow> 'w SlogStyleLogger
    \<Rightarrow> string \<Rightarrow> Envelope \<Rightarrow> 'w \<Rightarrow> go_error option \<times> 'w" where
  "ackUnknown lib c tx dedup metrics logger queue env w =
     (let w = em_RecordUnexpectedEventType metrics c queue (env_Type env) w;
          w = WarnContext logger c (''unknown event type '' @ em_dash @ '' silently acknowledging'')
                [AString ''queue'', AString queue, AString ''event_type'', AString (env_Type env),
                 AString ''event_id'', AString (env_ID env)] w
      in case lib_Parse lib (env_ID env) of
           Inl err \<Rightarrow> (None, w)
         | Inr eventID \<Rightarrow> markProcessedInTx c tx dedup eventID w)"

definition withTenantGUC :: "go_lib \<Rightarrow> ctx \<Rightarrow> uuid \<Rightarrow> go_error + ctx" where
  "withTenantGUC lib c tenantID =
     (case lib_WithValidatedGUCSet lib (lib_String lib tenantID) of
        Some err \<Rightarrow> Inl err
      | None \<Rightarrow> Inr (c\<lparr>ctx_guc := Some (lib_String lib tenantID)\<rparr>))"

section \<open>offboarding_consumer.go\<close>

definition tenantMembershipsPurgedEventType :: string where
  "tenantMembershipsPurgedEventType = ''TenantMembershipsPurged''"

definition tenantLifecycleQueueName :: string where
  "tenantLifecycleQueueName = ''tenant-lifecycle-tenderacl-q''"

text \<open>The field \<open>repo\<close> is the one-method interface \<open>CascadeDeleter\<close>.\<close>

record 'w OffboardingConsumer =
  oc_repo :: "ctx \<Rightarrow> uuid \<Rightarrow> 'w \<Rightarrow> (go_error + int) \<times> 'w"
  oc_idempotency :: "'w IdempotencyStore"
  oc_tx :: "'w TxRunner"
  oc_metrics :: "'w CascadeMetrics"
  oc_logger :: "'w SlogStyleLogger"
  oc_tracer :: Tracer

definition offboarding_tx ::
  "go_lib \<Rightarrow> 'w OffboardingConsumer \<Rightarrow> 'w SlogStyleLogger \<Rightarrow> uuid \<Rightarrow> uuid \<Rightarrow> ctx \<Rightarrow> 'w
    \<Rightarrow> go_error option \<times> 'w" where
  "offboarding_tx lib oc logger tenantID eventID txCtx w =
     (case oc_repo oc txCtx tenantID w of
        (Inl err, w) \<Rightarrow>
          (Some (Wrapped (''offboardingconsumer: cascade delete for tenant '' @
                    lib_String lib tenantID @ '': '') err),
           cm_RecordCascade (oc_metrics oc) txCtx ''error'' w)
      | (Inr deleted, w) \<Rightarrow>
          (case is_MarkProcessed (oc_idempotency oc) txCtx eventID w of
             (Some err, w) \<Rightarrow>
               (Some (Wrapped (''offboardingconsumer: mark event '' @ lib_String lib eventID @
                         '' processed: '') err), w)
           | (None, w) \<Rightarrow>
               (let w = cm_RecordCascade (oc_metrics oc) txCtx ''success'' w;
                    w = InfoContext logger txCtx ''tenant offboarding cascade complete''
                          [AString ''deleted'', AInt deleted] w
                in (None, w))))"

definition OffboardingConsumer_Handle ::
  "go_lib \<Rightarrow> 'w OffboardingConsumer \<Rightarrow> ctx \<Rightarrow> Envelope \<Rightarrow> 'w \<Rightarrow> go_error option \<times> 'w" where
  "OffboardingConsumer_Handle lib oc c env w =
     (let c = Start (oc_tracer oc) c ''OffboardingConsumer.Handle'' in
      if env_Type env \<noteq> [] \<and> env_Type env \<noteq> tenantMembershipsPurgedEventType
      then (case ackUnknown lib c (oc_tx oc) (oc_idempotency oc) (oc_metrics oc) (oc_logger oc)
                   tenantLifecycleQueueName env w of
              (Some err, w) \<Rightarrow> (Some (Wrapped ''offboardingconsumer: '' err), w)
            | (None, w) \<Rightarrow> (None, w))
      else
        (case lib_Parse lib (env_ID env) of
           Inl err \<Rightarrow>
             (Some (Wrapped (''offboardingconsumer: envelope missing/invalid event id '' @
                       Quote (env_ID env) @ '': '') err), w)
         | Inr eventID \<Rightarrow>
        (case lib_Parse lib (env_TenantID env) of
           Inl err \<Rightarrow>
             (Some (Wrapped (''offboardingconsumer: envelope missing/invalid tenant_id '' @
                       Quote (env_TenantID env) @ '': '') err), w)
         | Inr tenantID \<Rightarrow>
        (let logger = With (oc_logger oc)
               [AString ''tenant_id'', AString (lib_String lib tenantID),
                AString ''event_id'', AString (lib_String lib eventID)] in
         case skipDuplicate c (oc_idempotency oc) (oc_metrics oc) offboardingConsumerName eventID w of
           (Inl err, w) \<Rightarrow>
             (Some (Wrapped (''offboardingconsumer: check idempotency for event '' @
                       lib_String lib eventID @ '': '') err), w)
         | (Inr processed, w) \<Rightarrow>
             if processed
             then (None, InfoContext logger c
                           ''duplicate TenantMembershipsPurged delivery, skipping cascade'' [] w)
             else
               (case withTenantGUC lib c tenantID of
                  Inl err \<Rightarrow>
                    (Some (Wrapped (''offboardingconsumer: bind tenant GUC for '' @
                              lib_String lib tenantID @ '': '') err), w)
                | Inr gucCtx \<Rightarrow>
                    tx_RunInTx (oc_tx oc) gucCtx (offboarding_tx lib oc logger tenantID eventID) w)))))"

section \<open>member_removal_consumer.go\<close>

definition membershipRevokedEventType :: string where
  "membershipRevokedEventType = ''MembershipRevoked''"

definition memberRemovalQueueName :: string where
  "memberRemovalQueueName = ''member-removal-tenderacl-q''"

text \<open>The field \<open>repo\<close> is the one-method interface \<open>UserRemovalCascader\<close>.\<close>

record 'w MemberRemovalConsumer =
  mr_repo :: "ctx \<Rightarrow> uuid \<Rightarrow> uuid \<Rightarrow> 'w \<Rightarrow> (go_error + int) \<times> 'w"
  mr_idempotency :: "'w IdempotencyStore"
  mr_tx :: "'w TxRunner"
  mr_metrics :: "'w MemberRemovalMetrics"
  mr_logger :: "'w SlogStyleLogger"
  mr_tracer :: Tracer

definition member_removal_tx ::
  "go_lib \<Rightarrow> 'w MemberRemovalConsumer \<Rightarrow> 'w SlogStyleLogger \<Rightarrow> uuid \<Rightarrow> uuid \<Rightarrow> uuid \<Rightarrow> ctx \<Rightarrow> 'w
    \<Rightarrow> go_error option \<times> 'w" where
  "member_removal_tx lib mr logger tenantID userID eventID txCtx w =
     (case mr_repo mr txCtx tenantID userID w of
        (Inl err, w) \<Rightarrow>
          (Some (Wrapped (''memberremovalconsumer: soft delete for user '' @ lib_String lib userID @
                    '' in tenant '' @ lib_String lib tenantID @ '': '') err),
           mm_RecordMemberRemovalCascade (mr_metrics mr) txCtx ''error'' w)
      | (Inr deleted, w) \<Rightarrow>
          (case is_MarkProcessed (mr_idempotency mr) txCtx eventID w of
             (Some err, w) \<Rightarrow>
               (Some (Wrapped (''memberremovalconsumer: mark event '' @ lib_String lib eventID @
                         '' processed: '') err), w)
           | (None, w) \<Rightarrow>
               (let w = mm_RecordMemberRemovalCascade (mr_metrics mr) txCtx ''success'' w;
                    w = InfoContext logger txCtx ''member removal ACL cascade complete''
                          [AString ''deleted'', AInt deleted] w
                in (None, w))))"

definition MemberRemovalConsumer_Handle ::
  "go_lib \<Rightarrow> 'w MemberRemovalConsumer \<Rightarrow> ctx \<Rightarrow> Envelope \<Rightarrow> 'w \<Rightarrow> go_error option \<times> 'w" where
  "MemberRemovalConsumer_Handle lib mr c env w =
     (let c = Start (mr_tracer mr) c ''MemberRemovalConsumer.Handle'' in
      if env_Type env \<noteq> [] \<and> env_Type env \<noteq> membershipRevokedEventType
      then (case ackUnknown lib c (mr_tx mr) (mr_idempotency mr) (mr_metrics mr) (mr_logger mr)
                   memberRemovalQueueName env w of
              (Some err, w) \<Rightarrow> (Some (Wrapped ''memberremovalconsumer: '' err), w)
            | (None, w) \<Rightarrow> (None, w))
      else
        (case lib_Parse lib (env_ID env) of
           Inl err \<Rightarrow>
             (Some (Wrapped (''memberremovalconsumer: envelope missing/invalid event id '' @
                       Quote (env_ID env) @ '': '') err), w)
         | Inr eventID \<Rightarrow>
        (case lib_Parse lib (env_TenantID env) of
           Inl err \<Rightarrow>
             (Some (Wrapped (''memberremovalconsumer: envelope missing/invalid tenant_id '' @
                       Quote (env_TenantID env) @ '': '') err), w)
         | Inr tenantID \<Rightarrow>
        (case lib_Parse lib (env_Subject env) of
           Inl err \<Rightarrow>
             (Some (Wrapped (''memberremovalconsumer: envelope missing/invalid subject (user_id) '' @
                       Quote (env_Subject env) @ '': '') err), w)
         | Inr userID \<Rightarrow>
        (let logger = With (mr_logger mr)
               [AString ''tenant_id'', AString (lib_String lib tenantID),
                AString ''user_id'', AString (lib_String lib userID),
                AString ''event_id'', AString (lib_String lib eventID)] in
         case skipDuplicate c (mr_idempotency mr) (mr_metrics mr) memberRemovalConsumerName eventID w of
           (Inl err, w) \<Rightarrow>
             (Some (Wrapped (''memberremovalconsumer: check idempotency for event '' @
                       lib_String lib eventID @ '': '') err), w)
         | (Inr processed, w) \<Rightarrow>
             if processed
             then (None, InfoContext logger c
                           ''duplicate MembershipRevoked delivery, skipping cascade'' [] w)
             else
               (case withTenantGUC lib c tenantID of
                  Inl err \<Rightarrow>
                    (Some (Wrapped (''memberremovalconsumer: bind tenant GUC for '' @
                              lib_String lib tenantID @ '': '') err), w)
                | Inr gucCtx \<Rightarrow>
                    tx_RunInTx (mr_tx mr) gucCtx
                      (member_removal_tx lib mr logger tenantID userID eventID) w))))))"

section \<open>What the consumers rely on\<close>

locale cascades =
  acl_repository ok repo scope entries clock untouched +
  idempotency_store ok store seen marked +
  tx_runner ok runner tables opened
  for ok :: "'e \<Rightarrow> bool" and repo :: "'e \<Rightarrow> 'w TenderACLRepository"
    and scope :: "'e \<Rightarrow> ctx \<Rightarrow> uuid \<Rightarrow> bool" and entries :: "'w \<Rightarrow> TenderACLEntry list"
    and clock :: "'w \<Rightarrow> instant" and untouched :: "'w \<Rightarrow> 'w \<Rightarrow> bool"
    and store :: "'e \<Rightarrow> 'w IdempotencyStore" and seen :: "'e \<Rightarrow> 'w \<Rightarrow> uuid set"
    and marked :: "'w \<Rightarrow> 'w \<Rightarrow> bool" and runner :: "'e \<Rightarrow> 'w TxRunner"
    and tables :: "'w \<Rightarrow> 'd" and opened :: "ctx \<Rightarrow> ctx \<Rightarrow> bool" +
  fixes lib :: "'e \<Rightarrow> go_lib" and metrics :: "('w, 'm) event_metrics_scheme" and logger :: "'w SlogStyleLogger"
  assumes entries_tables: "tables w1 = tables w \<Longrightarrow> entries w1 = entries w"
    and seen_tables: "tables w1 = tables w \<Longrightarrow> seen e w1 = seen e w"
    and untouched_seen: "untouched w w' \<Longrightarrow> seen e w' = seen e w"
    and marked_entries: "marked w w' \<Longrightarrow> entries w' = entries w"
    and opened_scope: "opened (c\<lparr>ctx_guc := Some (lib_String (lib e) t)\<rparr>) c' \<Longrightarrow> scope e c' t"
    and metrics_quiet: "tables (em_RecordUnexpectedEventType metrics c q ty w) = tables w"
      "tables (em_RecordProcessedEventsDuplicate metrics c cons w) = tables w"
    and logger_quiet: "tables (log4 (With logger base) c level msg args b w) = tables w"
begin

lemma plain_logger_quiet: "tables (log4 logger c level msg args b w) = tables w"
  using logger_quiet [of "[]"] by (simp add: With_Nil)

lemmas quiet = metrics_quiet logger_quiet plain_logger_quiet

text \<open>Nothing that a handler can observe of the tables has changed.\<close>

lemma same_tables: "tables w' = tables w \<Longrightarrow> entries w' = entries w \<and> seen e w' = seen e w"
  using entries_tables seen_tables by blast

text \<open>IDEMP-2: the cascade and the mark are applied together or not at all.\<close>

lemma cascade_tx:
  assumes "ok e"
    and fn: "\<forall>c' w w'. scope e c' t \<longrightarrow> fn c' w = (None, w') \<longrightarrow>
      (\<exists>now. entries w' = f now (entries w) \<and> seen e w' = insert ev (seen e w))"
    and run: "tx_RunInTx (runner e) (c\<lparr>ctx_guc := Some (lib_String (lib e) t)\<rparr>) fn w = (r, w')"
  shows "(r \<noteq> None \<and> entries w' = entries w \<and> seen e w' = seen e w) \<or>
    (\<exists>now. entries w' = f now (entries w) \<and> seen e w' = insert ev (seen e w))"
proof -
  let ?c = "c\<lparr>ctx_guc := Some (lib_String (lib e) t)\<rparr>"
  have "(r \<noteq> None \<and> tables w' = tables w) \<or>
      (\<exists>c' w1. opened ?c c' \<and> tables w1 = tables w \<and> fn c' w1 = (None, w'))"
    using run_done [OF assms(1)] run_failed [OF assms(1)] run by (cases r) fastforce+
  then show ?thesis
  proof (elim disjE conjE exE)
    assume "r \<noteq> None" "tables w' = tables w"
    then show ?thesis using same_tables by blast
  next
    fix c' w1
    assume c': "opened ?c c'" and w1: "tables w1 = tables w" and ran: "fn c' w1 = (None, w')"
    with fn opened_scope [OF c'] same_tables [OF w1, of e] show ?thesis by metis
  qed
qed

lemma skipDuplicate_cases:
  assumes "ok e" "skipDuplicate c (store e) metrics cons ev w = (r, w')"
  shows "tables w' = tables w" "r = Inr b \<Longrightarrow> b = (ev \<in> seen e w)"
proof -
  obtain r0 w0 where run: "is_IsProcessed (store e) c ev w = (r0, w0)" by fastforce
  have w0: "w0 = w" "\<And>b. r0 = Inr b \<Longrightarrow> b = (ev \<in> seen e w)"
    using is_done [OF assms(1)] is_failed [OF assms(1)] run by (cases r0; fastforce)+
  from assms(2) run w0(1) show "tables w' = tables w"
    by (auto simp: skipDuplicate_def quiet split: sum.splits if_splits)
  from assms(2) run w0 show "r = Inr b \<Longrightarrow> b = (ev \<in> seen e w)"
    by (auto simp: skipDuplicate_def split: sum.splits if_splits)
qed

text \<open>The common tail of the two handlers: probe the ledger, bind the tenant, run the transaction.\<close>

lemma probe_cascade:
  assumes "ok e"
    and fn: "\<forall>c' w w'. scope e c' t \<longrightarrow> fn c' w = (None, w') \<longrightarrow>
      (\<exists>now. entries w' = f now (entries w) \<and> seen e w' = insert ev (seen e w))"
    and run: "(case skipDuplicate c (store e) metrics cons ev w of
        (Inl err, w) \<Rightarrow> (Some (E1 err), w)
      | (Inr processed, w) \<Rightarrow>
          if processed then (None, InfoContext (With logger base) c msg args w)
          else (case withTenantGUC (lib e) c t of
                  Inl err \<Rightarrow> (Some (E2 err), w)
                | Inr gucCtx \<Rightarrow> tx_RunInTx (runner e) gucCtx fn w)) = (r, w')"
  shows "(entries w' = entries w \<and> seen e w' = seen e w \<and> (r = None \<longrightarrow> ev \<in> seen e w)) \<or>
    (ev \<notin> seen e w \<and> seen e w' = insert ev (seen e w) \<and> (\<exists>now. entries w' = f now (entries w)))"
proof -
  obtain p w0 where probe: "skipDuplicate c (store e) metrics cons ev w = (p, w0)" by fastforce
  note dup = skipDuplicate_cases [OF assms(1) probe]
  have same0: "entries w0 = entries w" "seen e w0 = seen e w" using same_tables [OF dup(1)] by auto
  consider (err) er where "p = Inl er" | (dup) "p = Inr True" | (fresh) "p = Inr False"
    by (metis sumE)
  then show ?thesis
  proof cases
    case err
    with run probe same0 show ?thesis by auto
  next
    case dup
    with run probe have "tables w' = tables w0" by (auto simp: log_defs quiet)
    with same0 dup skipDuplicate_cases(2) [OF assms(1) probe] show ?thesis
      using same_tables [of w' w0 e] by auto
  next
    case fresh
    with skipDuplicate_cases(2) [OF assms(1) probe] have new: "ev \<notin> seen e w" by auto
    show ?thesis
    proof (cases "lib_WithValidatedGUCSet (lib e) (lib_String (lib e) t)")
      case (Some err)
      with fresh run probe same0 show ?thesis by (auto simp: withTenantGUC_def)
    next
      case None
      with fresh run probe have
        "tx_RunInTx (runner e) (c\<lparr>ctx_guc := Some (lib_String (lib e) t)\<rparr>) fn w0 = (r, w')"
        by (auto simp: withTenantGUC_def)
      from cascade_tx [OF assms(1) fn this] same0 new show ?thesis by auto
    qed
  qed
qed

text \<open>An event type without a handler is acked: marked when its id can be stored, never cascaded.\<close>

lemma ackUnknown_cases:
  assumes "ok e" and run: "ackUnknown (lib e) c (runner e) (store e) metrics logger q env w = (r, w')"
  shows "entries w' = entries w"
    and "case lib_Parse (lib e) (env_ID env) of
      Inl err \<Rightarrow> r = None \<and> seen e w' = seen e w
    | Inr ev \<Rightarrow> (r \<noteq> None \<and> seen e w' = seen e w) \<or> seen e w' = insert ev (seen e w)"
proof -
  define w0 where "w0 = WarnContext logger c (''unknown event type '' @ em_dash @ '' silently acknowledging'')
    [AString ''queue'', AString q, AString ''event_type'', AString (env_Type env),
     AString ''event_id'', AString (env_ID env)]
    (em_RecordUnexpectedEventType metrics c q (env_Type env) w)"
  let ?fn = "\<lambda>ev txCtx w. case is_MarkProcessed (store e) txCtx ev w of
    (Some err, w) \<Rightarrow> (Some (Wrapped ''mark processed: '' err), w) | (None, w) \<Rightarrow> (None, w)"
  have w0: "tables w0 = tables w" by (simp add: w0_def log_defs quiet)
  have fn: "entries w2 = entries w1 \<and> seen e w2 = insert ev (seen e w1)"
    if "?fn ev c' w1 = (None, w2)" for ev c' w1 w2
    using that mark_done [OF assms(1), of c' ev w1 w2] marked_entries [of w1 w2]
    by (auto split: prod.splits option.splits)
  have "entries w' = entries w \<and> (case lib_Parse (lib e) (env_ID env) of
      Inl err \<Rightarrow> r = None \<and> seen e w' = seen e w
    | Inr ev \<Rightarrow> (r \<noteq> None \<and> seen e w' = seen e w) \<or> seen e w' = insert ev (seen e w))"
  proof (cases "lib_Parse (lib e) (env_ID env)")
    case (Inl err)
    with run have "r = None" "w' = w0" by (simp_all add: ackUnknown_def w0_def)
    with Inl same_tables [OF w0] show ?thesis by simp
  next
    case (Inr ev)
    with run have "tx_RunInTx (runner e) c (?fn ev) w0 = (r, w')"
      by (simp add: ackUnknown_def w0_def markProcessedInTx_def Let_def)
    then have "(r \<noteq> None \<and> tables w' = tables w0) \<or>
        (\<exists>c' w1. tables w1 = tables w0 \<and> ?fn ev c' w1 = (None, w'))"
      using run_done [OF assms(1), of c "?fn ev" w0 w'] run_failed [OF assms(1), of c "?fn ev" w0 _ w']
      by (cases r) blast+
    then show ?thesis
      using Inr fn same_tables [of _ w0 e] same_tables [OF w0, of e] by fastforce
  qed
  then show "entries w' = entries w"
    and "case lib_Parse (lib e) (env_ID env) of
      Inl err \<Rightarrow> r = None \<and> seen e w' = seen e w
    | Inr ev \<Rightarrow> (r \<noteq> None \<and> seen e w' = seen e w) \<or> seen e w' = insert ev (seen e w)"
    by blast+
qed

end

text \<open>The two handlers, each with its own counter of cascades.\<close>

locale offboarding_cascade =
  cascades ok repo scope entries clock untouched store seen marked runner tables opened lib metrics logger
  for ok :: "'e \<Rightarrow> bool" and repo :: "'e \<Rightarrow> 'w TenderACLRepository"
    and scope entries clock untouched store seen marked runner and tables :: "'w \<Rightarrow> 'd" and opened lib
    and metrics :: "'w CascadeMetrics" and logger +
  assumes cascade_quiet: "tables (cm_RecordCascade metrics c res w) = tables w"
begin

lemma offboarding_tx_ok:
  assumes "ok e" "scope e c t"
    and "oc_repo oc = repo_CascadeDeleteForTenant (repo e)" "oc_idempotency oc = store e"
      "oc_metrics oc = metrics"
    and "offboarding_tx l oc (With logger base) t ev c w = (None, w')"
  shows "entries w' = spec_offboard t (entries w) \<and> seen e w' = insert ev (seen e w)"
proof -
  from assms(3-6) obtain k w1 w2 where
    del: "repo_CascadeDeleteForTenant (repo e) c t w = (Inr k, w1)"
    and mark: "is_MarkProcessed (store e) c ev w1 = (None, w2)"
    and w': "w' = InfoContext (With logger base) c ''tenant offboarding cascade complete''
      [AString ''deleted'', AInt k] (cm_RecordCascade metrics c ''success'' w2)"
    by (auto simp: offboarding_tx_def Let_def split: prod.splits sum.splits option.splits)
  have "tables w' = tables w2" by (simp add: w' log_defs quiet cascade_quiet)
  with cascade_done [OF assms(1,2) del] mark_done [OF assms(1) mark] same_tables [of w' w2 e]
  show ?thesis using untouched_seen marked_entries by metis
qed

lemma offboarding_known:
  assumes "ok e"
    and wired: "oc_repo oc = repo_CascadeDeleteForTenant (repo e)" "oc_idempotency oc = store e"
      "oc_tx oc = runner e" "oc_metrics oc = metrics" "oc_logger oc = logger"
    and env: "env_Type env = [] \<or> env_Type env = tenantMembershipsPurgedEventType"
      "lib_Parse (lib e) (env_ID env) = Inr ev" "lib_Parse (lib e) (env_TenantID env) = Inr t"
    and run: "OffboardingConsumer_Handle (lib e) oc c env w = (r, w')"
  shows "(entries w' = entries w \<and> seen e w' = seen e w \<and> (r = None \<longrightarrow> ev \<in> seen e w)) \<or>
    (ev \<notin> seen e w \<and> seen e w' = insert ev (seen e w) \<and> entries w' = spec_offboard t (entries w))"
proof -
  have fn: "\<forall>c' w w'. scope e c' t \<longrightarrow>
      offboarding_tx (lib e) oc (With logger base) t ev c' w = (None, w') \<longrightarrow>
      (\<exists>now :: nat. entries w' = spec_offboard t (entries w) \<and> seen e w' = insert ev (seen e w))" for base
    using offboarding_tx_ok [OF assms(1) _ wired(1,2,4)] by blast
  have known: "(env_Type env \<noteq> [] \<and> env_Type env \<noteq> tenantMembershipsPurgedEventType) = False"
    using env(1) by auto
  note run' = run [unfolded OffboardingConsumer_Handle_def Let_def known if_False wired env(2,3) sum.case]
  from probe_cascade [OF assms(1), where f = "\<lambda>_. spec_offboard t", OF fn run'] show ?thesis by blast
qed

end

locale member_removal_cascade =
  cascades ok repo scope entries clock untouched store seen marked runner tables opened lib metrics logger
  for ok :: "'e \<Rightarrow> bool" and repo :: "'e \<Rightarrow> 'w TenderACLRepository"
    and scope entries clock untouched store seen marked runner and tables :: "'w \<Rightarrow> 'd" and opened lib
    and metrics :: "'w MemberRemovalMetrics" and logger +
  assumes removal_quiet: "tables (mm_RecordMemberRemovalCascade metrics c res w) = tables w"
begin

lemma member_removal_tx_ok:
  assumes "ok e" "scope e c t"
    and "mr_repo mr = repo_SoftDeleteForUser (repo e)" "mr_idempotency mr = store e"
      "mr_metrics mr = metrics"
    and "member_removal_tx l mr (With logger base) t u ev c w = (None, w')"
  shows "entries w' = spec_remove_user (clock w) t u (entries w) \<and> seen e w' = insert ev (seen e w)"
proof -
  from assms(3-6) obtain k w1 w2 where
    del: "repo_SoftDeleteForUser (repo e) c t u w = (Inr k, w1)"
    and mark: "is_MarkProcessed (store e) c ev w1 = (None, w2)"
    and w': "w' = InfoContext (With logger base) c ''member removal ACL cascade complete''
      [AString ''deleted'', AInt k] (mm_RecordMemberRemovalCascade metrics c ''success'' w2)"
    by (auto simp: member_removal_tx_def Let_def split: prod.splits sum.splits option.splits)
  have "tables w' = tables w2" by (simp add: w' log_defs quiet removal_quiet)
  with remove_done [OF assms(1,2) del] mark_done [OF assms(1) mark] same_tables [of w' w2 e]
  show ?thesis using untouched_seen marked_entries by metis
qed

lemma member_removal_known:
  assumes "ok e"
    and wired: "mr_repo mr = repo_SoftDeleteForUser (repo e)" "mr_idempotency mr = store e"
      "mr_tx mr = runner e" "mr_metrics mr = metrics" "mr_logger mr = logger"
    and env: "env_Type env = [] \<or> env_Type env = membershipRevokedEventType"
      "lib_Parse (lib e) (env_ID env) = Inr ev" "lib_Parse (lib e) (env_TenantID env) = Inr t"
      "lib_Parse (lib e) (env_Subject env) = Inr u"
    and run: "MemberRemovalConsumer_Handle (lib e) mr c env w = (r, w')"
  shows "(entries w' = entries w \<and> seen e w' = seen e w \<and> (r = None \<longrightarrow> ev \<in> seen e w)) \<or>
    (ev \<notin> seen e w \<and> seen e w' = insert ev (seen e w) \<and>
     (\<exists>now. entries w' = spec_remove_user now t u (entries w)))"
proof -
  have fn: "\<forall>c' w w'. scope e c' t \<longrightarrow>
      member_removal_tx (lib e) mr (With logger base) t u ev c' w = (None, w') \<longrightarrow>
      (\<exists>now. entries w' = spec_remove_user now t u (entries w) \<and> seen e w' = insert ev (seen e w))" for base
    using member_removal_tx_ok [OF assms(1) _ wired(1,2,4)] by blast
  have known: "(env_Type env \<noteq> [] \<and> env_Type env \<noteq> membershipRevokedEventType) = False"
    using env(1) by auto
  note run' = run [unfolded MemberRemovalConsumer_Handle_def Let_def known if_False wired env(2-4) sum.case]
  from probe_cascade [OF assms(1), where f = "\<lambda>now. spec_remove_user now t u", OF fn run'] show ?thesis by blast
qed

end

section \<open>The consumers on Postgres\<close>

text \<open>The wiring of \<open>cmd/tender-acl/main.go\<close>.\<close>

definition pg_lib :: "'r pg_env \<Rightarrow> go_lib" where
  "pg_lib pg = \<lparr>lib_Parse = uuid_Parse pg, lib_String = uuid_String pg,
                lib_WithValidatedGUCSet = WithValidatedGUCSet pg\<rparr>"

definition NewTxRunner :: "'r pg_env \<Rightarrow> 'r world TxRunner" where
  "NewTxRunner pg = \<lparr>tx_RunInTx = TxRunner_RunInTx pg\<rparr>"

definition offboarding_metrics :: "'r world CascadeMetrics" where
  "offboarding_metrics =
     \<lparr>em_RecordUnexpectedEventType = RecordUnexpectedEventType,
      em_RecordProcessedEventsDuplicate = RecordProcessedEventsDuplicate, cm_RecordCascade = RecordCascade\<rparr>"

definition member_removal_metrics :: "'r world MemberRemovalMetrics" where
  "member_removal_metrics =
     \<lparr>em_RecordUnexpectedEventType = RecordUnexpectedEventType,
      em_RecordProcessedEventsDuplicate = RecordProcessedEventsDuplicate,
      mm_RecordMemberRemovalCascade = RecordMemberRemovalCascade\<rparr>"

abbreviation offboarding_ledger :: "'r pg_env \<Rightarrow> 'r ProcessedEvents" where
  "offboarding_ledger pg \<equiv> NewProcessedEvents pg offboardingConsumerName"

abbreviation member_removal_ledger :: "'r pg_env \<Rightarrow> 'r ProcessedEvents" where
  "member_removal_ledger pg \<equiv> NewProcessedEvents pg memberRemovalConsumerName"

definition offboarding_consumer :: "'r pg_env \<Rightarrow> Tracer \<Rightarrow> 'r world OffboardingConsumer" where
  "offboarding_consumer pg tracer =
     \<lparr>oc_repo = repo_CascadeDeleteForTenant (NewTenderACLRepository pg),
      oc_idempotency = ledger_store (offboarding_ledger pg), oc_tx = NewTxRunner pg,
      oc_metrics = offboarding_metrics, oc_logger = svcLog, oc_tracer = tracer\<rparr>"

definition member_removal_consumer :: "'r pg_env \<Rightarrow> Tracer \<Rightarrow> 'r world MemberRemovalConsumer" where
  "member_removal_consumer pg tracer =
     \<lparr>mr_repo = repo_SoftDeleteForUser (NewTenderACLRepository pg),
      mr_idempotency = ledger_store (member_removal_ledger pg), mr_tx = NewTxRunner pg,
      mr_metrics = member_removal_metrics, mr_logger = svcLog, mr_tracer = tracer\<rparr>"

definition opened :: "ctx \<Rightarrow> ctx \<Rightarrow> bool" where
  "opened c c' \<longleftrightarrow> (\<exists>tx. tx_guc tx = ctx_guc c \<and> c' = WithTx c tx)"

lemma TxRunner_outcome:
  assumes "pg_ok pg" "TxRunner_RunInTx pg c fn w = (r, w')"
  shows "(r \<noteq> None \<and> db w' = db w) \<or> (\<exists>c' w1. opened c c' \<and> db w1 = db w \<and> fn c' w1 = (None, w'))"
proof -
  let ?body = "\<lambda>c' tx w. case fn (WithTx c' tx) w of (err, w') \<Rightarrow> (err, VNone, w')"
  from assms(2) obtain r0 v where run: "RunInTxWithRetryOpts pg writeRetryOpts c ?body w = (r0, v, w')"
    and r: "r = wrapConnErr pg r0"
    by (auto simp: TxRunner_RunInTx_def wrap_result_def split: prod.splits)
  have "tx_outcome 3 c ?body w (r0, v, w')"
    using tx_contract_retry [of pg c ?body w] assms(1) run by (simp add: pg_ok_def)
  from tx_outcome_atomic [OF this] show ?thesis
  proof (elim disjE exE conjE)
    assume "r0 \<noteq> None" "db w' = db w"
    with r show ?thesis by auto
  next
    fix k w1 v'
    assume "attempts_failed c ?body w k w1" and "run_attempt c ?body k w1 = (None, v', w')"
    moreover then have "fn (WithTx c \<lparr>tx_guc = ctx_guc c, tx_attempt = k\<rparr>) w1 = (None, w')"
      by (auto simp: run_attempt_def split: prod.splits)
    moreover have "opened c (WithTx c \<lparr>tx_guc = ctx_guc c, tx_attempt = k\<rparr>)"
      unfolding opened_def by (rule exI [of _ "\<lparr>tx_guc = ctx_guc c, tx_attempt = k\<rparr>"]) simp
    ultimately show ?thesis using attempts_failed_db by blast
  qed
qed

interpretation pg_tx: tx_runner pg_ok NewTxRunner db opened
  by unfold_locales (auto simp: NewTxRunner_def dest!: TxRunner_outcome)

lemma only_events_entries: "only_events w w' \<Longrightarrow> entries_of w' = entries_of w"
  by (auto simp: only_events_def entries_of_def)

lemma only_entries_seen: "only_entries w w' \<Longrightarrow> seen_events r w' = seen_events r w"
  by (auto simp: only_entries_def seen_events_def event_exists_def)

lemma opened_bound:
  "opened (c\<lparr>ctx_guc := Some (lib_String (pg_lib pg) t)\<rparr>) c' \<Longrightarrow> bound pg c' t"
  by (auto simp: opened_def bound_def pg_lib_def)

lemma seen_events_db: "db w' = db w \<Longrightarrow> seen_events r w' = seen_events r w"
  by (simp add: seen_events_def)

text \<open>A consumer on this repository, ledger and runner, with metrics that do not touch the tables.\<close>

lemma pg_cascades:
  fixes consumer :: string and metrics :: "('r world, 'm) event_metrics_scheme"
  assumes "\<And>c q ty w. db (em_RecordUnexpectedEventType metrics c q ty w) = db w"
    and "\<And>c cons w. db (em_RecordProcessedEventsDuplicate metrics c cons w) = db w"
  shows "cascades pg_ok NewTenderACLRepository bound entries_of now_db only_entries
    (\<lambda>pg. ledger_store (NewProcessedEvents pg consumer)) (\<lambda>pg. seen_events (NewProcessedEvents pg consumer))
    only_events NewTxRunner db opened pg_lib metrics svcLog"
proof (unfold_locales, goal_cases)
  case (1 e c ev w b w') then show ?case
    using ledger.is_done [of "NewProcessedEvents e consumer"] by (simp add: NewProcessedEvents_def)
next
  case (2 e c ev w er w') then show ?case
    using ledger.is_failed [of "NewProcessedEvents e consumer"] by (simp add: NewProcessedEvents_def)
next
  case (3 e c ev w w') then show ?case
    using ledger.mark_done [of "NewProcessedEvents e consumer"] by (simp add: NewProcessedEvents_def)
next
  case (4 e c ev w er w') then show ?case
    using ledger.mark_failed [of "NewProcessedEvents e consumer"] by (simp add: NewProcessedEvents_def)
qed ((erule entries_of_db seen_events_db only_events_entries only_entries_seen opened_bound
    | simp add: assms frame_simps)+)

interpretation offboarding: offboarding_cascade pg_ok NewTenderACLRepository bound entries_of now_db only_entries
  "\<lambda>pg. ledger_store (offboarding_ledger pg)" "\<lambda>pg. seen_events (offboarding_ledger pg)" only_events
  NewTxRunner db opened pg_lib offboarding_metrics svcLog
  by (intro offboarding_cascade.intro offboarding_cascade_axioms.intro pg_cascades)
    (simp_all add: offboarding_metrics_def frame_simps)

interpretation member_removal: member_removal_cascade pg_ok NewTenderACLRepository bound entries_of now_db only_entries
  "\<lambda>pg. ledger_store (member_removal_ledger pg)" "\<lambda>pg. seen_events (member_removal_ledger pg)" only_events
  NewTxRunner db opened pg_lib member_removal_metrics svcLog
  by (intro member_removal_cascade.intro member_removal_cascade_axioms.intro pg_cascades)
    (simp_all add: member_removal_metrics_def frame_simps)

end
