(* ===== verification/Json.thy ===== *)
theory Json
  imports GoStd
begin

text \<open>
  JSON as \<open>encoding/json\<close> sees it after and before its text form: a stored or received body is the
  document that its bytes denote, or bytes that denote none.  Names of struct fields are matched
  without regard to case, as the package does.
\<close>

datatype json = JNull | JBool bool | JNumber string | JString string | JArray "json list"
  | JObject "(string \<times> json) list"

datatype payload = Document json | Garbage string

end
