(* ===== verification/ValkeyCache.thy ===== *)
theory ValkeyCache
  imports World Ports Json
begin

text \<open>
  The Valkey adapter, \<open>internal/adapter/outbound/valkey/cache.go\<close>.  The go-redis client and the
  server behind it are the parameter \<open>redis_client\<close>; its field \<open>rd_stored\<close> is the server's key space
  (a payload and the instant at which it expires), which the contract \<open>redis_contract\<close> speaks about.

  The encoding and decoding of \<open>CachedAccess\<close> follow its struct tags; how \<open>time.Time\<close> is written as
  text is a parameter.
\<close>

section \<open>Encoding and decoding of CachedAccess\<close>

record time_codec =
  time_MarshalText :: "instant \<Rightarrow> go_error + string"
  time_UnmarshalText :: "string \<Rightarrow> go_error + instant"

text \<open>\<open>omitempty\<close>: a nil pointer gives no member.\<close>

definition level_member :: "string option \<Rightarrow> (string \<times> json) list" where
  "level_member l = (case l of None \<Rightarrow> [] | Some s \<Rightarrow> [(''access_level'', JString s)])"

definition Marshal_access :: "time_codec \<Rightarrow> CachedAccess \<Rightarrow> go_error + payload" where
  "Marshal_access tc v =
     (case ca_ExpiresAt v of
        None \<Rightarrow>
          Inr (Document (JObject ((''has_access'', JBool (ca_HasAccess v)) #
                 level_member (ca_AccessLevel v))))
      | Some t \<Rightarrow>
          (case time_MarshalText tc t of
             Inl err \<Rightarrow> Inl err
           | Inr txt \<Rightarrow>
               Inr (Document (JObject ((''has_access'', JBool (ca_HasAccess v)) #
                      level_member (ca_AccessLevel v) @ [(''expires_at'', JString txt)])))))"

text \<open>
  One member of an object is stored into the field its name selects, without regard to case; a
  null leaves a bool and clears a pointer; a member of no field is skipped; a value of the wrong
  type is an error.
\<close>

definition type_error :: "string \<Rightarrow> go_error" where
  "type_error field = Plain (''json: cannot unmarshal into Go struct field CachedAccess.'' @ field)"

definition set_member ::
  "time_codec \<Rightarrow> CachedAccess \<Rightarrow> string \<times> json \<Rightarrow> go_error + CachedAccess" where
  "set_member tc v m =
     (case m of (name, j) \<Rightarrow>
        if EqualFold name ''has_access'' then
          (case j of
             JNull \<Rightarrow> Inr v
           | JBool b \<Rightarrow> Inr (v\<lparr>ca_HasAccess := b\<rparr>)
           | _ \<Rightarrow> Inl (type_error ''has_access''))
        else if EqualFold name ''access_level'' then
          (case j of
             JNull \<Rightarrow> Inr (v\<lparr>ca_AccessLevel := None\<rparr>)
           | JString s \<Rightarrow> Inr (v\<lparr>ca_AccessLevel := Some s\<rparr>)
           | _ \<Rightarrow> Inl (type_error ''access_level''))
        else if EqualFold name ''expires_at'' then
          (case j of
             JNull \<Rightarrow> Inr (v\<lparr>ca_ExpiresAt := None\<rparr>)
           | JString s \<Rightarrow>
               (case time_UnmarshalText tc s of
                  Inl err \<Rightarrow> Inl err
                | Inr t \<Rightarrow> Inr (v\<lparr>ca_ExpiresAt := Some t\<rparr>))
           | _ \<Rightarrow> Inl (type_error ''expires_at''))
        else Inr v)"

fun set_members ::
  "time_codec \<Rightarrow> CachedAccess \<Rightarrow> (string \<times> json) list \<Rightarrow> go_error + CachedAccess" where
  "set_members tc v [] = Inr v"
| "set_members tc v (m # ms) =
     (case set_member tc v m of Inl err \<Rightarrow> Inl err | Inr v' \<Rightarrow> set_members tc v' ms)"

definition zero_access :: CachedAccess where
  "zero_access = \<lparr>ca_HasAccess = False, ca_AccessLevel = None, ca_ExpiresAt = None\<rparr>"

definition Unmarshal_access :: "time_codec \<Rightarrow> payload \<Rightarrow> go_error + CachedAccess" where
  "Unmarshal_access tc p =
     (case p of
        Document (JObject ms) \<Rightarrow> set_members tc zero_access ms
      | Document JNull \<Rightarrow> Inr zero_access
      | Document _ \<Rightarrow> Inl (Plain ''json: cannot unmarshal into Go value of type domain.CachedAccess'')
      | Garbage b \<Rightarrow> Inl (Plain ''invalid character''))"

section \<open>The client\<close>

record 'r redis_client =
  rd_Get :: "string \<Rightarrow> instant \<Rightarrow> 'r \<Rightarrow> (go_error + payload) \<times> 'r"
  rd_Set :: "string \<Rightarrow> payload \<Rightarrow> duration \<Rightarrow> instant \<Rightarrow> 'r \<Rightarrow> go_error option \<times> 'r"
  rd_Del :: "string \<Rightarrow> instant \<Rightarrow> 'r \<Rightarrow> go_error option \<times> 'r"
  rd_Ping :: "instant \<Rightarrow> 'r \<Rightarrow> go_error option \<times> 'r"
  rd_stored :: "'r \<Rightarrow> (string \<rightharpoonup> payload \<times> instant)"

record 'r valkey_env =
  vk_client :: "'r redis_client"
  vk_String :: "uuid \<Rightarrow> string"
  vk_time :: time_codec

text \<open>
  The documented behaviour of GET, SET with a TTL and DEL: a GET answers a value that was stored
  and has not expired, and a command that reports an error has been executed or not.
\<close>

definition redis_contract :: "'r redis_client \<Rightarrow> bool" where
  "redis_contract cl \<longleftrightarrow>
     (\<forall>k now r res r'. rd_Get cl k now r = (res, r') \<longrightarrow>
        rd_stored cl r' = rd_stored cl r \<and>
        (\<forall>p. res = Inr p \<longrightarrow> (\<exists>until. rd_stored cl r k = Some (p, until) \<and> now < until))) \<and>
     (\<forall>k p d now r err r'. rd_Set cl k p d now r = (err, r') \<longrightarrow>
        rd_stored cl r' = (rd_stored cl r)(k \<mapsto> (p, now + d)) \<or>
        err \<noteq> None \<and> rd_stored cl r' = rd_stored cl r) \<and>
     (\<forall>k now r err r'. rd_Del cl k now r = (err, r') \<longrightarrow>
        rd_stored cl r' = (rd_stored cl r)(k := None) \<or>
        err \<noteq> None \<and> rd_stored cl r' = rd_stored cl r) \<and>
     (\<forall>now r err r'. rd_Ping cl now r = (err, r') \<longrightarrow> rd_stored cl r' = rd_stored cl r)"

text \<open>
  The text form of a UUID names it and has no colon; the text form of a time denotes the same
  time.
\<close>

definition text_contract :: "'r valkey_env \<Rightarrow> bool" where
  "text_contract vk \<longleftrightarrow>
     inj (vk_String vk) \<and> (\<forall>u. CHR '':'' \<notin> set (vk_String vk u)) \<and>
     (\<forall>t s. time_MarshalText (vk_time vk) t = Inr s \<longrightarrow> time_UnmarshalText (vk_time vk) s = Inr t)"

definition valkey_ok :: "'r valkey_env \<Rightarrow> bool" where
  "valkey_ok vk \<longleftrightarrow> redis_contract (vk_client vk) \<and> text_contract vk"

section \<open>cache.go\<close>

definition ttl :: duration where
  "ttl = 30 * Second"

definition key :: "'r valkey_env \<Rightarrow> uuid \<Rightarrow> uuid \<Rightarrow> uuid \<Rightarrow> string" where
  "key vk tenantID tenderID userID =
     ''tac:acl:'' @ vk_String vk tenantID @ '':'' @ vk_String vk tenderID @ '':'' @ vk_String vk userID"

definition Cache_Get ::
  "'r valkey_env \<Rightarrow> ctx \<Rightarrow> uuid \<Rightarrow> uuid \<Rightarrow> uuid \<Rightarrow> 'r world
    \<Rightarrow> (go_error + CachedAccess option) \<times> 'r world" where
  "Cache_Get vk c tenantID tenderID userID w =
     (case rd_Get (vk_client vk) (key vk tenantID tenderID userID) (now_cache w) (rds w) of
        (Inl err, r) \<Rightarrow>
          if errors_Is err RedisNil then (Inr None, w\<lparr>rds := r\<rparr>)
          else (Inl (Wrapped ''cache: get: '' err), w\<lparr>rds := r\<rparr>)
      | (Inr raw, r) \<Rightarrow>
          (case Unmarshal_access (vk_time vk) raw of
             Inl err \<Rightarrow> (Inl (Wrapped ''cache: unmarshal: '' err), w\<lparr>rds := r\<rparr>)
           | Inr v \<Rightarrow> (Inr (Some v), w\<lparr>rds := r\<rparr>)))"

definition Cache_Set ::
  "'r valkey_env \<Rightarrow> ctx \<Rightarrow> uuid \<Rightarrow> uuid \<Rightarrow> uuid \<Rightarrow> CachedAccess \<Rightarrow> 'r world
    \<Rightarrow> go_error option \<times> 'r world" where
  "Cache_Set vk c tenantID tenderID userID v w =
     (case Marshal_access (vk_time vk) v of
        Inl err \<Rightarrow> (Some (Wrapped ''cache: marshal: '' err), w)
      | Inr p \<Rightarrow>
          (case rd_Set (vk_client vk) (key vk tenantID tenderID userID) p ttl (now_cache w) (rds w) of
             (Some err, r) \<Rightarrow> (Some (Wrapped ''cache: set: '' err), w\<lparr>rds := r\<rparr>)
           | (None, r) \<Rightarrow> (None, w\<lparr>rds := r\<rparr>)))"

definition Cache_Delete ::
  "'r valkey_env \<Rightarrow> ctx \<Rightarrow> uuid \<Rightarrow> uuid \<Rightarrow> uuid \<Rightarrow> 'r world \<Rightarrow> go_error option \<times> 'r world" where
  "Cache_Delete vk c tenantID tenderID userID w =
     (case rd_Del (vk_client vk) (key vk tenantID tenderID userID) (now_cache w) (rds w) of
        (Some err, r) \<Rightarrow> (Some (Wrapped ''cache: del: '' err), w\<lparr>rds := r\<rparr>)
      | (None, r) \<Rightarrow> (None, w\<lparr>rds := r\<rparr>))"

definition Cache_Ping :: "'r valkey_env \<Rightarrow> ctx \<Rightarrow> 'r world \<Rightarrow> go_error option \<times> 'r world" where
  "Cache_Ping vk c w =
     (case rd_Ping (vk_client vk) (now_cache w) (rds w) of
        (Some err, r) \<Rightarrow> (Some (Wrapped ''cache: ping: '' err), w\<lparr>rds := r\<rparr>)
      | (None, r) \<Rightarrow> (None, w\<lparr>rds := r\<rparr>))"

definition NewCache :: "'r valkey_env \<Rightarrow> 'r world Cache" where
  "NewCache vk = \<lparr>cache_Get = Cache_Get vk, cache_Set = Cache_Set vk, cache_Delete = Cache_Delete vk,
                  cache_Ping = Cache_Ping vk\<rparr>"

section \<open>Keys and payloads\<close>

lemma colon_split:
  assumes "a @ '':'' @ b = a' @ '':'' @ b'" "CHR '':'' \<notin> set a" "CHR '':'' \<notin> set a'"
  shows "a = a' \<and> b = b'"
proof -
  have "takeWhile (\<lambda>c. c \<noteq> CHR '':'') (x @ '':'' @ y) = x" if "CHR '':'' \<notin> set x" for x y
    using that by (induction x) auto
  with assms have "a = a'" by metis
  with assms(1) show ?thesis by simp
qed

lemma key_inject:
  assumes "text_contract vk"
  shows "key vk t n u = key vk t' n' u' \<longleftrightarrow> (t, n, u) = (t', n', u')"
proof
  assume "key vk t n u = key vk t' n' u'"
  then have "vk_String vk t @ '':'' @ (vk_String vk n @ '':'' @ vk_String vk u) =
      vk_String vk t' @ '':'' @ (vk_String vk n' @ '':'' @ vk_String vk u')"
    by (simp add: key_def)
  with assms colon_split have "vk_String vk t = vk_String vk t' \<and>
      vk_String vk n @ '':'' @ vk_String vk u = vk_String vk n' @ '':'' @ vk_String vk u'"
    unfolding text_contract_def by metis
  with assms colon_split have "vk_String vk t = vk_String vk t' \<and> vk_String vk n = vk_String vk n' \<and>
      vk_String vk u = vk_String vk u'"
    unfolding text_contract_def by metis
  with assms show "(t, n, u) = (t', n', u')" by (auto simp: text_contract_def dest: injD)
qed simp

lemma Unmarshal_Marshal:
  assumes "\<And>t s. time_MarshalText tc t = Inr s \<Longrightarrow> time_UnmarshalText tc s = Inr t"
    and "Marshal_access tc v = Inr p"
  shows "Unmarshal_access tc p = Inr v"
  using assms
  by (cases v; cases "ca_AccessLevel v"; cases "ca_ExpiresAt v")
    (auto simp: Marshal_access_def Unmarshal_access_def level_member_def set_member_def zero_access_def
      EqualFold_def lower_char_def split: sum.splits)

section \<open>The cache implements the port\<close>

definition cached :: "'r valkey_env \<Rightarrow> 'r world \<Rightarrow> cache_view" where
  "cached vk w k =
     (case k of (t, n, u) \<Rightarrow>
        (case rd_stored (vk_client vk) (rds w) (key vk t n u) of
           None \<Rightarrow> None
         | Some (p, until) \<Rightarrow>
             (case Unmarshal_access (vk_time vk) p of Inl _ \<Rightarrow> None | Inr v \<Rightarrow> Some (v, until))))"

definition only_rds :: "'r world \<Rightarrow> 'r world \<Rightarrow> bool" where
  "only_rds w w' \<longleftrightarrow> (\<exists>r. w' = w\<lparr>rds := r\<rparr>)"

lemma only_rds_refl [simp]: "only_rds w w"
  unfolding only_rds_def by (rule exI [of _ "rds w"]) simp

lemma only_rds_upd [simp]: "only_rds w (w\<lparr>rds := r\<rparr>)"
  unfolding only_rds_def by blast

lemma cached_same:
  "rd_stored (vk_client vk) (rds w') = rd_stored (vk_client vk) (rds w) \<Longrightarrow> cached vk w' = cached vk w"
  by (simp add: cached_def fun_eq_iff)

lemma cached_set:
  assumes "text_contract vk" "Unmarshal_access (vk_time vk) p = Inr v"
    "rd_stored (vk_client vk) (rds w') = (rd_stored (vk_client vk) (rds w))(key vk t n u \<mapsto> (p, until))"
  shows "cached vk w' = (cached vk w)((t, n, u) \<mapsto> (v, until))"
  using assms by (auto simp: cached_def fun_eq_iff key_inject [OF assms(1)])

lemma cached_del:
  assumes "text_contract vk"
    "rd_stored (vk_client vk) (rds w') = (rd_stored (vk_client vk) (rds w))(key vk t n u := None)"
  shows "cached vk w' = (cached vk w)((t, n, u) := None)"
  using assms by (auto simp: cached_def fun_eq_iff key_inject [OF assms(1)])

lemma valkey_ok_redis: "valkey_ok vk \<Longrightarrow> redis_contract (vk_client vk)"
  by (simp add: valkey_ok_def)

lemma redis_contract_Get:
  assumes "redis_contract cl" "rd_Get cl k now r = (res, r')"
  shows "rd_stored cl r' = rd_stored cl r"
    and "res = Inr p \<Longrightarrow> \<exists>until. rd_stored cl r k = Some (p, until) \<and> now < until"
proof -
  from assms(1) have "\<forall>k now r res r'. rd_Get cl k now r = (res, r') \<longrightarrow>
      rd_stored cl r' = rd_stored cl r \<and>
      (\<forall>p. res = Inr p \<longrightarrow> (\<exists>until. rd_stored cl r k = Some (p, until) \<and> now < until))"
    unfolding redis_contract_def by (elim conjE) assumption
  with assms(2) show "rd_stored cl r' = rd_stored cl r"
    and "res = Inr p \<Longrightarrow> \<exists>until. rd_stored cl r k = Some (p, until) \<and> now < until"
    by blast+
qed

lemma Cache_Get_cases:
  assumes "valkey_ok vk" "Cache_Get vk c t n u w = (res, w')"
  shows "only_rds w w'" "cached vk w' = cached vk w"
    "res = Inr (Some v) \<Longrightarrow> \<exists>until. cached vk w (t, n, u) = Some (v, until) \<and> now_cache w < until"
proof -
  obtain res0 r where get: "rd_Get (vk_client vk) (key vk t n u) (now_cache w) (rds w) = (res0, r)"
    by fastforce
  note got = redis_contract_Get [OF valkey_ok_redis [OF assms(1)] get]
  have w': "w' = w\<lparr>rds := r\<rparr>"
    using assms(2) get by (auto simp: Cache_Get_def split: sum.splits if_splits)
  show "only_rds w w'" by (simp add: w')
  show "cached vk w' = cached vk w" by (rule cached_same) (simp add: w' got(1))
  assume "res = Inr (Some v)"
  with assms(2) get obtain p where p: "res0 = Inr p" "Unmarshal_access (vk_time vk) p = Inr v"
    by (auto simp: Cache_Get_def split: sum.splits if_splits)
  from got(2) [OF p(1)] p(2) show "\<exists>until. cached vk w (t, n, u) = Some (v, until) \<and> now_cache w < until"
    by (auto simp: cached_def)
qed

lemma Cache_Set_cases:
  assumes "valkey_ok vk" "Cache_Set vk c t n u v w = (err, w')"
  shows "only_rds w w' \<and> (cached vk w' = (cached vk w)((t, n, u) \<mapsto> (v, now_cache w + ttl)) \<or>
    err \<noteq> None \<and> cached vk w' = cached vk w)"
proof (cases "Marshal_access (vk_time vk) v")
  case (Inl e)
  with assms(2) show ?thesis by (auto simp: Cache_Set_def)
next
  case (Inr p)
  from assms(1) have tc: "text_contract vk" by (simp add: valkey_ok_def)
  then have dec: "Unmarshal_access (vk_time vk) p = Inr v"
    by (intro Unmarshal_Marshal [OF _ Inr]) (simp add: text_contract_def)
  obtain err0 r where set:
    "rd_Set (vk_client vk) (key vk t n u) p ttl (now_cache w) (rds w) = (err0, r)" by fastforce
  have w': "w' = w\<lparr>rds := r\<rparr>" "err = None \<longleftrightarrow> err0 = None"
    using assms(2) set Inr by (auto simp: Cache_Set_def split: option.splits)
  have "rd_stored (vk_client vk) r = (rd_stored (vk_client vk) (rds w))(key vk t n u \<mapsto> (p, now_cache w + ttl)) \<or>
      err0 \<noteq> None \<and> rd_stored (vk_client vk) r = rd_stored (vk_client vk) (rds w)"
    using assms(1) set unfolding valkey_ok_def redis_contract_def by blast
  with w' cached_set [OF tc dec, of w' w t n u] cached_same [of vk w' w] show ?thesis by auto
qed

lemma Cache_Delete_cases:
  assumes "valkey_ok vk" "Cache_Delete vk c t n u w = (err, w')"
  shows "only_rds w w' \<and> (cached vk w' = (cached vk w)((t, n, u) := None) \<or>
    err \<noteq> None \<and> cached vk w' = cached vk w)"
proof -
  from assms(1) have tc: "text_contract vk" by (simp add: valkey_ok_def)
  obtain err0 r where del: "rd_Del (vk_client vk) (key vk t n u) (now_cache w) (rds w) = (err0, r)"
    by fastforce
  have w': "w' = w\<lparr>rds := r\<rparr>" "err = None \<longleftrightarrow> err0 = None"
    using assms(2) del by (auto simp: Cache_Delete_def split: option.splits)
  have "rd_stored (vk_client vk) r = (rd_stored (vk_client vk) (rds w))(key vk t n u := None) \<or>
      err0 \<noteq> None \<and> rd_stored (vk_client vk) r = rd_stored (vk_client vk) (rds w)"
    using assms(1) del unfolding valkey_ok_def redis_contract_def by blast
  with w' cached_del [OF tc, of w' w t n u] cached_same [of vk w' w] show ?thesis by auto
qed

lemma Cache_Ping_cases:
  assumes "valkey_ok vk" "Cache_Ping vk c w = (err, w')"
  shows "only_rds w w' \<and> cached vk w' = cached vk w"
proof -
  obtain err0 r where ping: "rd_Ping (vk_client vk) (now_cache w) (rds w) = (err0, r)" by fastforce
  have w': "w' = w\<lparr>rds := r\<rparr>"
    using assms(2) ping by (auto simp: Cache_Ping_def split: option.splits)
  have "rd_stored (vk_client vk) r = rd_stored (vk_client vk) (rds w)"
    using assms(1) ping unfolding valkey_ok_def redis_contract_def by blast
  with w' cached_same [of vk w' w] show ?thesis by simp
qed

interpretation valkey: acl_cache valkey_ok NewCache cached now_cache ttl only_rds
proof (unfold_locales, goal_cases)
  case (1 e c t n u w r w')
  then show ?case using Cache_Get_cases [of e c t n u w r w'] by (simp add: NewCache_def)
next
  case (2 e c t n u w v w')
  then show ?case using Cache_Get_cases(3) [of e c t n u w "Inr (Some v)" w' v] by (simp add: NewCache_def)
next
  case (3 e c t n u v w w')
  then show ?case using Cache_Set_cases [of e c t n u v w None w'] by (simp add: NewCache_def)
next
  case (4 e c t n u v w er w')
  then show ?case using Cache_Set_cases [of e c t n u v w "Some er" w'] by (auto simp: NewCache_def)
next
  case (5 e c t n u w w')
  then show ?case using Cache_Delete_cases [of e c t n u w None w'] by (simp add: NewCache_def)
next
  case (6 e c t n u w er w')
  then show ?case using Cache_Delete_cases [of e c t n u w "Some er" w'] by (auto simp: NewCache_def)
next
  case (7 e c w pr w')
  then show ?case using Cache_Ping_cases [of e c w pr w'] by (simp add: NewCache_def)
qed

end
