(* ===== verification/MembershipCheck.thy ===== *)
theory MembershipCheck
  imports World Ports Json
begin

text \<open>
  The client of iam-org-membership, \<open>internal/adapter/outbound/membershipcheck\<close>: \<open>http_client.go\<close>
  and \<open>traceparent.go\<close>.  The HTTP client (the network and the provider behind it), the check that a
  URL can be parsed and the text form of UUIDs are parameters.
\<close>

section \<open>HTTP\<close>

type_synonym headers = "string \<rightharpoonup> string"

record http_request =
  hr_method :: string
  hr_url :: string
  hr_header :: headers

record http_response =
  hs_StatusCode :: int
  hs_Body :: payload

type_synonym 'r http_client = "ctx \<Rightarrow> http_request \<Rightarrow> 'r world \<Rightarrow> go_error + http_response"

text \<open>
  \<open>Header.Set\<close> stores under the canonical form of the name: the first letter and each letter after a
  hyphen in upper case, the others in lower case.
\<close>

definition upper_char :: "char \<Rightarrow> char" where
  "upper_char ch = (if 97 \<le> (of_char ch :: nat) \<and> (of_char ch :: nat) \<le> 122
                    then char_of ((of_char ch :: nat) - 32) else ch)"

fun canonical :: "bool \<Rightarrow> string \<Rightarrow> string" where
  "canonical up [] = []"
| "canonical up (ch # cs) =
     (if up then upper_char ch else lower_char ch) # canonical (ch = CHR ''-'') cs"

definition Header_Set :: "http_request \<Rightarrow> string \<Rightarrow> string \<Rightarrow> http_request" where
  "Header_Set req name v = req\<lparr>hr_header := (hr_header req)(canonical True name \<mapsto> v)\<rparr>"

section \<open>http_client.go and traceparent.go\<close>

definition defaultTimeout :: duration where
  "defaultTimeout = 300 * Millisecond"

record 'r HTTPChecker =
  hc_baseURL :: string
  hc_httpClient :: "'r http_client"
  hc_NewRequest :: "string \<Rightarrow> go_error option"
  hc_String :: "uuid \<Rightarrow> string"
  hc_ParseBytes :: "string \<Rightarrow> go_error + uuid"

text \<open>
  \<open>mk\<close> is a new \<open>http.Client\<close> with a timeout; the last three arguments are the library functions that
  the methods call.
\<close>

definition NewHTTPChecker ::
  "(duration \<Rightarrow> 'r http_client) \<Rightarrow> string \<Rightarrow> 'r http_client option \<Rightarrow> duration
    \<Rightarrow> (string \<Rightarrow> go_error option) \<Rightarrow> (uuid \<Rightarrow> string) \<Rightarrow> (string \<Rightarrow> go_error + uuid)
    \<Rightarrow> 'r HTTPChecker" where
  "NewHTTPChecker mk baseURL httpClient timeout newreq str parse =
     (let client = (case httpClient of
                      Some cl \<Rightarrow> cl
                    | None \<Rightarrow> mk (if timeout \<le> 0 then defaultTimeout else timeout))
      in \<lparr>hc_baseURL = TrimRight baseURL ''/'', hc_httpClient = client, hc_NewRequest = newreq,
          hc_String = str, hc_ParseBytes = parse\<rparr>)"

definition setInternalHeaders :: "'r HTTPChecker \<Rightarrow> http_request \<Rightarrow> uuid \<Rightarrow> http_request" where
  "setInternalHeaders hc req tenantID =
     (let req = Header_Set req ''x-user-id'' ''iam-system'';
          req = Header_Set req ''x-tenant-id'' (hc_String hc tenantID)
      in Header_Set req ''x-tenant-roles'' ''iam-system'')"

definition propagateTraceparent :: "ctx \<Rightarrow> http_request \<Rightarrow> http_request" where
  "propagateTraceparent c req =
     (case ctx_trace c of
        None \<Rightarrow> req
      | Some sc \<Rightarrow>
          (let flags = (if sc_Sampled sc then ''01'' else ''00'')
           in Header_Set req ''traceparent''
                (''00-'' @ sc_TraceID sc @ ''-'' @ sc_SpanID sc @ ''-'' @ flags)))"

record existsResponse =
  er_Active :: bool
  er_TenantMembershipID :: "uuid option"

definition exists_member ::
  "'r HTTPChecker \<Rightarrow> existsResponse \<Rightarrow> string \<times> json \<Rightarrow> go_error + existsResponse" where
  "exists_member hc v m =
     (case m of (name, j) \<Rightarrow>
        if EqualFold name ''active'' then
          (case j of
             JNull \<Rightarrow> Inr v
           | JBool b \<Rightarrow> Inr (v\<lparr>er_Active := b\<rparr>)
           | _ \<Rightarrow> Inl (Plain ''json: cannot unmarshal into Go struct field existsResponse.active''))
        else if EqualFold name ''tenant_membership_id'' then
          (case j of
             JNull \<Rightarrow> Inr (v\<lparr>er_TenantMembershipID := None\<rparr>)
           | JString s \<Rightarrow>
               (case hc_ParseBytes hc s of
                  Inl err \<Rightarrow> Inl err
                | Inr u \<Rightarrow> Inr (v\<lparr>er_TenantMembershipID := Some u\<rparr>))
           | _ \<Rightarrow> Inl (Plain
               ''json: cannot unmarshal into Go struct field existsResponse.tenant_membership_id''))
        else Inr v)"

fun exists_members ::
  "'r HTTPChecker \<Rightarrow> existsResponse \<Rightarrow> (string \<times> json) list \<Rightarrow> go_error + existsResponse" where
  "exists_members hc v [] = Inr v"
| "exists_members hc v (m # ms) =
     (case exists_member hc v m of Inl err \<Rightarrow> Inl err | Inr v' \<Rightarrow> exists_members hc v' ms)"

definition decode_exists :: "'r HTTPChecker \<Rightarrow> payload \<Rightarrow> go_error + existsResponse" where
  "decode_exists hc p =
     (let zero = \<lparr>er_Active = False, er_TenantMembershipID = None\<rparr> in
      case p of
        Document (JObject ms) \<Rightarrow> exists_members hc zero ms
      | Document JNull \<Rightarrow> Inr zero
      | Document _ \<Rightarrow> Inl (Plain ''json: cannot unmarshal into Go value of type existsResponse'')
      | Garbage b \<Rightarrow> Inl (Plain ''invalid character''))"

definition exists_request :: "'r HTTPChecker \<Rightarrow> ctx \<Rightarrow> uuid \<Rightarrow> uuid \<Rightarrow> http_request" where
  "exists_request hc c tenantID userID =
     (let url = hc_baseURL hc @ ''/api/v1/internal/tenants/'' @ hc_String hc tenantID @
                ''/members/'' @ hc_String hc userID @ ''/exists'';
          req = \<lparr>hr_method = ''GET'', hr_url = url, hr_header = Map.empty\<rparr>;
          req = setInternalHeaders hc req tenantID
      in propagateTraceparent c req)"

definition Exists ::
  "'r HTTPChecker \<Rightarrow> ctx \<Rightarrow> uuid \<Rightarrow> uuid \<Rightarrow> 'r world \<Rightarrow> (go_error + bool \<times> uuid) \<times> 'r world" where
  "Exists hc c tenantID userID w =
     (let req = exists_request hc c tenantID userID in
      case hc_NewRequest hc (hr_url req) of
        Some err \<Rightarrow> (Inl (Wrapped ''membershipcheck: build request: '' err), w)
      | None \<Rightarrow>
          (case hc_httpClient hc c req w of
             Inl err \<Rightarrow> (Inl (Wrapped ''membershipcheck: request failed: '' err), w)
           | Inr resp \<Rightarrow>
               if hs_StatusCode resp \<noteq> 200
               then (Inl (Plain (''membershipcheck: unexpected status '' @ Itoa (hs_StatusCode resp))), w)
               else
                 (case decode_exists hc (hs_Body resp) of
                    Inl err \<Rightarrow> (Inl (Wrapped ''membershipcheck: decode response: '' err), w)
                  | Inr out \<Rightarrow>
                      if \<not> er_Active out then (Inr (False, 0), w)
                      else
                        (case er_TenantMembershipID out of
                           None \<Rightarrow>
                             (Inl (Plain ''membershipcheck: active:true response missing tenant_membership_id''), w)
                         | Some m \<Rightarrow>
                             if m = 0
                             then (Inl (Plain ''membershipcheck: active:true response missing tenant_membership_id''), w)
                             else (Inr (True, m), w)))))"

definition checker_client :: "'r HTTPChecker \<Rightarrow> 'r world MembershipCheckClient" where
  "checker_client hc = \<lparr>mc_Exists = Exists hc\<rparr>"

section \<open>The checker fails closed\<close>

text \<open>What the provider answered to the one request the check makes.\<close>

definition provider_says ::
  "'r HTTPChecker \<Rightarrow> ctx \<Rightarrow> 'r world \<Rightarrow> uuid \<Rightarrow> uuid \<Rightarrow> existsResponse \<Rightarrow> bool" where
  "provider_says hc c w t u out \<longleftrightarrow>
     (\<exists>resp. hc_httpClient hc c (exists_request hc c t u) w = Inr resp \<and> hs_StatusCode resp = 200 \<and>
        decode_exists hc (hs_Body resp) = Inr out)"

definition confirmed_member ::
  "'r HTTPChecker \<Rightarrow> ctx \<Rightarrow> 'r world \<Rightarrow> uuid \<Rightarrow> uuid \<Rightarrow> uuid \<Rightarrow> bool" where
  "confirmed_member hc c w t u m \<longleftrightarrow>
     provider_says hc c w t u \<lparr>er_Active = True, er_TenantMembershipID = Some m\<rparr>"

definition denied_member :: "'r HTTPChecker \<Rightarrow> ctx \<Rightarrow> 'r world \<Rightarrow> uuid \<Rightarrow> uuid \<Rightarrow> bool" where
  "denied_member hc c w t u \<longleftrightarrow> (\<exists>out. provider_says hc c w t u out \<and> \<not> er_Active out)"

lemma Exists_cases:
  assumes "Exists hc c t u w = (res, w')"
  shows "w' = w"
    and "res = Inr (a, m) \<Longrightarrow> if a then m \<noteq> 0 \<and> confirmed_member hc c w t u m
      else m = 0 \<and> denied_member hc c w t u"
proof -
  show "w' = w"
    using assms by (auto simp: Exists_def Let_def split: option.splits sum.splits if_splits)
  assume res: "res = Inr (a, m)"
  with assms obtain resp out where resp: "hc_httpClient hc c (exists_request hc c t u) w = Inr resp"
    "hs_StatusCode resp = 200" "decode_exists hc (hs_Body resp) = Inr out"
    and out: "if er_Active out then a \<and> er_TenantMembershipID out = Some m \<and> m \<noteq> 0 else \<not> a \<and> m = 0"
    by (auto simp: Exists_def Let_def split: option.splits sum.splits if_splits)
  from resp have says: "provider_says hc c w t u out" by (auto simp: provider_says_def)
  show "if a then m \<noteq> 0 \<and> confirmed_member hc c w t u m else m = 0 \<and> denied_member hc c w t u"
  proof (cases a)
    case True
    with out have "out = \<lparr>er_Active = True, er_TenantMembershipID = Some m\<rparr>" "m \<noteq> 0"
      by (cases out; simp split: if_splits)+
    with says True show ?thesis by (simp add: confirmed_member_def)
  next
    case False
    with out says show ?thesis by (auto simp: denied_member_def split: if_splits)
  qed
qed

interpretation org_membership: membership_check "\<lambda>_. True" checker_client confirmed_member denied_member
proof (unfold_locales, goal_cases)
  case (1 e c t u w res w')
  then show ?case using Exists_cases(1) [of e c t u w res w'] by (simp add: checker_client_def)
next
  case (2 e c t u w m w')
  then show ?case using Exists_cases(2) [of e c t u w _ w' True m] by (simp add: checker_client_def)
next
  case (3 e c t u w m w')
  then show ?case using Exists_cases(2) [of e c t u w _ w' False m] by (simp add: checker_client_def)
qed

text \<open>The headers the provider's middleware reads.\<close>

lemma canonical_names:
  "canonical True ''x-user-id'' = ''X-User-Id''" "canonical True ''x-tenant-id'' = ''X-Tenant-Id''"
  "canonical True ''x-tenant-roles'' = ''X-Tenant-Roles''" "canonical True ''traceparent'' = ''Traceparent''"
  by code_simp+

lemma exists_request_headers:
  "hr_header (exists_request hc c t u) ''X-User-Id'' = Some ''iam-system''"
  "hr_header (exists_request hc c t u) ''X-Tenant-Id'' = Some (hc_String hc t)"
  "hr_header (exists_request hc c t u) ''X-Tenant-Roles'' = Some ''iam-system''"
  "hr_header (exists_request hc c t u) ''Traceparent'' =
     map_option (\<lambda>sc. ''00-'' @ sc_TraceID sc @ ''-'' @ sc_SpanID sc @ ''-'' @
       (if sc_Sampled sc then ''01'' else ''00'')) (ctx_trace c)"
  by (auto simp: exists_request_def Let_def setInternalHeaders_def propagateTraceparent_def
      Header_Set_def canonical_names simp del: canonical.simps split: option.splits)

end
