(* ===== verification/Service.thy ===== *)
theory Service
  imports AclService Consumers ValkeyCache MembershipCheck
begin

text \<open>
  The service composed as \<open>cmd/tender-acl/main.go\<close> composes it: \<open>ACLService\<close> on the Postgres
  repository, the Valkey cache and the membership client, with the process's counters and log.
  The locale of \<open>AclService\<close> is interpreted on it, and its facts become the properties of the
  running service.
\<close>

record 'r deps =
  d_pg :: "'r pg_env"
  d_vk :: "'r valkey_env"
  d_hc :: "'r HTTPChecker"

definition deps_ok :: "'r deps \<Rightarrow> bool" where
  "deps_ok d \<longleftrightarrow> pg_ok (d_pg d) \<and> valkey_ok (d_vk d)"

definition service_metrics :: "'r world ACLMetrics" where
  "service_metrics =
     \<lparr>am_RecordGrantCheck = RecordGrantCheck, am_RecordCheckCall = RecordCheckCall,
      am_RecordWrite = RecordWrite, am_RecordCacheHit = RecordCacheHit,
      am_RecordCacheMiss = RecordCacheMiss\<rparr>"

definition service :: "'r deps \<Rightarrow> Tracer \<Rightarrow> 'r world ACLService" where
  "service d tracer =
     NewACLService (NewTenderACLRepository (d_pg d)) (checker_client (d_hc d)) (NewCache (d_vk d))
       service_metrics svcLog tracer now_app"

text \<open>Worlds that differ in counters and log lines only.\<close>

definition quiet :: "'r world \<Rightarrow> 'r world \<Rightarrow> bool" where
  "quiet w w' \<longleftrightarrow> (\<exists>cs ls. w' = w\<lparr>counters := cs, log_lines := ls\<rparr>)"

lemma quiet_inc: "quiet w (inc n ls w)"
  unfolding quiet_def inc_def by (rule exI, rule exI [of _ "log_lines w"]) simp

lemma quiet_write_log: "quiet w (write_log l m f w)"
  unfolding quiet_def write_log_def by (rule exI [of _ "counters w"]) auto

lemma quiet_log4: "quiet w (log4 svcLog c level msg args b w)"
  using log4_svcLog [of "[]" c level msg args b w] by (auto simp: With_Nil quiet_write_log)

lemma bound_Start [simp]: "bound pg (Start tr c name) t = bound pg c t"
  by (simp add: bound_def)

lemma acl_service_parts:
  "acl_repository deps_ok (\<lambda>d. NewTenderACLRepository (d_pg d)) (\<lambda>d. bound (d_pg d)) entries_of now_db only_entries"
  "acl_cache deps_ok (\<lambda>d. NewCache (d_vk d)) (\<lambda>d. cached (d_vk d)) now_cache ttl only_rds"
  "membership_check deps_ok (\<lambda>d. checker_client (d_hc d)) (\<lambda>d. confirmed_member (d_hc d))
     (\<lambda>d. denied_member (d_hc d))"
  by (rule acl_repository_part [OF pg_repo.acl_repository_axioms], simp add: deps_ok_def,
      rule acl_cache_part [OF valkey.acl_cache_axioms], simp add: deps_ok_def,
      rule membership_check_part [OF org_membership.membership_check_axioms], simp)

interpretation tac: acl_service deps_ok "\<lambda>d. NewTenderACLRepository (d_pg d)" "\<lambda>d. bound (d_pg d)"
  entries_of now_db only_entries "\<lambda>d. NewCache (d_vk d)" "\<lambda>d. cached (d_vk d)" now_cache ttl only_rds
  "\<lambda>d. checker_client (d_hc d)" "\<lambda>d. confirmed_member (d_hc d)" "\<lambda>d. denied_member (d_hc d)"
  service_metrics svcLog quiet
proof (intro acl_service.intro acl_service_parts acl_service_axioms.intro, goal_cases)
  case (1 e c t tr name)
  then show ?case by simp
next
  case (2 w w')
  then show ?case by (auto simp: only_rds_def entries_of_def)
next
  case (3 w w' e)
  then show ?case by (auto simp: only_entries_def cached_def fun_eq_iff)
next
  case (4 w w' e)
  then show ?case by (auto simp: quiet_def entries_of_def cached_def fun_eq_iff)
qed (simp_all add: service_metrics_def record_defs quiet_inc quiet_log4)

text \<open>The facts of the locale, with the composed service by name.\<close>

lemmas service_any =
  tac.Svc_List_any [where now = now_app, folded service_def]
  tac.Svc_Grant_any [where now = now_app, folded service_def]
  tac.Svc_Revoke_any [where now = now_app, folded service_def]
  tac.Svc_CheckAccess_any [where now = now_app, folded service_def]

end
