(* ===== verification/Example.thy ===== *)
theory Example
  imports Service
begin

text \<open>
  A concrete environment in which every contract of the development holds: a server that runs each
  transaction once, a cache server that is a map, a provider that confirms one membership.  The
  witnesses of the properties are evaluated in it.
\<close>

type_synonym demo_redis = "string \<rightharpoonup> payload \<times> instant"

section \<open>Postgres\<close>

definition demo_run :: "ctx \<Rightarrow> 'r tx_body \<Rightarrow> 'r world \<Rightarrow> 'r tx_result" where
  "demo_run c body w =
     (case run_attempt c body 0 w of
        (None, v, w') \<Rightarrow> (None, v, w')
      | (Some e, v, w') \<Rightarrow> (Some e, v, rollback w w'))"

definition demo_server :: pg_server where
  "demo_server =
     \<lparr>pg_uuid_in = (\<lambda>s. map_option of_nat (digits_val 0 s)), pg_text = (\<lambda>st. ''SQLSTATE '' @ st),
      pg_timestamptz = (\<lambda>t. t),
      gen_random_uuid = (\<lambda>d. of_nat (length (tender_acl_entries d) + 1)), scan_order = (\<lambda>xs. xs)\<rparr>"

definition demo_String :: "uuid \<Rightarrow> string" where
  "demo_String u = nat_digits (unat u)"

definition demo_Parse :: "string \<Rightarrow> go_error + uuid" where
  "demo_Parse s =
     (if s = [] then Inl (Plain ''invalid UUID length: 0'')
      else (case digits_val 0 s of
              None \<Rightarrow> Inl (Plain ''invalid UUID format'') | Some n \<Rightarrow> Inr (of_nat n)))"

definition demo_pg :: "demo_redis pg_env" where
  "demo_pg =
     \<lparr>pg_srv = demo_server, RunInTx = demo_run, RunInTxWithRetryOpts = (\<lambda>_. demo_run),
      stmt_fault = (\<lambda>_ _ _. None), scan_fault = (\<lambda>_. None), rows_err = (\<lambda>_ _. None),
      WithValidatedGUCSet = (\<lambda>s. if s = [] then Some (Plain ''empty tenant id'') else None),
      IsUniqueViolation = (\<lambda>e. sqlstate e = Some ''23505''),
      IsConnectionException = sql_class ''08'', IsInsufficientResources = sql_class ''53'',
      IsPgError = (\<lambda>e. sqlstate e \<noteq> None), uuid_String = demo_String, uuid_Parse = demo_Parse\<rparr>"

lemma demo_run_outcome:
  assumes "0 < n"
  shows "tx_outcome n c body w (demo_run c body w)"
proof -
  obtain r v w' where run: "run_attempt c body 0 w = (r, v, w')" by (cases "run_attempt c body 0 w")
  have "attempts_failed c body w 0 w" by (rule attempts_failed.first)
  with assms run show ?thesis
    unfolding tx_outcome_def demo_run_def by (cases r) fastforce+
qed

lemma demo_String_roundtrip: "map_option of_nat (digits_val 0 (demo_String u)) = Some u"
  by (simp add: demo_String_def digits_val_nat_digits)

lemma demo_pg_sel [simp]:
  "pg_srv demo_pg = demo_server" "RunInTx demo_pg = demo_run" "RunInTxWithRetryOpts demo_pg o' = demo_run"
  "stmt_fault demo_pg s tx w = None" "scan_fault demo_pg r = None" "rows_err demo_pg tx w = None"
  "WithValidatedGUCSet demo_pg g = (if g = [] then Some (Plain ''empty tenant id'') else None)"
  "IsUniqueViolation demo_pg e = (sqlstate e = Some ''23505'')"
  "IsConnectionException demo_pg = sql_class ''08''" "IsInsufficientResources demo_pg = sql_class ''53''"
  "IsPgError demo_pg e = (sqlstate e \<noteq> None)" "uuid_String demo_pg = demo_String"
  "uuid_Parse demo_pg = demo_Parse"
  by (simp_all add: demo_pg_def)

lemma demo_pg_ok: "pg_ok demo_pg"
proof -
  have "tx_contract demo_pg" by (simp add: tx_contract_def demo_run_outcome)
  moreover have "classifier_contract demo_pg" by (simp add: classifier_contract_def)
  moreover have "server_contract demo_pg"
    using demo_String_roundtrip
    by (simp add: server_contract_def demo_server_def) (simp add: demo_String_def nat_digits_nonempty)
  ultimately show ?thesis by (simp add: pg_ok_def)
qed

lemma demo_pg_healthy: "pg_healthy demo_pg"
  using demo_pg_ok by (auto simp: pg_healthy_def first_attempt_decides_def demo_run_def)

section \<open>Valkey\<close>

definition demo_client :: "demo_redis redis_client" where
  "demo_client =
     \<lparr>rd_Get = (\<lambda>k now m.
        (case m k of
           None \<Rightarrow> Inl (Sentinel RedisNil ''redis: nil'')
         | Some (p, until) \<Rightarrow> if now < until then Inr p else Inl (Sentinel RedisNil ''redis: nil''), m)),
      rd_Set = (\<lambda>k p d now m. (None, m(k \<mapsto> (p, now + d)))),
      rd_Del = (\<lambda>k now m. (None, m(k := None))), rd_Ping = (\<lambda>now m. (None, m)), rd_stored = (\<lambda>m. m)\<rparr>"

definition demo_time :: time_codec where
  "demo_time =
     \<lparr>time_MarshalText = (\<lambda>t. if int64_range t then Inr (Itoa t) else Inl (Plain ''year outside of range'')),
      time_UnmarshalText = (\<lambda>s. case Atoi s of None \<Rightarrow> Inl (Plain ''cannot parse'') | Some t \<Rightarrow> Inr t)\<rparr>"

definition demo_vk :: "demo_redis valkey_env" where
  "demo_vk = \<lparr>vk_client = demo_client, vk_String = demo_String, vk_time = demo_time\<rparr>"

lemma demo_vk_ok: "valkey_ok demo_vk"
proof -
  have "redis_contract demo_client"
    by (auto simp: redis_contract_def demo_client_def split: option.splits prod.splits if_splits)
  moreover have "inj demo_String"
    by (metis demo_String_roundtrip injI option.inject)
  moreover have "CHR '':'' \<notin> set (demo_String u)" for u
    using nat_digits_all_digits [of "unat u"] by (auto simp: demo_String_def is_digit_def)
  ultimately show ?thesis
    by (auto simp: valkey_ok_def text_contract_def demo_vk_def demo_time_def Atoi_Itoa)
qed

section \<open>The provider and the whole\<close>

definition demo_hc :: "demo_redis HTTPChecker" where
  "demo_hc =
     \<lparr>hc_baseURL = ''http://org'',
      hc_httpClient = (\<lambda>_ _ _. Inr \<lparr>hs_StatusCode = 200,
         hs_Body = Document (JObject [(''active'', JBool True), (''tenant_membership_id'', JString ''7'')])\<rparr>),
      hc_NewRequest = (\<lambda>_. None), hc_String = demo_String, hc_ParseBytes = demo_Parse\<rparr>"

definition demo_deps :: "demo_redis deps" where
  "demo_deps = \<lparr>d_pg = demo_pg, d_vk = demo_vk, d_hc = demo_hc\<rparr>"

definition demo_world :: "demo_redis world" where
  "demo_world =
     \<lparr>db = empty_db, rds = Map.empty, counters = (\<lambda>_. 0), log_lines = [], now_app = 1000,
      now_db = 1000, now_cache = 1000\<rparr>"

abbreviation demo_tracer :: Tracer where
  "demo_tracer \<equiv> \<lambda>_ s. s"

lemma demo_deps_ok: "deps_ok demo_deps"
  by (simp add: deps_ok_def demo_deps_def demo_pg_ok demo_vk_ok)

lemma demo_deps_sel [simp]: "d_pg demo_deps = demo_pg" "d_vk demo_deps = demo_vk" "d_hc demo_deps = demo_hc"
  by (simp_all add: demo_deps_def)

end
