(* ===== verification/ServiceTheorems.thy ===== *)
theory ServiceTheorems
  imports Example
begin

text \<open>
  The properties of the composed service, of the repository and of the consumers, each with a run
  of the concrete environment in which its hypotheses hold.
\<close>

section \<open>Concrete runs\<close>

text \<open>A grant in the empty store, a check after it, and the revoke of the granted version.\<close>

definition demo_grant :: "(go_error + TenderACLEntry) \<times> demo_redis world" where
  "demo_grant = Svc_Grant (service demo_deps demo_tracer) Background 1 2 3 4 ACLEdit ''ok'' None demo_world"

definition demo_entry :: TenderACLEntry where
  "demo_entry =
     \<lparr>e_ID = 1, e_TenantID = 1, e_TenderID = 2, e_UserID = 3, e_TenantMembershipID = 7,
      e_AccessLevel = ''edit'', e_GrantedBy = 4, e_Reason = ''ok'', e_ExpiresAt = None,
      e_RecordVersion = 1, e_CreatedAt = 1000, e_UpdatedAt = 1000, e_DeletedAt = None\<rparr>"

abbreviation demo_w1 :: "demo_redis world" where
  "demo_w1 \<equiv> snd demo_grant"

definition demo_check :: "(go_error + CachedAccess) \<times> demo_redis world" where
  "demo_check = Svc_CheckAccess (service demo_deps demo_tracer) Background 1 2 3 demo_w1"

definition demo_revoke :: "go_error option \<times> demo_redis world" where
  "demo_revoke = Svc_Revoke (service demo_deps demo_tracer) Background 1 2 3 1 demo_w1"

abbreviation demo_w2 :: "demo_redis world" where
  "demo_w2 \<equiv> snd demo_revoke"

definition demo_recheck :: "(go_error + CachedAccess) \<times> demo_redis world" where
  "demo_recheck = Svc_CheckAccess (service demo_deps demo_tracer) Background 1 2 3 demo_w2"

text \<open>The example is run once: a grant, a check and a revoke after it, and a check after the revoke.\<close>

lemma demo_service_run:
  "case demo_grant of (res, w1) \<Rightarrow>
     res = Inr demo_entry \<and> entries_of w1 = [demo_entry] \<and> cached demo_vk w1 (1, 2, 3) = None \<and>
     fst (Svc_CheckAccess (service demo_deps demo_tracer) Background 1 2 3 w1) =
       Inr \<lparr>ca_HasAccess = True, ca_AccessLevel = Some ''edit'', ca_ExpiresAt = None\<rparr> \<and>
     (case Svc_Revoke (service demo_deps demo_tracer) Background 1 2 3 1 w1 of (err, w2) \<Rightarrow>
        err = None \<and> fst (Svc_CheckAccess (service demo_deps demo_tracer) Background 1 2 3 w2) =
          Inr \<lparr>ca_HasAccess = False, ca_AccessLevel = None, ca_ExpiresAt = None\<rparr>)"
  by code_simp

lemma demo_grant_result: "fst demo_grant = Inr demo_entry" and demo_grant_entries: "entries_of demo_w1 = [demo_entry]"
  and demo_check_result: "fst demo_check = Inr \<lparr>ca_HasAccess = True, ca_AccessLevel = Some ''edit'', ca_ExpiresAt = None\<rparr>"
  and demo_revoke_result: "fst demo_revoke = None"
  and demo_recheck_result: "fst demo_recheck = Inr \<lparr>ca_HasAccess = False, ca_AccessLevel = None, ca_ExpiresAt = None\<rparr>"
  using demo_service_run unfolding case_prod_beta demo_check_def demo_revoke_def demo_recheck_def by blast+

lemma demo_nothing_cached: "cached demo_vk demo_world (1, 2, 3) = None" "cached demo_vk demo_w1 (1, 2, 3) = None"
proof -
  show "cached demo_vk demo_world (1, 2, 3) = None" by code_simp
  show "cached demo_vk demo_w1 (1, 2, 3) = None" using demo_service_run unfolding case_prod_beta by blast
qed

lemma demo_bound [simp]: "bound pg Background t"
  by (simp add: Background_def)

lemma demo_unique: "unique_live []" "unique_live [x]"
  by (simp_all add: unique_live_def)

lemma demo_grant_run:
  "Svc_Grant (service demo_deps demo_tracer) Background 1 2 3 4 ACLEdit ''ok'' None demo_world =
     (Inr demo_entry, demo_w1)"
  using demo_grant_result unfolding demo_grant_def by (metis prod.collapse)

lemma demo_check_run:
  "Svc_CheckAccess (service demo_deps demo_tracer) Background 1 2 3 demo_w1 =
     (Inr \<lparr>ca_HasAccess = True, ca_AccessLevel = Some ''edit'', ca_ExpiresAt = None\<rparr>, snd demo_check)"
  using demo_check_result unfolding demo_check_def by (metis prod.collapse)

lemma demo_revoke_run:
  "Svc_Revoke (service demo_deps demo_tracer) Background 1 2 3 1 demo_w1 = (None, demo_w2)"
  using demo_revoke_result unfolding demo_revoke_def by (metis prod.collapse)

lemma demo_recheck_run:
  "Svc_CheckAccess (service demo_deps demo_tracer) Background 1 2 3 demo_w2 =
     (Inr \<lparr>ca_HasAccess = False, ca_AccessLevel = None, ca_ExpiresAt = None\<rparr>, snd demo_recheck)"
  using demo_recheck_result unfolding demo_recheck_def by (metis prod.collapse)

section \<open>TAC-2: grants\<close>



text \<open>C14. A granted access is seen: a check that follows a successful grant, before the entry
  expires, answers the granted level and expiry, unless the cache invalidation failed and the cache
  still serves, before its deadline, what it held before the grant.\<close>

theorem check_after_grant:
  assumes "deps_ok d" "bound (d_pg d) c t" "bound (d_pg d) c2 t"
    and "Svc_Grant (service d tr) c t n u g l re x w = (Inr y, w1)" "IsActive y (now_db w1)"
    and "Svc_CheckAccess (service d tr) c2 t n u w1 = (Inr a, w2)"
  shows "a = \<lparr>ca_HasAccess = True, ca_AccessLevel = Some l, ca_ExpiresAt = e_ExpiresAt y\<rparr> \<or>
    (\<exists>until. cached (d_vk d) w1 = cached (d_vk d) w \<and> cached (d_vk d) w (t, n, u) = Some (a, until) \<and>
       now_cache w1 < until)"
  using tac.allowed_after_grant [OF assms(1-3)] assms(4-6) unfolding service_def by blast

theorem check_after_grant_witness:
  "projr (fst demo_check) =
     \<lparr>ca_HasAccess = True, ca_AccessLevel = Some ACLEdit, ca_ExpiresAt = e_ExpiresAt demo_entry\<rparr>"
proof -
  have "IsActive demo_entry (now_db demo_w1)" by (simp add: IsActive_def demo_entry_def)
  from check_after_grant [OF demo_deps_ok _ _ demo_grant_run this demo_check_run] demo_nothing_cached(1)
  show ?thesis by (simp add: demo_check_result)
qed

section \<open>TAC-3: revocation\<close>

text \<open>C2. A revoked access is gone: with at most one live entry per triple in the store, a check that
  follows a successful revoke denies access, unless the cache invalidation failed and the cache
  still serves, before its deadline, what it held before the revoke.\<close>

theorem check_after_revoke:
  assumes "deps_ok d" "bound (d_pg d) c t" "bound (d_pg d) c2 t" "unique_live (entries_of w)"
    and "Svc_Revoke (service d tr) c t n u v w = (None, w1)"
    and "Svc_CheckAccess (service d tr) c2 t n u w1 = (Inr a, w2)"
  shows "\<not> ca_HasAccess a \<or>
    (\<exists>until. cached (d_vk d) w1 = cached (d_vk d) w \<and> cached (d_vk d) w (t, n, u) = Some (a, until) \<and>
       now_cache w1 < until)"
  using tac.denied_after_revoke [OF assms(1-4)] assms(5,6) unfolding service_def by blast

theorem check_after_revoke_witness: "\<not> ca_HasAccess (projr (fst demo_recheck))"
proof -
  have "unique_live (entries_of demo_w1)" by (simp add: demo_grant_entries demo_unique)
  from check_after_revoke [OF demo_deps_ok _ _ this demo_revoke_run demo_recheck_run] demo_nothing_cached(2)
  show ?thesis by (simp add: demo_recheck_result)
qed

section \<open>TAC-4: access checks\<close>

text \<open>C13. An access check changes no entry, and it answers either what the cache holds under this
  very (tenant, tender, user) and has not expired, or the truth about the store: access with the
  level and expiry of the one active entry, or no access when there is none.  What it adds to the
  cache is such a true answer, for thirty seconds.\<close>

theorem check_access_answer:
  assumes "deps_ok d" "bound (d_pg d) c t"
    and "Svc_CheckAccess (service d tr) c t n u w = (r, w')"
  shows "entries_of w' = entries_of w \<and>
    (cached (d_vk d) w' = cached (d_vk d) w \<and>
       (\<forall>v. r = Inr v \<longrightarrow> access_answer (now_db w) t n u (entries_of w) v \<or>
          (\<exists>until. cached (d_vk d) w (t, n, u) = Some (v, until) \<and> now_cache w < until)) \<or>
     (\<exists>v. r = Inr v \<and> access_answer (now_db w) t n u (entries_of w) v \<and>
        cached (d_vk d) w' = (cached (d_vk d) w)((t, n, u) \<mapsto> (v, now_cache w + 30 * Second))))"
  using tac.Svc_CheckAccess_any [OF assms(1,2)] assms(3) unfolding service_def ttl_def by blast

theorem check_access_answer_witness:
  "entries_of (snd demo_check) = entries_of demo_w1 \<and>
   access_answer (now_db demo_w1) 1 2 3 (entries_of demo_w1)
     \<lparr>ca_HasAccess = True, ca_AccessLevel = Some ''edit'', ca_ExpiresAt = None\<rparr>"
  using check_access_answer [OF demo_deps_ok _ demo_check_run] demo_nothing_cached(2) by auto

end
