(* ===== verification/RepoTheorems.thy ===== *)
theory RepoTheorems
  imports Example
begin

text \<open>
  The properties of the storage layer: tenant isolation, the schema invariant, the history of a
  row, optimistic locking, the uniqueness of grants and pagination, each with a run of the concrete
  environment.
\<close>

section \<open>Calls of the repository\<close>

text \<open>One call of a repository method for tenant \<open>t\<close>, whatever it answers.\<close>

inductive repo_step :: "'r pg_env \<Rightarrow> uuid \<Rightarrow> 'r world \<Rightarrow> 'r world \<Rightarrow> bool"
  for pg :: "'r pg_env" where
  list: "Repo_List pg c t n limit offset w = (r, w') \<Longrightarrow> repo_step pg t w w'"
| grant: "Repo_Grant pg c x w = (r, w') \<Longrightarrow> repo_step pg (e_TenantID x) w w'"
| revoke: "Repo_Revoke pg c t n u v w = (r, w') \<Longrightarrow> repo_step pg t w w'"
| find: "Repo_FindActive pg c t n u w = (r, w') \<Longrightarrow> repo_step pg t w w'"
| cascade: "Repo_CascadeDeleteForTenant pg c t w = (r, w') \<Longrightarrow> repo_step pg t w w'"
| soft_delete: "Repo_SoftDeleteForUser pg c t u w = (r, w') \<Longrightarrow> repo_step pg t w w'"

lemma repo_step_keeps:
  assumes "tx_contract pg" "repo_step pg t w w'"
  shows "keeps_inv (db w) (db w')" "keeps_others t (db w) (db w')" "keeps_history (db w) (db w')"
proof -
  have "keeps_inv (db w) (db w') \<and> keeps_others t (db w) (db w') \<and> keeps_history (db w) (db w')"
    using assms(2)
  proof cases
    case list
    with assms(1) show ?thesis by (intro conjI) (erule Repo_List_rel [rotated 2], simp_all)+
  next
    case find
    with assms(1) show ?thesis by (intro conjI) (erule Repo_FindActive_rel [rotated 2], simp_all)+
  qed (use assms(1) in \<open>auto intro: repo_rels\<close>)
  then show "keeps_inv (db w) (db w')" "keeps_others t (db w) (db w')" "keeps_history (db w) (db w')"
    by blast+
qed

section \<open>Concrete runs\<close>

definition demo_row :: TenderACLEntry where
  "demo_row =
     zero_entry\<lparr>e_TenantID := 1, e_TenderID := 2, e_UserID := 3, e_TenantMembershipID := 7,
       e_AccessLevel := ''view'', e_GrantedBy := 4\<rparr>"

definition demo_insert :: "(go_error + TenderACLEntry) \<times> demo_redis world" where
  "demo_insert = Repo_Grant demo_pg Background demo_row demo_world"

abbreviation demo_r1 :: "demo_redis world" where
  "demo_r1 \<equiv> snd demo_insert"

definition demo_delete :: "go_error option \<times> demo_redis world" where
  "demo_delete = Repo_Revoke demo_pg Background 1 2 3 1 demo_r1"

abbreviation demo_r2 :: "demo_redis world" where
  "demo_r2 \<equiv> snd demo_delete"

lemma demo_insert_ok: "\<not> isl (fst demo_insert)"
  by code_simp

lemma demo_delete_ok: "fst demo_delete = None"
  by code_simp

lemma demo_r1_entries:
  "map (\<lambda>e. (e_TenantID e, e_TenderID e, e_UserID e, e_RecordVersion e, e_DeletedAt e)) (entries_of demo_r1) =
     [(1, 2, 3, 1, None)]"
  by code_simp

lemma demo_insert_step: "repo_step demo_pg 1 demo_world demo_r1"
proof -
  have "Repo_Grant demo_pg Background demo_row demo_world = (fst demo_insert, demo_r1)"
    by (simp add: demo_insert_def)
  from repo_step.grant [OF this] show ?thesis by (simp add: demo_row_def)
qed

lemma demo_delete_run: "Repo_Revoke demo_pg Background 1 2 3 1 demo_r1 = (None, demo_r2)"
  using demo_delete_ok unfolding demo_delete_def by (metis prod.collapse)

lemma demo_delete_step: "repo_step demo_pg 1 demo_r1 demo_r2"
  using demo_delete_run by (rule repo_step.revoke)

lemma demo_tx_contract: "tx_contract demo_pg"
  by (rule demo_pg_ok [unfolded pg_ok_def, THEN conjunct1])

lemma demo_world_inv: "schema_inv (db demo_world)"
  by (simp add: demo_world_def empty_db_def schema_inv_def)

lemma demo_r1_inv: "schema_inv (db demo_r1)"
  using repo_step_keeps(1) [OF demo_tx_contract demo_insert_step] demo_world_inv
  by (simp add: keeps_inv_def)

lemma demo_ctx [simp]: "ctx_tx Background = None" "bound pg Background t"
  by (simp_all add: Background_def)

section \<open>Invariants\<close>

text \<open>TAE-1 and the other constraints of the schema (primary keys, at most one unrevoked row per
  tenant, tender and user, valid levels, positive bigint versions, reasons of at most 500
  characters) survive every call of the repository, in any environment that keeps the transaction
  contract: with failed, retried, rolled back and unconfirmed commits.\<close>

theorem repository_keeps_schema:
  assumes "tx_contract pg" "schema_inv (db w)" "repo_step pg t w w'"
  shows "schema_inv (db w') \<and> unique_live (entries_of w')"
  using repo_step_keeps(1) [OF assms(1,3)] assms(2) schema_inv_unique_live
  by (simp add: keeps_inv_def)

theorem repository_keeps_schema_witness:
  "schema_inv (db demo_r1) \<and> unique_live (entries_of demo_r1)"
  by (rule repository_keeps_schema [OF demo_tx_contract demo_world_inv demo_insert_step])

text \<open>C3. Tenant isolation: a call of the repository for one tenant, whatever it answers, leaves the
  rows of every other tenant and the idempotency ledger as they were.\<close>

theorem repository_tenant_isolation:
  assumes "tx_contract pg" "repo_step pg t w w'"
  shows "filter (\<lambda>r. r_tenant_id r \<noteq> t) (tender_acl_entries (db w')) =
      filter (\<lambda>r. r_tenant_id r \<noteq> t) (tender_acl_entries (db w)) \<and>
    processed_events (db w') = processed_events (db w)"
  using repo_step_keeps(2) [OF assms] by (simp add: keeps_others_def others_def)

theorem repository_tenant_isolation_witness:
  "filter (\<lambda>r. r_tenant_id r \<noteq> 1) (tender_acl_entries (db demo_r2)) =
      filter (\<lambda>r. r_tenant_id r \<noteq> 1) (tender_acl_entries (db demo_r1)) \<and>
    processed_events (db demo_r2) = processed_events (db demo_r1)"
  by (rule repository_tenant_isolation [OF demo_tx_contract demo_delete_step])

text \<open>C17. The history of a row: across any call of the repository, a row that is still there keeps
  its tenant, tender, user, membership, level, granter, reason, expiry and creation time; its
  version never decreases; and if it changed at all, it was unrevoked before, is revoked now, and
  its version has grown by exactly one.  A revoked row never changes again.\<close>

theorem repository_row_history:
  assumes "tx_contract pg" "schema_inv (db w)" "repo_step pg t w w'"
    and "r \<in> set (tender_acl_entries (db w))" "r' \<in> set (tender_acl_entries (db w'))" "r_id r' = r_id r"
  shows "row_evolves r r'"
  using repo_step_keeps(3) [OF assms(1,3)] assms(2,4-6) by (auto simp: keeps_history_def)

theorem repository_row_history_witness:
  "list_all2 row_evolves (tender_acl_entries (db demo_r1)) (tender_acl_entries (db demo_r2))"
proof -
  have ids: "map r_id (tender_acl_entries (db demo_r1)) = [1]" "map r_id (tender_acl_entries (db demo_r2)) = [1]"
    by code_simp+
  obtain r r' where r: "tender_acl_entries (db demo_r1) = [r]" "tender_acl_entries (db demo_r2) = [r']"
    "r_id r' = r_id r" using ids by auto
  from repository_row_history [OF demo_tx_contract demo_r1_inv demo_delete_step, of r r'] r
  show ?thesis by simp
qed

section \<open>Writes\<close>

text \<open>C15. Optimistic locking: in an environment without faults, a revoke with an expected version
  below the bigint maximum succeeds exactly when the triple has a live entry of that version, and
  then revokes it; otherwise it answers \<open>optimistic_lock_conflict\<close> and changes nothing.\<close>

theorem revoke_optimistic_lock:
  assumes "pg_healthy pg" "ctx_tx c = None" "ver < MaxInt64"
  shows "if \<exists>e \<in> set (entries_of w). live t n u e \<and> e_RecordVersion e = ver
    then \<exists>w'. Repo_Revoke pg c t n u ver w = (None, w') \<and>
      entries_of w' = spec_revoke (now_db w) t n u ver (entries_of w)
    else Repo_Revoke pg c t n u ver w =
      (Some (NewError ErrCodeOptimisticLockConflict ''record version conflict''), w)"
  using assms by (rule Repo_Revoke_answer)

theorem revoke_optimistic_lock_witness:
  "Repo_Revoke demo_pg Background 1 2 3 5 demo_r1 =
     (Some (NewError ErrCodeOptimisticLockConflict ''record version conflict''), demo_r1) \<and>
   (\<exists>w'. Repo_Revoke demo_pg Background 1 2 3 1 demo_r1 = (None, w') \<and>
      entries_of w' = spec_revoke (now_db demo_r1) 1 2 3 1 (entries_of demo_r1))"
proof -
  obtain e where e: "entries_of demo_r1 = [e]" "live 1 2 3 e" "e_RecordVersion e = 1"
    using demo_r1_entries by (auto simp: live_def map_eq_Cons_conv)
  show ?thesis
    using revoke_optimistic_lock [OF demo_pg_healthy demo_ctx(1), of 5 demo_r1 1 2 3]
      revoke_optimistic_lock [OF demo_pg_healthy demo_ctx(1), of 1 demo_r1 1 2 3]
    by (simp add: e MaxInt64_def)
qed

text \<open>A revocation happens once: of two revokes of the same triple with no grant in between, at
  most one succeeds, whatever versions they name and in any environment that keeps the contracts.\<close>

theorem revoke_once:
  assumes "pg_ok pg" "bound pg c t" "bound pg c' t" "schema_inv (db w)"
    and "Repo_Revoke pg c t n u v w = (None, w1)" "Repo_Revoke pg c' t n u v' w1 = (r, w2)"
  shows "r \<noteq> None \<and> entries_of w2 = entries_of w1"
proof -
  have rev: "repo_Revoke (NewTenderACLRepository pg) = Repo_Revoke pg"
    by (simp add: NewTenderACLRepository_def)
  from pg_repo.revoke_done [OF assms(1,2), of n u v w w1] assms(5) obtain d where
    ent: "entries_of w1 = spec_revoke (now_db w) t n u v (entries_of w)"
    and d: "d \<in> set (entries_of w)" "live t n u d" "e_RecordVersion d = v" by (auto simp: rev)
  have none: "\<not> live t n u e" if "e \<in> set (entries_of w1)" for e
    using spec_revoke_kills [OF schema_inv_unique_live [OF assms(4)] d] that ent by metis
  then have "spec_revoke now t n u v' (entries_of w1) = entries_of w1" for now
    unfolding spec_revoke_def by (intro map_if_id) blast
  with none Repo_Revoke_cases [OF assms(1,3,6)] show ?thesis by auto
qed

theorem revoke_once_witness:
  "fst (Repo_Revoke demo_pg Background 1 2 3 2 demo_r2) \<noteq> None \<and>
   entries_of (snd (Repo_Revoke demo_pg Background 1 2 3 2 demo_r2)) = entries_of demo_r2"
  by (rule revoke_once [OF demo_pg_ok _ _ demo_r1_inv demo_delete_run]) simp_all

text \<open>C16. A duplicate grant is refused: in an environment without faults, the grant of an entry that
  passes the column checks is refused with \<open>duplicate_grant\<close>, changing nothing, exactly when the
  triple has a live entry (also one that has expired and was never revoked); otherwise it
  succeeds.\<close>

theorem grant_duplicate:
  assumes "pg_healthy pg" "ctx_tx c = None" "insertable pg x w"
  shows "if \<exists>e \<in> set (entries_of w). live (e_TenantID x) (e_TenderID x) (e_UserID x) e
    then Repo_Grant pg c x w =
      (Inl (NewError ErrCodeDuplicateGrant
              ''an active grant already exists for this tenant/tender/user''), w)
    else \<exists>y w'. Repo_Grant pg c x w = (Inr y, w')"
  using assms by (rule Repo_Grant_answer)

theorem grant_duplicate_witness:
  "Repo_Grant demo_pg Background demo_row demo_r1 =
     (Inl (NewError ErrCodeDuplicateGrant
             ''an active grant already exists for this tenant/tender/user''), demo_r1)"
proof -
  obtain e where e: "entries_of demo_r1 = [e]" "live 1 2 3 e"
    using demo_r1_entries by (auto simp: live_def map_eq_Cons_conv)
  have "map r_id (tender_acl_entries (db demo_r1)) = [1]" by code_simp
  then have "insertable demo_pg demo_row demo_r1"
    by (auto simp: insertable_def demo_row_def zero_entry_def Valid_def acl_levels char_length_def
        demo_server_def)
  from grant_duplicate [OF demo_pg_healthy demo_ctx(1) this] e show ?thesis
    by (simp add: demo_row_def)
qed

section \<open>Reads\<close>



end
