(* ===== verification/ConsumerTheorems.thy ===== *)
theory ConsumerTheorems
  imports Example
begin

text \<open>
  The properties of the two event consumers on Postgres: the cascade and its mark are atomic, a
  redelivered event changes nothing, an unknown event is acknowledged without effect, and a
  well-formed event is completed when nothing fails.
\<close>

section \<open>Progress without faults\<close>

lemma IsProcessed_healthy:
  assumes "pg_healthy (pe_pool r)" "ctx_tx c = None"
  shows "IsProcessed r c ev w = (Inr (ev \<in> seen_events r w), w)"
proof -
  have body: "is_processed_body r ev tx w = (None, VBool (ev \<in> seen_events r w), w)" for tx
    using assms(1) by (simp add: is_processed_body_def seen_events_def)
  have "first_attempt_decides (RunInTx (pe_pool r))" using assms(1) by (simp add: pg_healthy_def)
  then have "RunInTx (pe_pool r) c (\<lambda>_. is_processed_body r ev) w =
      (None, VBool (ev \<in> seen_events r w), w)"
    by (rule first_attempt_decidesD(1)) (simp add: run_attempt_def body)
  with assms(2) show ?thesis
    by (simp add: IsProcessed_def withPool_def TxFromContext_def wrap_result_def)
qed

lemma MarkProcessed_in_tx:
  assumes "pg_healthy (pe_pool r)" "ctx_tx c = Some tx"
  shows "MarkProcessed r c ev w = (None, w\<lparr>db := insert_event (now_db w) ev (pe_consumer r) (db w)\<rparr>)"
  using assms
  by (simp add: MarkProcessed_def withPool_def TxFromContext_def wrap_result_def mark_processed_body_def)

lemma withTenant_in_tx:
  assumes "pg_healthy pg" "ctx_tx c = Some tx"
  shows "withTenant pg c t fn w = wrap_result pg (fn (c\<lparr>ctx_guc := Some (uuid_String pg t)\<rparr>) tx w)"
  using assms by (simp add: withTenant_def TxFromContext_def pg_healthy_def pg_ok_def server_contract_def)

lemma Repo_Cascade_in_tx:
  assumes "pg_healthy pg" "ctx_tx c = Some tx" "tx_guc tx = Some (uuid_String pg t)"
  shows "\<exists>k w'. Repo_CascadeDeleteForTenant pg c t w = (Inr k, w')"
  using isolation_bound [OF healthy_ok [OF assms(1)], of t] assms
  by (simp add: Repo_CascadeDeleteForTenant_def withTenant_in_tx cascade_body_def delete_tenant_def
      wrap_result_def Let_def)

lemma soft_delete_no_overflow:
  assumes "\<And>r. r \<in> set (tender_acl_entries d) \<Longrightarrow> P r \<Longrightarrow> r_deleted_at r = None \<and> r_record_version r < MaxInt64"
  shows "\<not> list_ex (\<lambda>r. (Q r \<and> P r) \<and> MaxInt64 < r_record_version (soft_delete_row now r)) (tender_acl_entries d)"
  using assms by (fastforce simp: list_ex_iff soft_delete_row_live)

lemma Repo_SoftDelete_in_tx:
  assumes "pg_healthy pg" "ctx_tx c = Some tx" "tx_guc tx = Some (uuid_String pg t)"
    and "\<And>r. r \<in> set (tender_acl_entries (db w)) \<Longrightarrow> r_record_version r < MaxInt64"
  shows "\<exists>k w'. Repo_SoftDeleteForUser pg c t u w = (Inr k, w')"
  using isolation_bound [OF healthy_ok [OF assms(1)], of t] assms
    soft_delete_no_overflow [of "db w" "\<lambda>r. r_tenant_id r = t \<and> r_user_id r = u \<and> r_deleted_at r = None"]
  by (simp add: Repo_SoftDeleteForUser_def withTenant_in_tx soft_delete_body_def update_user_def
      soft_delete_where_def wrap_result_def Let_def)

text \<open>A transaction whose function succeeds in its first attempt succeeds.\<close>

lemma TxRunner_healthy:
  assumes "pg_healthy pg"
    and "\<exists>w'. fn (WithTx c \<lparr>tx_guc = ctx_guc c, tx_attempt = 0\<rparr>) w = (None, w')"
  shows "fst (TxRunner_RunInTx pg c fn w) = None"
proof -
  let ?body = "\<lambda>c' tx w. case fn (WithTx c' tx) w of (err, w') \<Rightarrow> (err, VNone, w')"
  from assms(2) obtain w' where run: "run_attempt c ?body 0 w = (None, VNone, w')"
    by (auto simp: run_attempt_def)
  have dec: "first_attempt_decides (RunInTxWithRetryOpts pg writeRetryOpts)"
    using assms(1) by (simp add: pg_healthy_def writeRetryOpts_def)
  from first_attempt_decidesD(1) [OF dec run] show ?thesis by (simp add: TxRunner_RunInTx_def wrap_result_def)
qed

lemmas consumer_sel =
  offboarding_consumer_def member_removal_consumer_def ledger_store_def NewTxRunner_def pg_lib_def
  NewTenderACLRepository_def NewProcessedEvents_def

lemma offboarding_completes_aux:
  assumes h: "pg_healthy pg" and c: "ctx_tx c = None"
    and env: "env_Type env = [] \<or> env_Type env = tenantMembershipsPurgedEventType"
      "uuid_Parse pg (env_ID env) = Inr ev" "uuid_Parse pg (env_TenantID env) = Inr t"
  shows "fst (OffboardingConsumer_Handle (pg_lib pg) (offboarding_consumer pg tr) c env w) = None"
proof -
  let ?c = "Start tr c ''OffboardingConsumer.Handle''"
  let ?g = "?c\<lparr>ctx_guc := Some (uuid_String pg t)\<rparr>"
  let ?r = "offboarding_ledger pg"
  have c': "ctx_tx ?c = None" using c by simp
  have guc: "WithValidatedGUCSet pg (uuid_String pg t) = None"
    using h by (simp add: pg_healthy_def pg_ok_def server_contract_def)
  have fn: "\<exists>w'. offboarding_tx (pg_lib pg) (offboarding_consumer pg tr) l t ev
      (WithTx ?g \<lparr>tx_guc = ctx_guc ?g, tx_attempt = 0\<rparr>) w = (None, w')" for l w
  proof -
    let ?tc = "WithTx ?g \<lparr>tx_guc = ctx_guc ?g, tx_attempt = 0\<rparr>"
    obtain k w1 where del: "Repo_CascadeDeleteForTenant pg ?tc t w = (Inr k, w1)"
      using Repo_Cascade_in_tx [OF h, of ?tc _ t w] by auto
    have mark: "MarkProcessed ?r ?tc ev w1 =
        (None, w1\<lparr>db := insert_event (now_db w1) ev (pe_consumer ?r) (db w1)\<rparr>)"
      by (rule MarkProcessed_in_tx) (simp_all add: NewProcessedEvents_def h)
    from del mark show ?thesis by (simp add: offboarding_tx_def Let_def consumer_sel)
  qed
  have "fst (TxRunner_RunInTx pg ?g (offboarding_tx (pg_lib pg) (offboarding_consumer pg tr) l t ev) w) = None"
    for l w by (rule TxRunner_healthy [OF h]) (rule fn)
  moreover have "IsProcessed ?r ?c ev w = (Inr (ev \<in> seen_events ?r w), w)"
    by (rule IsProcessed_healthy [OF _ c']) (simp add: NewProcessedEvents_def h)
  ultimately show ?thesis
    using env guc
    by (auto simp: OffboardingConsumer_Handle_def Let_def skipDuplicate_def withTenantGUC_def consumer_sel
        offboarding_metrics_def)
qed

lemma member_removal_completes_aux:
  assumes h: "pg_healthy pg" and c: "ctx_tx c = None"
    and env: "env_Type env = [] \<or> env_Type env = membershipRevokedEventType"
      "uuid_Parse pg (env_ID env) = Inr ev" "uuid_Parse pg (env_TenantID env) = Inr t"
      "uuid_Parse pg (env_Subject env) = Inr u"
    and ver: "\<And>r. r \<in> set (tender_acl_entries (db w)) \<Longrightarrow> r_record_version r < MaxInt64"
  shows "fst (MemberRemovalConsumer_Handle (pg_lib pg) (member_removal_consumer pg tr) c env w) = None"
proof -
  let ?c = "Start tr c ''MemberRemovalConsumer.Handle''"
  let ?g = "?c\<lparr>ctx_guc := Some (uuid_String pg t)\<rparr>"
  let ?r = "member_removal_ledger pg"
  have c': "ctx_tx ?c = None" using c by simp
  have guc: "WithValidatedGUCSet pg (uuid_String pg t) = None"
    using h by (simp add: pg_healthy_def pg_ok_def server_contract_def)
  have fn: "\<exists>w'. member_removal_tx (pg_lib pg) (member_removal_consumer pg tr) l t u ev
      (WithTx ?g \<lparr>tx_guc = ctx_guc ?g, tx_attempt = 0\<rparr>) w = (None, w')" for l
  proof -
    let ?tc = "WithTx ?g \<lparr>tx_guc = ctx_guc ?g, tx_attempt = 0\<rparr>"
    obtain k w1 where del: "Repo_SoftDeleteForUser pg ?tc t u w = (Inr k, w1)"
      using Repo_SoftDelete_in_tx [OF h, of ?tc _ t w u] ver by auto
    have mark: "MarkProcessed ?r ?tc ev w1 =
        (None, w1\<lparr>db := insert_event (now_db w1) ev (pe_consumer ?r) (db w1)\<rparr>)"
      by (rule MarkProcessed_in_tx) (simp_all add: NewProcessedEvents_def h)
    from del mark show ?thesis by (simp add: member_removal_tx_def Let_def consumer_sel)
  qed
  have "fst (TxRunner_RunInTx pg ?g (member_removal_tx (pg_lib pg) (member_removal_consumer pg tr) l t u ev) w) = None"
    for l by (rule TxRunner_healthy [OF h]) (rule fn)
  moreover have "IsProcessed ?r ?c ev w = (Inr (ev \<in> seen_events ?r w), w)"
    by (rule IsProcessed_healthy [OF _ c']) (simp add: NewProcessedEvents_def h)
  ultimately show ?thesis
    using env guc
    by (auto simp: MemberRemovalConsumer_Handle_def Let_def skipDuplicate_def withTenantGUC_def consumer_sel
        member_removal_metrics_def)
qed

lemma offboarding_known_pg:
  assumes "pg_ok pg"
    and "env_Type env = [] \<or> env_Type env = tenantMembershipsPurgedEventType"
      "uuid_Parse pg (env_ID env) = Inr ev" "uuid_Parse pg (env_TenantID env) = Inr t"
    and "OffboardingConsumer_Handle (pg_lib pg) (offboarding_consumer pg tr) c env w = (r, w')"
  shows "(entries_of w' = entries_of w \<and>
      seen_events (offboarding_ledger pg) w' = seen_events (offboarding_ledger pg) w \<and>
      (r = None \<longrightarrow> ev \<in> seen_events (offboarding_ledger pg) w)) \<or>
    (ev \<notin> seen_events (offboarding_ledger pg) w \<and>
      seen_events (offboarding_ledger pg) w' = insert ev (seen_events (offboarding_ledger pg) w) \<and>
      entries_of w' = spec_offboard t (entries_of w))"
  by (rule offboarding.offboarding_known [OF assms(1) _ _ _ _ _ assms(2) _ _ assms(5)])
    (simp_all add: offboarding_consumer_def pg_lib_def assms(3,4))

lemma member_removal_known_pg:
  assumes "pg_ok pg"
    and "env_Type env = [] \<or> env_Type env = membershipRevokedEventType"
      "uuid_Parse pg (env_ID env) = Inr ev" "uuid_Parse pg (env_TenantID env) = Inr t"
      "uuid_Parse pg (env_Subject env) = Inr u"
    and "MemberRemovalConsumer_Handle (pg_lib pg) (member_removal_consumer pg tr) c env w = (r, w')"
  shows "(entries_of w' = entries_of w \<and>
      seen_events (member_removal_ledger pg) w' = seen_events (member_removal_ledger pg) w \<and>
      (r = None \<longrightarrow> ev \<in> seen_events (member_removal_ledger pg) w)) \<or>
    (ev \<notin> seen_events (member_removal_ledger pg) w \<and>
      seen_events (member_removal_ledger pg) w' = insert ev (seen_events (member_removal_ledger pg) w) \<and>
      (\<exists>now. entries_of w' = spec_remove_user now t u (entries_of w)))"
  by (rule member_removal.member_removal_known [OF assms(1) _ _ _ _ _ assms(2) _ _ _ assms(6)])
    (simp_all add: member_removal_consumer_def pg_lib_def assms(3-5))

lemma ack_unknown_pg:
  assumes "pg_ok pg" "env_Type env \<noteq> []"
  shows "env_Type env \<noteq> tenantMembershipsPurgedEventType \<Longrightarrow>
      OffboardingConsumer_Handle (pg_lib pg) (offboarding_consumer pg tr) c env w = (r, w') \<Longrightarrow>
      entries_of w' = entries_of w \<and>
      (case uuid_Parse pg (env_ID env) of
         Inl err \<Rightarrow> r = None \<and> seen_events (offboarding_ledger pg) w' = seen_events (offboarding_ledger pg) w
       | Inr ev \<Rightarrow> r \<noteq> None \<and> seen_events (offboarding_ledger pg) w' = seen_events (offboarding_ledger pg) w \<or>
           seen_events (offboarding_ledger pg) w' = insert ev (seen_events (offboarding_ledger pg) w))"
    and "env_Type env \<noteq> membershipRevokedEventType \<Longrightarrow>
      MemberRemovalConsumer_Handle (pg_lib pg) (member_removal_consumer pg tr) c env w = (r, w') \<Longrightarrow>
      entries_of w' = entries_of w \<and>
      (case uuid_Parse pg (env_ID env) of
         Inl err \<Rightarrow> r = None \<and> seen_events (member_removal_ledger pg) w' = seen_events (member_removal_ledger pg) w
       | Inr ev \<Rightarrow> r \<noteq> None \<and> seen_events (member_removal_ledger pg) w' = seen_events (member_removal_ledger pg) w \<or>
           seen_events (member_removal_ledger pg) w' = insert ev (seen_events (member_removal_ledger pg) w))"
proof -
  have lib: "lib_Parse (pg_lib pg) = uuid_Parse pg" by (simp add: pg_lib_def)
  assume "env_Type env \<noteq> tenantMembershipsPurgedEventType"
    "OffboardingConsumer_Handle (pg_lib pg) (offboarding_consumer pg tr) c env w = (r, w')"
  with assms(2) obtain r0 where ack:
    "ackUnknown (pg_lib pg) (Start tr c ''OffboardingConsumer.Handle'') (NewTxRunner pg)
       (ledger_store (offboarding_ledger pg)) offboarding_metrics svcLog tenantLifecycleQueueName env w = (r0, w')"
    "r0 = None \<longleftrightarrow> r = None"
    by (auto simp: OffboardingConsumer_Handle_def offboarding_consumer_def Let_def split: prod.splits option.splits)
  from offboarding.ackUnknown_cases [OF assms(1) ack(1)] ack(2) show "entries_of w' = entries_of w \<and>
      (case uuid_Parse pg (env_ID env) of
         Inl err \<Rightarrow> r = None \<and> seen_events (offboarding_ledger pg) w' = seen_events (offboarding_ledger pg) w
       | Inr ev \<Rightarrow> r \<noteq> None \<and> seen_events (offboarding_ledger pg) w' = seen_events (offboarding_ledger pg) w \<or>
           seen_events (offboarding_ledger pg) w' = insert ev (seen_events (offboarding_ledger pg) w))"
    by (cases "uuid_Parse pg (env_ID env)") (simp_all add: lib)
next
  have lib: "lib_Parse (pg_lib pg) = uuid_Parse pg" by (simp add: pg_lib_def)
  assume "env_Type env \<noteq> membershipRevokedEventType"
    "MemberRemovalConsumer_Handle (pg_lib pg) (member_removal_consumer pg tr) c env w = (r, w')"
  with assms(2) obtain r0 where ack:
    "ackUnknown (pg_lib pg) (Start tr c ''MemberRemovalConsumer.Handle'') (NewTxRunner pg)
       (ledger_store (member_removal_ledger pg)) member_removal_metrics svcLog memberRemovalQueueName env w = (r0, w')"
    "r0 = None \<longleftrightarrow> r = None"
    by (auto simp: MemberRemovalConsumer_Handle_def member_removal_consumer_def Let_def split: prod.splits option.splits)
  from member_removal.ackUnknown_cases [OF assms(1) ack(1)] ack(2) show "entries_of w' = entries_of w \<and>
      (case uuid_Parse pg (env_ID env) of
         Inl err \<Rightarrow> r = None \<and> seen_events (member_removal_ledger pg) w' = seen_events (member_removal_ledger pg) w
       | Inr ev \<Rightarrow> r \<noteq> None \<and> seen_events (member_removal_ledger pg) w' = seen_events (member_removal_ledger pg) w \<or>
           seen_events (member_removal_ledger pg) w' = insert ev (seen_events (member_removal_ledger pg) w))"
    by (cases "uuid_Parse pg (env_ID env)") (simp_all add: lib)
qed

section \<open>Concrete deliveries\<close>

definition demo_acl_row :: "uuid \<Rightarrow> uuid \<Rightarrow> uuid \<Rightarrow> acl_row" where
  "demo_acl_row i t u =
     \<lparr>r_id = i, r_tenant_id = t, r_tender_id = 2, r_user_id = u, r_tenant_membership_id = 7,
      r_access_level = ''view'', r_granted_by = 4, r_reason = None, r_expires_at = None,
      r_record_version = 1, r_created_at = 10, r_updated_at = 10, r_deleted_at = None\<rparr>"

text \<open>Two tenants, two users of the first.\<close>

definition demo_seed :: "demo_redis world" where
  "demo_seed = demo_world\<lparr>db := \<lparr>tender_acl_entries = [demo_acl_row 1 1 3, demo_acl_row 2 1 5, demo_acl_row 3 8 3],
     processed_events = []\<rparr>\<rparr>"

definition demo_event :: "string \<Rightarrow> Envelope" where
  "demo_event ty = \<lparr>env_ID = ''11'', env_Type = ty, env_TenantID = ''1'', env_Subject = ''3''\<rparr>"

abbreviation demo_purge :: "demo_redis world \<Rightarrow> go_error option \<times> demo_redis world" where
  "demo_purge \<equiv> OffboardingConsumer_Handle (pg_lib demo_pg) (offboarding_consumer demo_pg demo_tracer)
     Background (demo_event tenantMembershipsPurgedEventType)"

abbreviation demo_removal :: "demo_redis world \<Rightarrow> go_error option \<times> demo_redis world" where
  "demo_removal \<equiv> MemberRemovalConsumer_Handle (pg_lib demo_pg) (member_removal_consumer demo_pg demo_tracer)
     Background (demo_event membershipRevokedEventType)"

lemma demo_event_parse:
  "uuid_Parse demo_pg (env_ID (demo_event ty)) = Inr 11"
  "uuid_Parse demo_pg (env_TenantID (demo_event ty)) = Inr 1"
  "uuid_Parse demo_pg (env_Subject (demo_event ty)) = Inr 3"
  by (simp_all add: demo_event_def demo_Parse_def is_digit_def)

lemma demo_event_type [simp]: "env_Type (demo_event ty) = ty"
  by (simp add: demo_event_def)

lemma demo_background [simp]: "ctx_tx Background = None"
  by (simp add: Background_def)

lemma demo_seed_versions: "r \<in> set (tender_acl_entries (db demo_seed)) \<Longrightarrow> r_record_version r < MaxInt64"
  by (auto simp: demo_seed_def demo_acl_row_def MaxInt64_def)

lemma demo_seed_unseen [simp]: "seen_events r demo_seed = {}"
  by (simp add: seen_events_def event_exists_def demo_seed_def)

lemma demo_purge_run: "demo_purge demo_seed = (None, snd (demo_purge demo_seed))"
  by (rule prod_eqI)
    (simp_all add: offboarding_completes_aux [OF demo_pg_healthy demo_background _ demo_event_parse(1,2)])

lemma demo_removal_run: "demo_removal demo_seed = (None, snd (demo_removal demo_seed))"
  by (rule prod_eqI)
    (simp_all add: member_removal_completes_aux [OF demo_pg_healthy demo_background _ demo_event_parse]
      demo_seed_versions)

section \<open>TenantMembershipsPurged\<close>

text \<open>C11. IDEMP-2 for tenant offboarding: in any environment that keeps the contracts, with retries,
  rollbacks and unconfirmed commits, a delivery of a well-formed purge event either changes neither
  the entries nor the ledger (and then it is acknowledged only if the event was already recorded),
  or it removes every entry of the tenant and records the event, both together, and does so only
  for an event not recorded before.\<close>

theorem offboarding_atomic:
  assumes "pg_ok pg"
    and "env_Type env = [] \<or> env_Type env = tenantMembershipsPurgedEventType"
    and "uuid_Parse pg (env_ID env) = Inr ev" "uuid_Parse pg (env_TenantID env) = Inr t"
    and "OffboardingConsumer_Handle (pg_lib pg) (offboarding_consumer pg tr) c env w = (r, w')"
  shows "(entries_of w' = entries_of w \<and>
      seen_events (offboarding_ledger pg) w' = seen_events (offboarding_ledger pg) w \<and>
      (r = None \<longrightarrow> ev \<in> seen_events (offboarding_ledger pg) w)) \<or>
    (ev \<notin> seen_events (offboarding_ledger pg) w \<and>
      seen_events (offboarding_ledger pg) w' = insert ev (seen_events (offboarding_ledger pg) w) \<and>
      entries_of w' = filter (\<lambda>e. e_TenantID e \<noteq> t) (entries_of w))"
  using offboarding_known_pg [OF assms] unfolding spec_offboard_def .

theorem offboarding_atomic_witness:
  "entries_of (snd (demo_purge demo_seed)) = filter (\<lambda>e. e_TenantID e \<noteq> 1) (entries_of demo_seed) \<and>
   seen_events (offboarding_ledger demo_pg) (snd (demo_purge demo_seed)) = {11}"
  using offboarding_atomic [OF demo_pg_ok _ demo_event_parse(1,2) demo_purge_run] by simp



text \<open>C19. An offboarding completes: in an environment without faults a well-formed purge event is
  acknowledged, and if it is new, no entry of the tenant is left and the event is recorded.\<close>

theorem offboarding_completes:
  assumes "pg_healthy pg" "ctx_tx c = None"
    and "env_Type env = [] \<or> env_Type env = tenantMembershipsPurgedEventType"
    and "uuid_Parse pg (env_ID env) = Inr ev" "uuid_Parse pg (env_TenantID env) = Inr t"
    and "ev \<notin> seen_events (offboarding_ledger pg) w"
  shows "\<exists>w'. OffboardingConsumer_Handle (pg_lib pg) (offboarding_consumer pg tr) c env w = (None, w') \<and>
    (\<forall>e \<in> set (entries_of w'). e_TenantID e \<noteq> t) \<and> ev \<in> seen_events (offboarding_ledger pg) w'"
proof -
  obtain w' where run:
    "OffboardingConsumer_Handle (pg_lib pg) (offboarding_consumer pg tr) c env w = (None, w')"
    using offboarding_completes_aux [OF assms(1-5)] by (metis prod.collapse)
  from offboarding_known_pg [OF healthy_ok [OF assms(1)] assms(3-5) run] assms(6) run
  show ?thesis using spec_offboard_kills by auto
qed

theorem offboarding_completes_witness:
  "\<exists>w'. demo_purge demo_seed = (None, w') \<and> (\<forall>e \<in> set (entries_of w'). e_TenantID e \<noteq> 1) \<and>
    11 \<in> seen_events (offboarding_ledger demo_pg) w'"
  by (rule offboarding_completes [OF demo_pg_healthy demo_background _ demo_event_parse(1,2)]) simp_all

section \<open>MembershipRevoked\<close>

text \<open>C12. IDEMP-2 for member removal: a delivery of a well-formed removal event either changes neither
  the entries nor the ledger (and is then acknowledged only if the event was already recorded), or
  it revokes every unrevoked entry of that user in that tenant at one instant and records the
  event, both together, and does so only for an event not recorded before.\<close>

theorem member_removal_atomic:
  assumes "pg_ok pg"
    and "env_Type env = [] \<or> env_Type env = membershipRevokedEventType"
    and "uuid_Parse pg (env_ID env) = Inr ev" "uuid_Parse pg (env_TenantID env) = Inr t"
      "uuid_Parse pg (env_Subject env) = Inr u"
    and "MemberRemovalConsumer_Handle (pg_lib pg) (member_removal_consumer pg tr) c env w = (r, w')"
  shows "(entries_of w' = entries_of w \<and>
      seen_events (member_removal_ledger pg) w' = seen_events (member_removal_ledger pg) w \<and>
      (r = None \<longrightarrow> ev \<in> seen_events (member_removal_ledger pg) w)) \<or>
    (ev \<notin> seen_events (member_removal_ledger pg) w \<and>
      seen_events (member_removal_ledger pg) w' = insert ev (seen_events (member_removal_ledger pg) w) \<and>
      (\<exists>now. entries_of w' = spec_remove_user now t u (entries_of w)) \<and>
      (\<forall>e \<in> set (entries_of w'). \<forall>n. \<not> live t n u e))"
  using member_removal_known_pg [OF assms] spec_remove_user_kills by metis

theorem member_removal_atomic_witness:
  "\<exists>now. entries_of (snd (demo_removal demo_seed)) = spec_remove_user now 1 3 (entries_of demo_seed) \<and>
     seen_events (member_removal_ledger demo_pg) (snd (demo_removal demo_seed)) = {11}"
  using member_removal_atomic [OF demo_pg_ok _ demo_event_parse demo_removal_run] by simp



section \<open>Other events\<close>



end
