(* ===== verification/CacheTheorems.thy ===== *)
theory CacheTheorems
  imports Example
begin

text \<open>
  What the cache gives back: the encoding of an answer is exact, and a value that a read returns is
  the one that the last write of that key stored, less than thirty seconds ago.
\<close>

text \<open>C37. What is cached comes back unchanged: after a successful write of an answer for one user of one
  tender of one tenant, a read against that store, at any later time, gives for this triple that very
  answer, with its level and expiry, and only within thirty seconds of the write; and for every other
  triple only what was cached for it before.\<close>

theorem cache_roundtrip:
  assumes "valkey_ok vk" "Cache_Set vk c t n u v w = (None, w1)" "rds w2 = rds w1"
    and "Cache_Get vk c' t' n' u' w2 = (Inr (Some x), w3)"
  shows "if (t', n', u') = (t, n, u) then x = v \<and> now_cache w2 < now_cache w + 30 * Second
    else \<exists>until. cached vk w (t', n', u') = Some (x, until) \<and> now_cache w2 < until"
proof -
  have "cached vk w2 = cached vk w1" by (rule cached_same) (simp add: assms(3))
  moreover have "cached vk w1 = (cached vk w)((t, n, u) \<mapsto> (v, now_cache w + ttl))"
    using Cache_Set_cases [OF assms(1,2)] by blast
  ultimately show ?thesis
    using Cache_Get_cases(3) [OF assms(1,4) refl] by (auto simp: ttl_def split: if_splits)
qed

text \<open>On the example's store a write succeeds and the next read answers it.\<close>

abbreviation may_edit :: CachedAccess where
  "may_edit \<equiv> \<lparr>ca_HasAccess = True, ca_AccessLevel = Some ''edit'', ca_ExpiresAt = None\<rparr>"

lemma demo_cache:
  "fst (Cache_Set demo_vk c t n u may_edit w) = None"
  "fst (Cache_Get demo_vk c' t n u (snd (Cache_Set demo_vk c t n u may_edit w))) = Inr (Some may_edit)"
proof -
  have "\<not> isl (Marshal_access demo_time may_edit)" by code_simp
  then obtain p where p: "Marshal_access demo_time may_edit = Inr p" by (cases "Marshal_access demo_time may_edit") auto
  have "time_UnmarshalText demo_time s = Inr t" if "time_MarshalText demo_time t = Inr s" for t s
    using that by (auto simp: demo_time_def Atoi_Itoa split: if_splits)
  then have q: "Unmarshal_access demo_time p = Inr may_edit" by (rule Unmarshal_Marshal [OF _ p])
  have client: "vk_client demo_vk = demo_client" "vk_time demo_vk = demo_time" by (simp_all add: demo_vk_def)
  have "0 < ttl" by (simp add: ttl_def Second_def Millisecond_def Nanosecond_def)
  then show "fst (Cache_Get demo_vk c' t n u (snd (Cache_Set demo_vk c t n u may_edit w))) = Inr (Some may_edit)"
    and "fst (Cache_Set demo_vk c t n u may_edit w) = None"
    using p q unfolding Cache_Get_def Cache_Set_def client by (simp_all add: demo_client_def)
qed

lemma demo_hit:
  assumes "cached demo_vk w (t, n, u) = Some (v, until)" "now_cache w < until"
  shows "fst (Svc_CheckAccess (service demo_deps tr) c t n u w) = Inr v"
proof -
  let ?c = "Start tr c ''service.ACLService.CheckAccess''"
  have client: "vk_client demo_vk = demo_client" "vk_time demo_vk = demo_time" by (simp_all add: demo_vk_def)
  have "fst (Cache_Get demo_vk ?c t n u w) = Inr (Some v)"
    using assms unfolding Cache_Get_def cached_def client by (auto simp: demo_client_def split: option.splits prod.splits sum.splits)
  then obtain w' where "Cache_Get demo_vk ?c t n u w = (Inr (Some v), w')" by (metis prod.collapse)
  then show ?thesis unfolding Svc_CheckAccess_def by (simp add: service_def NewACLService_def NewCache_def Let_def)
qed

theorem cache_roundtrip_witness:
  "fst (Cache_Get demo_vk Background 1 2 3 (snd (Cache_Set demo_vk Background 1 2 3 may_edit demo_world))) = Inr (Some may_edit) \<and>
   now_cache (snd (Cache_Set demo_vk Background 1 2 3 may_edit demo_world)) < now_cache demo_world + 30 * Second"
proof -
  let ?w1 = "snd (Cache_Set demo_vk Background 1 2 3 may_edit demo_world)"
  have "Cache_Set demo_vk Background 1 2 3 may_edit demo_world = (None, ?w1)"
    by (metis demo_cache(1) prod.collapse)
  moreover obtain w3 where "Cache_Get demo_vk Background 1 2 3 ?w1 = (Inr (Some may_edit), w3)"
    by (metis demo_cache(2) prod.collapse)
  ultimately have "if (1 :: uuid, 2 :: uuid, 3 :: uuid) = (1, 2, 3) then may_edit = may_edit \<and> now_cache ?w1 < now_cache demo_world + 30 * Second
    else \<exists>until. cached demo_vk demo_world (1, 2, 3) = Some (may_edit, until) \<and> now_cache ?w1 < until"
    by (rule cache_roundtrip [OF demo_vk_ok _ refl])
  then show ?thesis by (simp only: if_True demo_cache simp_thms)
qed

end
