(* ===== verification/HttpBase.thy ===== *)
theory HttpBase
  imports Context GoStd Complex_Main
begin

text \<open>
  What the inbound HTTP adapter reads and writes: the bodies of \<open>dto.go\<close>, a matched request as gin
  hands it to a handler, a response as the handler leaves it, and \<open>writeError\<close> of \<open>handler.go\<close>.
\<close>

section \<open>dto.go\<close>

record ErrorResponse =
  err_Error :: string
  err_Status :: int
  err_TraceID :: string
  err_RequestID :: string

record GrantRequest =
  gr_UserID :: string
  gr_AccessLevel :: string
  gr_Reason :: "string option"
  gr_ExpiresAt :: "instant option"

record RevokeRequest =
  rv_RecordVersion :: int

record ACLResponse =
  ar_ID :: uuid
  ar_TenantID :: uuid
  ar_TenderID :: uuid
  ar_UserID :: uuid
  ar_AccessLevel :: string
  ar_GrantedBy :: uuid
  ar_Reason :: string
  ar_ExpiresAt :: "instant option"
  ar_RecordVersion :: int
  ar_CreatedAt :: instant
  ar_UpdatedAt :: instant

record ListResponse =
  lr_Entries :: "ACLResponse list"
  lr_Limit :: int
  lr_Offset :: int

record CheckAccessResponse =
  cr_HasAccess :: bool
  cr_AccessLevel :: "string option"
  cr_ExpiresAt :: "instant option"

definition toACLResponse :: "TenderACLEntry \<Rightarrow> ACLResponse" where
  "toACLResponse e =
     \<lparr>ar_ID = e_ID e, ar_TenantID = e_TenantID e, ar_TenderID = e_TenderID e, ar_UserID = e_UserID e,
      ar_AccessLevel = e_AccessLevel e, ar_GrantedBy = e_GrantedBy e, ar_Reason = e_Reason e,
      ar_ExpiresAt = e_ExpiresAt e, ar_RecordVersion = e_RecordVersion e,
      ar_CreatedAt = e_CreatedAt e, ar_UpdatedAt = e_UpdatedAt e\<rparr>"

definition toACLResponses :: "TenderACLEntry list \<Rightarrow> ACLResponse list" where
  "toACLResponses entries = map toACLResponse entries"

section \<open>Requests and responses\<close>

text \<open>
  What \<open>http.MaxBytesReader\<close> leaves of a body: at most the limit, and whether the read past it fails.
\<close>

record body_reader =
  br_data :: string
  br_too_large :: bool

text \<open>
  A matched request: path and query parameters, headers, the path, the body, the context, gincommon's
  two ids and the identity its authentication left, and the values set on the gin context.
\<close>

record http_req =
  rq_Param :: "string \<Rightarrow> string"
  rq_Query :: "string \<Rightarrow> string"
  rq_Header :: "string \<Rightarrow> string"
  rq_Path :: string
  rq_Body :: string
  rq_Context :: ctx
  rq_TraceID :: string
  rq_RequestID :: string
  rq_Identity :: "RequestContext option"
  rq_Get :: "string \<rightharpoonup> string"

record HealthStatus =
  hs_Healthy :: bool
  hs_TotalConns :: int
  hs_IdleConns :: int
  hs_AcquiredConns :: int
  hs_MaxConns :: int
  hs_Utilization :: rat

record postgres_pool =
  pp_total_conns :: int
  pp_idle_conns :: int
  pp_acquired_conns :: int
  pp_max_conns :: int
  pp_utilization :: rat

record readyz_checks =
  rz_status :: string
  rz_postgres :: string
  rz_postgres_pool :: postgres_pool
  rz_valkey :: string

datatype resp_body =
    BError ErrorResponse
  | BList ListResponse
  | BEntry ACLResponse
  | BAccess CheckAccessResponse
  | BReady readyz_checks
  | BText string
  | BNone

text \<open>A response: the status, the headers that this code sets, and the body.\<close>

record response =
  rs_status :: int
  rs_headers :: "(string \<times> string) list"
  rs_body :: resp_body

definition respond :: "int \<Rightarrow> resp_body \<Rightarrow> response" where
  "respond status body = \<lparr>rs_status = status, rs_headers = [], rs_body = body\<rparr>"

lemma respond_sel [simp]:
  "rs_status (respond st b) = st" "rs_body (respond st b) = b" "rs_headers (respond st b) = []"
  by (simp_all add: respond_def)

definition add_headers :: "(string \<times> string) list \<Rightarrow> response \<Rightarrow> response" where
  "add_headers hs resp = resp\<lparr>rs_headers := hs @ rs_headers resp\<rparr>"

lemma add_headers_sel [simp]:
  "rs_status (add_headers hs resp) = rs_status resp" "rs_body (add_headers hs resp) = rs_body resp"
  "rs_headers (add_headers hs resp) = hs @ rs_headers resp" "add_headers [] resp = resp"
  by (simp_all add: add_headers_def)

section \<open>The error envelope (handler.go)\<close>

definition writeError :: "http_req \<Rightarrow> int \<Rightarrow> string \<Rightarrow> response" where
  "writeError rq status code =
     respond status (BError \<lparr>err_Error = code, err_Status = status, err_TraceID = rq_TraceID rq,
                              err_RequestID = rq_RequestID rq\<rparr>)"

end
