(* ===== verification/HttpApi.thy ===== *)
theory HttpApi
  imports AclService HttpBase
begin

text \<open>
  The handlers of the inbound HTTP adapter, \<open>internal/adapter/inbound/http\<close>: \<open>handler.go\<close>,
  \<open>internal_handler.go\<close> and \<open>health.go\<close>.  A handler takes a matched request and gives the response it
  writes.  Gin's JSON binding, gincommon's authentication middleware and the functions of the uuid
  and pgcommon packages are the parameter \<open>http_lib\<close>.
\<close>

text \<open>
  \<open>hl_auth\<close> is gincommon's \<open>ProtectedMiddlewares\<close>: it answers the request itself, or lets it pass with
  the identity it found, if any.
\<close>

record http_lib =
  hl_Parse :: "string \<Rightarrow> go_error + uuid"
  hl_String :: "uuid \<Rightarrow> string"
  hl_IsConnectionException :: "go_error \<Rightarrow> bool"
  hl_IsInsufficientResources :: "go_error \<Rightarrow> bool"
  hl_IsPgError :: "go_error \<Rightarrow> bool"
  hl_bind_grant :: "body_reader \<Rightarrow> go_error + GrantRequest"
  hl_bind_revoke :: "body_reader \<Rightarrow> go_error + RevokeRequest"
  hl_auth :: "http_req \<Rightarrow> response + RequestContext option"

section \<open>handler.go\<close>

definition requiredRoles :: "string list" where
  "requiredRoles = [''tender_admin'', ''tenant_admin'', ''tenant_owner'']"

definition parseUUIDParam :: "http_lib \<Rightarrow> http_req \<Rightarrow> string \<Rightarrow> response + uuid" where
  "parseUUIDParam lib rq name =
     (case hl_Parse lib (rq_Param rq name) of
        Inl err \<Rightarrow> Inl (writeError rq 400 ErrCodeInvalidRequest)
      | Inr v \<Rightarrow> Inr v)"

text \<open>\<open>None\<close> lets the request pass.\<close>

definition requireSameTenant :: "http_lib \<Rightarrow> http_req \<Rightarrow> uuid \<Rightarrow> response option" where
  "requireSameTenant lib rq tenantID =
     (case RequestContextFromContext (rq_Context rq) of
        None \<Rightarrow> Some (writeError rq 403 ErrCodeInsufficientRole)
      | Some rc \<Rightarrow>
          if rc_TenantID rc \<noteq> hl_String lib tenantID \<or> \<not> HasAnyRole rc requiredRoles
          then Some (writeError rq 403 ErrCodeInsufficientRole)
          else None)"

definition http_isOperatorOrSystemErrorSQLState :: "http_lib \<Rightarrow> go_error \<Rightarrow> bool" where
  "http_isOperatorOrSystemErrorSQLState lib err =
     (if \<not> hl_IsPgError lib err then False
      else (let msg = Error_text err
            in Contains msg ''SQLSTATE 57'' \<or> Contains msg ''SQLSTATE 58''))"

definition respondACLError :: "http_lib \<Rightarrow> http_req \<Rightarrow> go_error \<Rightarrow> response" where
  "respondACLError lib rq err =
     (case CodeOf (Some err) of (code, ok) \<Rightarrow>
        if \<not> ok then
          (if hl_IsConnectionException lib err \<or> hl_IsInsufficientResources lib err \<or>
              http_isOperatorOrSystemErrorSQLState lib err
           then writeError rq 503 ErrCodeDependencyUnavailable
           else writeError rq 500 ErrCodeInternal)
        else
          (let status =
             (if code = ErrCodeInvalidRequest then 400
              else if code = ErrCodeUnauthorized then 401
              else if code = ErrCodeInsufficientRole then 403
              else if code = ErrCodeInvalidAccessLevel \<or> code = ErrCodeInvalidReason \<or>
                      code = ErrCodeInvalidExpiry \<or> code = ErrCodeGranteeNotActiveMember then 422
              else if code = ErrCodeOptimisticLockConflict \<or> code = ErrCodeDuplicateGrant then 409
              else if code = ErrCodeCoreUnavailable \<or> code = ErrCodeDependencyUnavailable then 503
              else 500)
           in writeError rq status code))"

definition maxRequestBodyBytes :: nat where
  "maxRequestBodyBytes = 16 * 1024"

definition limitRequestBody :: "http_req \<Rightarrow> body_reader" where
  "limitRequestBody rq =
     \<lparr>br_data = take maxRequestBodyBytes (rq_Body rq),
      br_too_large = (maxRequestBodyBytes < length (rq_Body rq))\<rparr>"

definition defaultListLimit :: int where
  "defaultListLimit = 100"

definition maxListLimit :: int where
  "maxListLimit = 500"

definition parseListPagination :: "http_req \<Rightarrow> response + int \<times> int" where
  "parseListPagination rq =
     (let raw = rq_Query rq ''limit'' in
      case (if raw \<noteq> [] then
              (case Atoi raw of
                 None \<Rightarrow> Inl (writeError rq 400 ErrCodeInvalidRequest)
               | Some v \<Rightarrow>
                   if v < 1 then Inl (writeError rq 400 ErrCodeInvalidRequest) else Inr v)
            else Inr defaultListLimit) of
        Inl resp \<Rightarrow> Inl resp
      | Inr limit \<Rightarrow>
          (let limit = (if maxListLimit < limit then maxListLimit else limit);
               raw = rq_Query rq ''offset'' in
           if raw \<noteq> [] then
             (case Atoi raw of
                None \<Rightarrow> Inl (writeError rq 400 ErrCodeInvalidRequest)
              | Some v \<Rightarrow>
                  if v < 0 then Inl (writeError rq 400 ErrCodeInvalidRequest) else Inr (limit, v))
           else Inr (limit, 0)))"

definition Handler_List :: "http_lib \<Rightarrow> 'w ACLService \<Rightarrow> http_req \<Rightarrow> 'w \<Rightarrow> response \<times> 'w" where
  "Handler_List lib svc rq w =
     (case parseUUIDParam lib rq ''id'' of
        Inl resp \<Rightarrow> (resp, w)
      | Inr tenantID \<Rightarrow>
     (case requireSameTenant lib rq tenantID of
        Some resp \<Rightarrow> (resp, w)
      | None \<Rightarrow>
     (case parseUUIDParam lib rq ''tender_id'' of
        Inl resp \<Rightarrow> (resp, w)
      | Inr tenderID \<Rightarrow>
     (case parseListPagination rq of
        Inl resp \<Rightarrow> (resp, w)
      | Inr (limit, offset) \<Rightarrow>
     (case Svc_List svc (rq_Context rq) tenantID tenderID limit offset w of
        (Inl err, w) \<Rightarrow> (respondACLError lib rq err, w)
      | (Inr entries, w) \<Rightarrow>
          (respond 200 (BList \<lparr>lr_Entries = toACLResponses entries, lr_Limit = limit,
                               lr_Offset = offset\<rparr>), w))))))"

definition Handler_Grant :: "http_lib \<Rightarrow> 'w ACLService \<Rightarrow> http_req \<Rightarrow> 'w \<Rightarrow> response \<times> 'w" where
  "Handler_Grant lib svc rq w =
     (case parseUUIDParam lib rq ''id'' of
        Inl resp \<Rightarrow> (resp, w)
      | Inr tenantID \<Rightarrow>
     (case requireSameTenant lib rq tenantID of
        Some resp \<Rightarrow> (resp, w)
      | None \<Rightarrow>
     (case parseUUIDParam lib rq ''tender_id'' of
        Inl resp \<Rightarrow> (resp, w)
      | Inr tenderID \<Rightarrow>
     (case hl_bind_grant lib (limitRequestBody rq) of
        Inl err \<Rightarrow> (writeError rq 400 ErrCodeInvalidRequest, w)
      | Inr req \<Rightarrow>
     (case hl_Parse lib (gr_UserID req) of
        Inl err \<Rightarrow> (writeError rq 400 ErrCodeInvalidRequest, w)
      | Inr userID \<Rightarrow>
     (case (case RequestContextFromContext (rq_Context rq) of
              None \<Rightarrow> None
            | Some rc \<Rightarrow>
                (case hl_Parse lib (rc_UserID rc) of Inl err \<Rightarrow> None | Inr u \<Rightarrow> Some u)) of
        None \<Rightarrow> (writeError rq 401 ErrCodeUnauthorized, w)
      | Some grantedBy \<Rightarrow>
     (let reason = (case gr_Reason req of None \<Rightarrow> [] | Some r \<Rightarrow> r) in
      case Svc_Grant svc (rq_Context rq) tenantID tenderID userID grantedBy (gr_AccessLevel req)
             reason (gr_ExpiresAt req) w of
        (Inl err, w) \<Rightarrow> (respondACLError lib rq err, w)
      | (Inr entry, w) \<Rightarrow>
          (respond 201 (BEntry (toACLResponse entry)), w))))))))"

definition Handler_Revoke :: "http_lib \<Rightarrow> 'w ACLService \<Rightarrow> http_req \<Rightarrow> 'w \<Rightarrow> response \<times> 'w" where
  "Handler_Revoke lib svc rq w =
     (case parseUUIDParam lib rq ''id'' of
        Inl resp \<Rightarrow> (resp, w)
      | Inr tenantID \<Rightarrow>
     (case requireSameTenant lib rq tenantID of
        Some resp \<Rightarrow> (resp, w)
      | None \<Rightarrow>
     (case parseUUIDParam lib rq ''tender_id'' of
        Inl resp \<Rightarrow> (resp, w)
      | Inr tenderID \<Rightarrow>
     (case parseUUIDParam lib rq ''user_id'' of
        Inl resp \<Rightarrow> (resp, w)
      | Inr userID \<Rightarrow>
     (case hl_bind_revoke lib (limitRequestBody rq) of
        Inl err \<Rightarrow> (writeError rq 400 ErrCodeInvalidRequest, w)
      | Inr req \<Rightarrow>
     (case Svc_Revoke svc (rq_Context rq) tenantID tenderID userID (rv_RecordVersion req) w of
        (Some err, w) \<Rightarrow> (respondACLError lib rq err, w)
      | (None, w) \<Rightarrow> (respond 204 BNone, w)))))))"

section \<open>internal_handler.go\<close>

definition Handler_CheckAccess :: "http_lib \<Rightarrow> 'w ACLService \<Rightarrow> http_req \<Rightarrow> 'w \<Rightarrow> response \<times> 'w" where
  "Handler_CheckAccess lib svc rq w =
     (case parseUUIDParam lib rq ''id'' of
        Inl resp \<Rightarrow> (resp, w)
      | Inr tenantID \<Rightarrow>
     (case parseUUIDParam lib rq ''tender_id'' of
        Inl resp \<Rightarrow> (resp, w)
      | Inr tenderID \<Rightarrow>
     (case parseUUIDParam lib rq ''user_id'' of
        Inl resp \<Rightarrow> (resp, w)
      | Inr userID \<Rightarrow>
     (case Svc_CheckAccess svc (rq_Context rq) tenantID tenderID userID w of
        (Inl err, w) \<Rightarrow> (respondACLError lib rq err, w)
      | (Inr result, w) \<Rightarrow>
          (respond 200 (BAccess \<lparr>cr_HasAccess = ca_HasAccess result,
             cr_AccessLevel = ca_AccessLevel result, cr_ExpiresAt = ca_ExpiresAt result\<rparr>), w)))))"

section \<open>health.go\<close>

text \<open>\<open>health\<close> is the pool's health check, \<open>cache\<close> the cache whose \<open>Ping\<close> is called.\<close>

definition readyz ::
  "(ctx \<Rightarrow> 'w \<Rightarrow> HealthStatus) \<Rightarrow> 'w Cache \<Rightarrow> http_req \<Rightarrow> 'w \<Rightarrow> response \<times> 'w" where
  "readyz health cache rq w =
     (let c = rq_Context rq;
          hs = health c w;
          healthy = hs_Healthy hs;
          pool = \<lparr>pp_total_conns = hs_TotalConns hs, pp_idle_conns = hs_IdleConns hs,
                  pp_acquired_conns = hs_AcquiredConns hs, pp_max_conns = hs_MaxConns hs,
                  pp_utilization = hs_Utilization hs\<rparr>
      in case cache_Ping cache c w of (err, w) \<Rightarrow>
           (respond (if healthy then 200 else 503)
              (BReady \<lparr>rz_status = (if healthy then ''ok'' else ''error''),
                       rz_postgres = (if healthy then ''ok'' else ''error''),
                       rz_postgres_pool = pool,
                       rz_valkey = (case err of Some _ \<Rightarrow> ''degraded'' | None \<Rightarrow> ''ok'')\<rparr>), w))"

section \<open>The paths through the handlers\<close>

definition authorised :: "http_lib \<Rightarrow> RequestContext option \<Rightarrow> uuid \<Rightarrow> bool" where
  "authorised lib prc t \<longleftrightarrow>
     (\<exists>rc. prc = Some rc \<and> rc_TenantID rc = hl_String lib t \<and> set requiredRoles \<inter> set (rc_Roles rc) \<noteq> {})"

lemma requireSameTenant_None:
  "requireSameTenant lib rq t = None \<longleftrightarrow> authorised lib (ctx_rc (rq_Context rq)) t"
  by (auto simp: requireSameTenant_def authorised_def RequestContextFromContext_def HasAnyRole_iff
      split: option.splits)

text \<open>The status and the code of an error, by the table of the error contract.\<close>

definition code_status :: "string \<Rightarrow> int" where
  "code_status code =
     (case map_of
        [(ErrCodeInvalidRequest, 400), (ErrCodeUnauthorized, 401), (ErrCodeInsufficientRole, 403),
         (ErrCodeInvalidAccessLevel, 422), (ErrCodeInvalidReason, 422), (ErrCodeInvalidExpiry, 422),
         (ErrCodeGranteeNotActiveMember, 422), (ErrCodeOptimisticLockConflict, 409),
         (ErrCodeDuplicateGrant, 409), (ErrCodeCoreUnavailable, 503), (ErrCodeDependencyUnavailable, 503)] code of
        Some st \<Rightarrow> st | None \<Rightarrow> 500)"

definition acl_error :: "http_lib \<Rightarrow> go_error \<Rightarrow> int \<times> string" where
  "acl_error lib err =
     (if snd (CodeOf (Some err)) then (code_status (fst (CodeOf (Some err))), fst (CodeOf (Some err)))
      else if hl_IsConnectionException lib err \<or> hl_IsInsufficientResources lib err \<or>
              http_isOperatorOrSystemErrorSQLState lib err
      then (503, ErrCodeDependencyUnavailable) else (500, ErrCodeInternal))"

lemma respondACLError_eq:
  "respondACLError lib rq err = writeError rq (fst (acl_error lib err)) (snd (acl_error lib err))"
proof -
  have "(if code = ErrCodeInvalidRequest then 400
      else if code = ErrCodeUnauthorized then 401
      else if code = ErrCodeInsufficientRole then 403
      else if code = ErrCodeInvalidAccessLevel \<or> code = ErrCodeInvalidReason \<or>
              code = ErrCodeInvalidExpiry \<or> code = ErrCodeGranteeNotActiveMember then 422
      else if code = ErrCodeOptimisticLockConflict \<or> code = ErrCodeDuplicateGrant then 409
      else if code = ErrCodeCoreUnavailable \<or> code = ErrCodeDependencyUnavailable then 503
      else 500) = code_status code" for code
  proof -
    have some: "(case (if b then Some a else e) of Some st \<Rightarrow> st | None \<Rightarrow> 500) =
        (if b then a else (case e of Some st \<Rightarrow> st | None \<Rightarrow> 500))" for b a and e :: "int option"
      by simp
    have or: "(if p \<or> q then a else b) = (if p then a else if q then a else b)" for p q and a b :: int
      by simp
    show ?thesis
      by (simp only: code_status_def map_of.simps fst_conv snd_conv fun_upd_apply option.case some or)
  qed
  then show ?thesis
    unfolding respondACLError_def acl_error_def Let_def by (cases "CodeOf (Some err)") simp
qed

text \<open>A response that a handler writes before it calls the service.\<close>

definition refused :: "response \<Rightarrow> bool" where
  "refused resp \<longleftrightarrow> rs_status resp \<in> {400, 401, 403} \<and> (\<exists>e. rs_body resp = BError e \<and> err_Status e = rs_status resp)"

lemma refused_writeError: "st \<in> {400, 401, 403} \<Longrightarrow> refused (writeError rq st code)"
  by (simp add: refused_def writeError_def)

lemma parseUUIDParam_Inl: "parseUUIDParam lib rq name = Inl resp \<Longrightarrow> refused resp"
  by (auto simp: parseUUIDParam_def refused_writeError split: sum.splits)

lemma parseUUIDParam_Inr: "parseUUIDParam lib rq name = Inr u \<longleftrightarrow> hl_Parse lib (rq_Param rq name) = Inr u"
  by (auto simp: parseUUIDParam_def split: sum.splits)

lemma requireSameTenant_Some: "requireSameTenant lib rq t = Some resp \<Longrightarrow> refused resp"
  by (auto simp: requireSameTenant_def refused_writeError split: option.splits if_splits)

lemma parseListPagination_Inl: "parseListPagination rq = Inl resp \<Longrightarrow> refused resp"
  by (auto simp: parseListPagination_def Let_def refused_writeError
      split: option.splits if_splits sum.splits)

lemmas refusals = parseUUIDParam_Inl requireSameTenant_Some parseListPagination_Inl refused_writeError

text \<open>An error answer is the envelope with its own status, and never one of the success bodies.\<close>

lemma respondACLError_body:
  "rs_body (respondACLError lib rq err) =
     BError \<lparr>err_Error = snd (acl_error lib err), err_Status = fst (acl_error lib err),
             err_TraceID = rq_TraceID rq, err_RequestID = rq_RequestID rq\<rparr>"
  "rs_status (respondACLError lib rq err) = fst (acl_error lib err)"
  by (simp_all add: respondACLError_eq writeError_def)

lemma Handler_List_paths:
  assumes "Handler_List lib svc rq w = (resp, w')"
  obtains (refused) "refused resp" "w' = w"
  | (called) t n limit offset r where "hl_Parse lib (rq_Param rq ''id'') = Inr t"
      "authorised lib (ctx_rc (rq_Context rq)) t" "hl_Parse lib (rq_Param rq ''tender_id'') = Inr n"
      "parseListPagination rq = Inr (limit, offset)"
      "Svc_List svc (rq_Context rq) t n limit offset w = (r, w')"
      "resp = (case r of Inl err \<Rightarrow> respondACLError lib rq err
         | Inr es \<Rightarrow> respond 200 (BList \<lparr>lr_Entries = toACLResponses es, lr_Limit = limit,
             lr_Offset = offset\<rparr>))"
  using assms
  by (auto simp: Handler_List_def parseUUIDParam_Inr requireSameTenant_None
      split: sum.splits option.splits prod.splits dest: refusals)

lemma Handler_Grant_paths:
  assumes "Handler_Grant lib svc rq w = (resp, w')"
  obtains (refused) "refused resp" "w' = w"
  | (called) t n u g req r where "hl_Parse lib (rq_Param rq ''id'') = Inr t"
      "authorised lib (ctx_rc (rq_Context rq)) t" "hl_Parse lib (rq_Param rq ''tender_id'') = Inr n"
      "hl_bind_grant lib (limitRequestBody rq) = Inr req" "hl_Parse lib (gr_UserID req) = Inr u"
      "\<exists>rc. ctx_rc (rq_Context rq) = Some rc \<and> hl_Parse lib (rc_UserID rc) = Inr g"
      "Svc_Grant svc (rq_Context rq) t n u g (gr_AccessLevel req)
         (case gr_Reason req of None \<Rightarrow> [] | Some re \<Rightarrow> re) (gr_ExpiresAt req) w = (r, w')"
      "resp = (case r of Inl err \<Rightarrow> respondACLError lib rq err
         | Inr e \<Rightarrow> respond 201 (BEntry (toACLResponse e)))"
proof (cases "refused resp \<and> w' = w")
  case True
  then show thesis by (intro refused) auto
next
  case False
  note H = assms [unfolded Handler_Grant_def Let_def]
  obtain t where t: "parseUUIDParam lib rq ''id'' = Inr t"
    using H False by (auto split: sum.splits dest: refusals)
  have same: "requireSameTenant lib rq t = None"
    using H False t by (auto split: option.splits dest: refusals)
  obtain n where n: "parseUUIDParam lib rq ''tender_id'' = Inr n"
    using H False t same by (auto split: sum.splits dest: refusals)
  obtain req where req: "hl_bind_grant lib (limitRequestBody rq) = Inr req"
    using H False t same n by (auto split: sum.splits simp: refused_writeError)
  obtain u where u: "hl_Parse lib (gr_UserID req) = Inr u"
    using H False t same n req by (auto split: sum.splits simp: refused_writeError)
  obtain rc where rc: "ctx_rc (rq_Context rq) = Some rc"
    using same by (auto simp: requireSameTenant_None authorised_def)
  obtain g where g: "hl_Parse lib (rc_UserID rc) = Inr g"
  proof (cases "hl_Parse lib (rc_UserID rc)")
    case (Inl err)
    with H t same n req u rc have "resp = writeError rq 401 ErrCodeUnauthorized \<and> w' = w"
      by (simp add: RequestContextFromContext_def)
    with False show thesis by (simp add: refused_writeError)
  qed
  obtain r w1 where run: "Svc_Grant svc (rq_Context rq) t n u g (gr_AccessLevel req)
      (case gr_Reason req of None \<Rightarrow> [] | Some re \<Rightarrow> re) (gr_ExpiresAt req) w = (r, w1)" by fastforce
  have "w1 = w'" and resp: "resp = (case r of Inl err \<Rightarrow> respondACLError lib rq err
      | Inr e \<Rightarrow> respond 201 (BEntry (toACLResponse e)))"
    using H t same n req u rc g run by (cases r; simp add: RequestContextFromContext_def)+
  with run t same n req u rc g show thesis
    by (intro called [of t n req u g r]) (auto simp: parseUUIDParam_Inr requireSameTenant_None)
qed

lemma Handler_Revoke_paths:
  assumes "Handler_Revoke lib svc rq w = (resp, w')"
  obtains (refused) "refused resp" "w' = w"
  | (called) t n u req r where "hl_Parse lib (rq_Param rq ''id'') = Inr t"
      "authorised lib (ctx_rc (rq_Context rq)) t" "hl_Parse lib (rq_Param rq ''tender_id'') = Inr n"
      "hl_Parse lib (rq_Param rq ''user_id'') = Inr u" "hl_bind_revoke lib (limitRequestBody rq) = Inr req"
      "Svc_Revoke svc (rq_Context rq) t n u (rv_RecordVersion req) w = (r, w')"
      "resp = (case r of Some err \<Rightarrow> respondACLError lib rq err | None \<Rightarrow> respond 204 BNone)"
proof (cases "refused resp \<and> w' = w")
  case True
  then show thesis by (intro refused) auto
next
  case False
  note H = assms [unfolded Handler_Revoke_def]
  obtain t where t: "parseUUIDParam lib rq ''id'' = Inr t"
    using H False by (auto split: sum.splits dest: refusals)
  have same: "requireSameTenant lib rq t = None"
    using H False t by (auto split: option.splits dest: refusals)
  obtain n where n: "parseUUIDParam lib rq ''tender_id'' = Inr n"
    using H False t same by (auto split: sum.splits dest: refusals)
  obtain u where u: "parseUUIDParam lib rq ''user_id'' = Inr u"
    using H False t same n by (auto split: sum.splits dest: refusals)
  obtain req where req: "hl_bind_revoke lib (limitRequestBody rq) = Inr req"
    using H False t same n u by (auto split: sum.splits simp: refused_writeError)
  obtain r w1 where run: "Svc_Revoke svc (rq_Context rq) t n u (rv_RecordVersion req) w = (r, w1)"
    by fastforce
  have "w1 = w'" and resp: "resp = (case r of Some err \<Rightarrow> respondACLError lib rq err
      | None \<Rightarrow> respond 204 BNone)"
    using H t same n u req run by (cases r; simp)+
  with run t same n u req show thesis
    by (intro called [of t n u req r]) (auto simp: parseUUIDParam_Inr requireSameTenant_None)
qed

lemma Handler_CheckAccess_paths:
  assumes "Handler_CheckAccess lib svc rq w = (resp, w')"
  obtains (refused) "refused resp" "w' = w"
  | (called) t n u r where "hl_Parse lib (rq_Param rq ''id'') = Inr t"
      "hl_Parse lib (rq_Param rq ''tender_id'') = Inr n" "hl_Parse lib (rq_Param rq ''user_id'') = Inr u"
      "Svc_CheckAccess svc (rq_Context rq) t n u w = (r, w')"
      "resp = (case r of Inl err \<Rightarrow> respondACLError lib rq err
         | Inr v \<Rightarrow> respond 200 (BAccess \<lparr>cr_HasAccess = ca_HasAccess v,
             cr_AccessLevel = ca_AccessLevel v, cr_ExpiresAt = ca_ExpiresAt v\<rparr>))"
  using assms
  by (auto simp: Handler_CheckAccess_def parseUUIDParam_Inr
      split: sum.splits option.splits prod.splits dest: refusals)

end
