(* ===== verification/Router.thy ===== *)
theory Router
  imports HttpApi
begin

text \<open>
  \<open>middleware.go\<close>, \<open>router.go\<close> and the two static handlers \<open>swagger_theme.go\<close> and
  \<open>swagger_initializer.go\<close>: the routes with the middleware that stands before each handler, and how a
  matched request runs through them.  Gin's matching of a path to a route is not modelled.
\<close>

section \<open>middleware.go\<close>

definition ContextBridgeMiddleware :: "http_req \<Rightarrow> http_req" where
  "ContextBridgeMiddleware rq =
     (case rq_Identity rq of
        Some p \<Rightarrow>
          (let rc = \<lparr>rc_TenantID = rc_TenantID p, rc_UserID = rc_UserID p, rc_Roles = rc_Roles p\<rparr>
           in rq\<lparr>rq_Context := WithContext (rq_Context rq) rc\<rparr>)
      | None \<Rightarrow> rq)"

section \<open>The documentation surface\<close>

record DocsConfig =
  dc_Environment :: string
  dc_Enabled :: bool
  dc_AuthToken :: string

definition docs_active :: "DocsConfig \<Rightarrow> bool" where
  "docs_active d \<longleftrightarrow> dc_Environment d \<noteq> ''production'' \<or> dc_Enabled d"

definition secHeaders :: "(string \<times> string) list" where
  "secHeaders =
     [(''X-Frame-Options'', ''DENY''), (''X-Content-Type-Options'', ''nosniff''),
      (''Content-Security-Policy'',
       ''default-src 'self'; script-src 'self' 'unsafe-inline' 'unsafe-eval'; '' @
       ''style-src 'self' 'unsafe-inline'; img-src 'self' data:; font-src 'self' data:; connect-src 'self'' @
       [CHR 0x27])]"

definition docsAuthMiddleware :: "string \<Rightarrow> http_req \<Rightarrow> response option" where
  "docsAuthMiddleware token rq =
     (if rq_Header rq ''Authorization'' \<noteq> ''Bearer '' @ token then Some (respond 401 BNone) else None)"

definition envLabelContextKey :: string where
  "envLabelContextKey = ''asyncapi_env_label''"

definition envMiddleware :: "string \<Rightarrow> http_req \<Rightarrow> http_req" where
  "envMiddleware env rq = rq\<lparr>rq_Get := (rq_Get rq)(envLabelContextKey \<mapsto> env)\<rparr>"

definition envLabelFromGin :: "http_req \<Rightarrow> string" where
  "envLabelFromGin rq = (case rq_Get rq envLabelContextKey of Some s \<Rightarrow> s | None \<Rightarrow> [])"

text \<open>The two handlers of static text; the texts are arguments.\<close>

definition SwaggerThemeHandler :: "string \<Rightarrow> response" where
  "SwaggerThemeHandler swaggerThemeCSS =
     add_headers [(''Content-Type'', ''text/css; charset=utf-8''), (''Cache-Control'', ''no-cache'')]
       (respond 200 (BText swaggerThemeCSS))"

definition SwaggerInitializerHandler :: "string \<Rightarrow> response" where
  "SwaggerInitializerHandler swaggerInitializerJS =
     add_headers [(''Content-Type'', ''application/javascript; charset=utf-8''), (''Cache-Control'', ''no-cache'')]
       (respond 200 (BText swaggerInitializerJS))"

definition AsyncAPIYAMLHandler :: "string \<Rightarrow> response" where
  "AsyncAPIYAMLHandler spec =
     add_headers [(''Content-Type'', ''application/yaml; charset=utf-8'')] (respond 200 (BText spec))"

text \<open>
  What the other handlers need: gincommon's health handler, gin-swagger, the static texts, and the
  page that the event catalog answers at this moment.  That page is rendered from a specification
  that the handler keeps between requests: \<open>AsyncApi\<close> is its model, \<open>DocsSite\<close> serves it behind these
  routes, and what is shown of the routes before that holds for any page.
\<close>

record docs_lib =
  dl_HealthHandler :: "http_req \<Rightarrow> response"
  dl_stdSwagger :: "http_req \<Rightarrow> response"
  dl_swaggerThemeCSS :: string
  dl_swaggerInitializerJS :: string
  dl_AsyncAPISpec :: string
  dl_AsyncAPIHandler :: "http_req \<Rightarrow> response"

definition swagger_dispatch :: "docs_lib \<Rightarrow> http_req \<Rightarrow> response" where
  "swagger_dispatch dl rq =
     (if HasSuffix (rq_Path rq) ''/index.css'' then SwaggerThemeHandler (dl_swaggerThemeCSS dl)
      else if HasSuffix (rq_Path rq) ''/swagger-initializer.js''
      then SwaggerInitializerHandler (dl_swaggerInitializerJS dl)
      else dl_stdSwagger dl rq)"

section \<open>router.go\<close>

datatype endpoint =
    EList | EGrant | ERevoke | ECheckAccess | EHealthz | EReadyz | ESwagger | EAsyncAPI | EAsyncAPIYAML

datatype middleware =
    ProtectedMiddlewares | ContextBridge | SecHeaders | DocsAuth string | EnvLabel string

record route =
  rt_method :: string
  rt_pattern :: string
  rt_chain :: "middleware list"
  rt_handler :: endpoint

definition mk_route :: "string \<Rightarrow> string \<Rightarrow> middleware list \<Rightarrow> endpoint \<Rightarrow> route" where
  "mk_route m p ch e = \<lparr>rt_method = m, rt_pattern = p, rt_chain = ch, rt_handler = e\<rparr>"

definition registerDocsRoutes :: "DocsConfig \<Rightarrow> route list" where
  "registerDocsRoutes docs =
     (if \<not> docs_active docs then []
      else
        (let auth = (if dc_Environment docs = ''production'' \<and> dc_AuthToken docs \<noteq> []
                     then [DocsAuth (dc_AuthToken docs)] else []);
             chain = [SecHeaders] @ auth;
             asyncGroup = chain @ [EnvLabel (dc_Environment docs)]
         in [mk_route ''GET'' ''/swagger/*any'' chain ESwagger,
             mk_route ''GET'' ''/asyncapi'' asyncGroup EAsyncAPI,
             mk_route ''GET'' ''/asyncapi.yaml'' asyncGroup EAsyncAPIYAML]))"

text \<open>The engine: the service name of the metrics, the deadline of a request in seconds, the routes.\<close>

record engine =
  eng_ServiceName :: string
  eng_Timeout :: duration
  eng_routes :: "route list"

definition NewRouter :: "string \<Rightarrow> DocsConfig \<Rightarrow> engine" where
  "NewRouter serviceName docs =
     (let public = [ProtectedMiddlewares, ContextBridge] in
      \<lparr>eng_ServiceName = (if serviceName = [] then ''tender-acl'' else serviceName),
       eng_Timeout = 30 * Second,
       eng_routes =
         [mk_route ''GET'' ''/api/v1/tenants/:id/tenders/:tender_id/acl'' public EList,
          mk_route ''POST'' ''/api/v1/tenants/:id/tenders/:tender_id/acl'' public EGrant,
          mk_route ''DELETE'' ''/api/v1/tenants/:id/tenders/:tender_id/acl/:user_id'' public ERevoke,
          mk_route ''GET'' ''/internal/tenants/:id/tenders/:tender_id/acl/:user_id'' [] ECheckAccess,
          mk_route ''GET'' ''/healthz'' [] EHealthz,
          mk_route ''GET'' ''/readyz'' [] EReadyz] @ registerDocsRoutes docs\<rparr>)"

section \<open>Serving a matched route\<close>

text \<open>
  The chain runs from the left, each middleware on what the one before left of the request and of the
  headers; it stops at the first that answers.
\<close>

fun run_chain ::
  "http_lib \<Rightarrow> middleware list \<Rightarrow> (string \<times> string) list \<Rightarrow> http_req
    \<Rightarrow> response + (string \<times> string) list \<times> http_req" where
  "run_chain lib [] hs rq = Inr (hs, rq)"
| "run_chain lib (ProtectedMiddlewares # rest) hs rq =
     (case hl_auth lib rq of
        Inl resp \<Rightarrow> Inl (add_headers hs resp)
      | Inr prc \<Rightarrow> run_chain lib rest hs (rq\<lparr>rq_Identity := prc\<rparr>))"
| "run_chain lib (ContextBridge # rest) hs rq = run_chain lib rest hs (ContextBridgeMiddleware rq)"
| "run_chain lib (SecHeaders # rest) hs rq = run_chain lib rest (hs @ secHeaders) rq"
| "run_chain lib (DocsAuth token # rest) hs rq =
     (case docsAuthMiddleware token rq of
        Some resp \<Rightarrow> Inl (add_headers hs resp)
      | None \<Rightarrow> run_chain lib rest hs rq)"
| "run_chain lib (EnvLabel env # rest) hs rq = run_chain lib rest hs (envMiddleware env rq)"

definition handle ::
  "http_lib \<Rightarrow> docs_lib \<Rightarrow> 'w ACLService \<Rightarrow> (ctx \<Rightarrow> 'w \<Rightarrow> HealthStatus) \<Rightarrow> endpoint \<Rightarrow> http_req
    \<Rightarrow> 'w \<Rightarrow> response \<times> 'w" where
  "handle lib dl svc health e rq w =
     (case e of
        EList \<Rightarrow> Handler_List lib svc rq w
      | EGrant \<Rightarrow> Handler_Grant lib svc rq w
      | ERevoke \<Rightarrow> Handler_Revoke lib svc rq w
      | ECheckAccess \<Rightarrow> Handler_CheckAccess lib svc rq w
      | EReadyz \<Rightarrow> readyz health (sv_cache svc) rq w
      | EHealthz \<Rightarrow> (dl_HealthHandler dl rq, w)
      | ESwagger \<Rightarrow> (swagger_dispatch dl rq, w)
      | EAsyncAPI \<Rightarrow> (dl_AsyncAPIHandler dl rq, w)
      | EAsyncAPIYAML \<Rightarrow> (AsyncAPIYAMLHandler (dl_AsyncAPISpec dl), w))"

definition serve ::
  "http_lib \<Rightarrow> docs_lib \<Rightarrow> 'w ACLService \<Rightarrow> (ctx \<Rightarrow> 'w \<Rightarrow> HealthStatus) \<Rightarrow> route \<Rightarrow> http_req
    \<Rightarrow> 'w \<Rightarrow> response \<times> 'w" where
  "serve lib dl svc health rt rq w =
     (case run_chain lib (rt_chain rt) [] rq of
        Inl resp \<Rightarrow> (resp, w)
      | Inr (hs, rq) \<Rightarrow>
          (case handle lib dl svc health (rt_handler rt) rq w of (resp, w) \<Rightarrow> (add_headers hs resp, w)))"

section \<open>What the chain leaves of a request\<close>

lemma ContextBridge_ctx [simp]:
  "ctx_tx (rq_Context (ContextBridgeMiddleware rq)) = ctx_tx (rq_Context rq)"
  "ctx_guc (rq_Context (ContextBridgeMiddleware rq)) = ctx_guc (rq_Context rq)"
  "rq_Param (ContextBridgeMiddleware rq) = rq_Param rq" "rq_Query (ContextBridgeMiddleware rq) = rq_Query rq"
  "rq_Body (ContextBridgeMiddleware rq) = rq_Body rq" "rq_Path (ContextBridgeMiddleware rq) = rq_Path rq"
  "rq_Header (ContextBridgeMiddleware rq) = rq_Header rq"
  by (auto simp: ContextBridgeMiddleware_def WithContext_def Let_def split: option.splits)

text \<open>The parts of a request that no middleware changes.\<close>

definition same_request :: "http_req \<Rightarrow> http_req \<Rightarrow> bool" where
  "same_request rq rq' \<longleftrightarrow>
     rq_Param rq' = rq_Param rq \<and> rq_Query rq' = rq_Query rq \<and> rq_Body rq' = rq_Body rq \<and>
     rq_Header rq' = rq_Header rq \<and> rq_Path rq' = rq_Path rq \<and>
     ctx_tx (rq_Context rq') = ctx_tx (rq_Context rq) \<and> ctx_guc (rq_Context rq') = ctx_guc (rq_Context rq)"

lemma run_chain_same: "run_chain lib ch hs rq = Inr (hs', rq') \<Longrightarrow> same_request rq rq'"
  by (induction lib ch hs rq rule: run_chain.induct)
    (auto simp: same_request_def envMiddleware_def split: sum.splits option.splits)

lemma run_chain_public:
  "run_chain lib [ProtectedMiddlewares, ContextBridge] hs rq =
     (case hl_auth lib rq of
        Inl resp \<Rightarrow> Inl (add_headers hs resp)
      | Inr prc \<Rightarrow> Inr (hs, ContextBridgeMiddleware (rq\<lparr>rq_Identity := prc\<rparr>)))"
  by (simp split: sum.splits)

lemma bridged_identity:
  "ctx_rc (rq_Context (ContextBridgeMiddleware (rq\<lparr>rq_Identity := Some p\<rparr>))) =
     Some \<lparr>rc_TenantID = rc_TenantID p, rc_UserID = rc_UserID p, rc_Roles = rc_Roles p\<rparr>"
  "ctx_rc (rq_Context (ContextBridgeMiddleware (rq\<lparr>rq_Identity := None\<rparr>))) = ctx_rc (rq_Context rq)"
  by (simp_all add: ContextBridgeMiddleware_def WithContext_def Let_def)

text \<open>A served route ran its handler on a request of the same content, or changed nothing.\<close>

lemma serve_paths:
  assumes "serve lib dl svc health rt rq w = (resp, w')"
  obtains (stopped) "run_chain lib (rt_chain rt) [] rq = Inl resp" "w' = w"
  | (handled) hs rq' resp0 where "run_chain lib (rt_chain rt) [] rq = Inr (hs, rq')" "same_request rq rq'"
      "handle lib dl svc health (rt_handler rt) rq' w = (resp0, w')" "resp = add_headers hs resp0"
  using assms
  by (auto simp: serve_def split: sum.splits prod.splits dest: run_chain_same)

lemma handle_paths:
  assumes "handle lib dl svc health e rq w = (resp, w')"
  obtains (none) "w' = w" "e \<in> {EHealthz, ESwagger, EAsyncAPI, EAsyncAPIYAML}"
  | (List) "e = EList" "Handler_List lib svc rq w = (resp, w')"
  | (Grant) "e = EGrant" "Handler_Grant lib svc rq w = (resp, w')"
  | (Revoke) "e = ERevoke" "Handler_Revoke lib svc rq w = (resp, w')"
  | (CheckAccess) "e = ECheckAccess" "Handler_CheckAccess lib svc rq w = (resp, w')"
  | (Readyz) "e = EReadyz" "readyz health (sv_cache svc) rq w = (resp, w')"
  using assms by (cases e) (auto simp: handle_def)

end
