(* ===== verification/Wiring.thy ===== *)
theory Wiring
  imports Service Router
begin

text \<open>
  \<open>cmd/tender-acl/main.go\<close>: the process that \<open>run\<close> composes, and the loop that trims the event
  ledger.  The servers' sockets, the SQS polling of platform-events, signals and shutdown are not
  modelled; what they call is.
\<close>

section \<open>The process\<close>

record 'r process =
  pr_deps :: "'r deps"
  pr_tracer :: Tracer
  pr_http :: http_lib
  pr_docs_lib :: docs_lib
  pr_health :: "ctx \<Rightarrow> 'r world \<Rightarrow> HealthStatus"
  pr_engine :: engine

text \<open>The HTTP side: \<open>svc\<close>, \<open>handler\<close> and \<open>router\<close> of \<open>run\<close>.\<close>

definition process_serve :: "'r process \<Rightarrow> route \<Rightarrow> http_req \<Rightarrow> 'r world \<Rightarrow> response \<times> 'r world" where
  "process_serve p rt rq w =
     serve (pr_http p) (pr_docs_lib p) (service (pr_deps p) (pr_tracer p)) (pr_health p) rt rq w"

text \<open>The queue side: the two consumers on the same pool.\<close>

definition process_offboarding ::
  "'r process \<Rightarrow> ctx \<Rightarrow> Envelope \<Rightarrow> 'r world \<Rightarrow> go_error option \<times> 'r world" where
  "process_offboarding p c env w =
     OffboardingConsumer_Handle (pg_lib (d_pg (pr_deps p)))
       (offboarding_consumer (d_pg (pr_deps p)) (pr_tracer p)) c env w"

definition process_member_removal ::
  "'r process \<Rightarrow> ctx \<Rightarrow> Envelope \<Rightarrow> 'r world \<Rightarrow> go_error option \<times> 'r world" where
  "process_member_removal p c env w =
     MemberRemovalConsumer_Handle (pg_lib (d_pg (pr_deps p)))
       (member_removal_consumer (d_pg (pr_deps p)) (pr_tracer p)) c env w"

section \<open>runProcessedEventsCleanup\<close>

text \<open>What the \<open>select\<close> of the loop receives: a tick, or the end of the context.\<close>

datatype cleanup_signal = TickerC | CtxDone

definition cleanup_tick :: "'r ProcessedEvents \<Rightarrow> 'r world SlogStyleLogger \<Rightarrow> ctx \<Rightarrow> 'r world \<Rightarrow> 'r world" where
  "cleanup_tick repo logger c w =
     (case CleanupExpired repo c w of
        (Inl err, w) \<Rightarrow>
          ErrorContext logger c ''processed_events cleanup failed'' [AString ''error'', AString (Error_text err)] w
      | (Inr deleted, w) \<Rightarrow>
          if 0 < deleted
          then InfoContext logger c ''processed_events cleanup complete'' [AString ''deleted'', AInt deleted] w
          else w)"

text \<open>
  The loop over the signals it receives.  It returns at the end of the context, and what arrives
  later is not read.
\<close>

fun runProcessedEventsCleanup ::
  "'r ProcessedEvents \<Rightarrow> 'r world SlogStyleLogger \<Rightarrow> ctx \<Rightarrow> cleanup_signal list \<Rightarrow> 'r world \<Rightarrow> 'r world" where
  "runProcessedEventsCleanup repo logger c [] w = w"
| "runProcessedEventsCleanup repo logger c (CtxDone # rest) w = w"
| "runProcessedEventsCleanup repo logger c (TickerC # rest) w =
     runProcessedEventsCleanup repo logger c rest (cleanup_tick repo logger c w)"

end
