(* ===== verification/System.thy ===== *)
theory System
  imports Wiring
begin

text \<open>
  The whole process as a transition system: HTTP requests, event deliveries, the cleanup of the
  ledger, evictions in the cache and the passing of time.  The first half lifts relations between
  the tables from the repository's closures to the service, the handlers and the consumers.
\<close>

section \<open>Relations that every write of a tenant respects\<close>

definition tenant_rel :: "(database \<Rightarrow> database \<Rightarrow> bool) \<Rightarrow> 'r pg_env \<Rightarrow> uuid \<Rightarrow> bool" where
  "tenant_rel R pg t \<longleftrightarrow>
     reflp R \<and> (\<forall>x. e_TenantID x = t \<longrightarrow> db_rel R (grant_body pg x)) \<and>
     (\<forall>n u v. db_rel R (revoke_body pg t n u v)) \<and> db_rel R (cascade_body pg t) \<and>
     (\<forall>u. db_rel R (soft_delete_body pg t u))"

lemma tenant_rel_keeps:
  "tenant_rel keeps_inv pg t" "tenant_rel (keeps_others t) pg t" "tenant_rel keeps_history pg t"
  using grant_body_rel revoke_body_rel cascade_body_rel soft_delete_body_rel
  by (auto simp: tenant_rel_def)

lemma tenant_relD:
  assumes "tenant_rel R pg t"
  shows "reflp R" "e_TenantID x = t \<Longrightarrow> db_rel R (grant_body pg x)" "db_rel R (revoke_body pg t n u v)"
    "db_rel R (cascade_body pg t)" "db_rel R (soft_delete_body pg t u)"
  using assms by (auto simp: tenant_rel_def)

lemma tenant_rel_refl: "tenant_rel R pg t \<Longrightarrow> R d d"
  by (auto simp: tenant_rel_def reflp_def)

section \<open>What stays out of the tables\<close>

lemma service_sel [simp]:
  "sv_repo (service d tr) = NewTenderACLRepository (d_pg d)" "sv_checker (service d tr) = checker_client (d_hc d)"
  "sv_cache (service d tr) = NewCache (d_vk d)" "sv_metrics (service d tr) = service_metrics"
  "sv_logger (service d tr) = svcLog" "sv_tracer (service d tr) = tr" "sv_Now (service d tr) = now_app"
  by (simp_all add: service_def)

lemma metrics_db [simp]:
  "db (am_RecordGrantCheck service_metrics c st w) = db w" "db (am_RecordCheckCall service_metrics c st w) = db w"
  "db (am_RecordWrite service_metrics c op st w) = db w" "db (am_RecordCacheHit service_metrics c w) = db w"
  "db (am_RecordCacheMiss service_metrics c w) = db w"
  by (simp_all add: service_metrics_def frame_simps)

lemma logged_failure_db [simp]: "db (logged_failure (service d tr) c msg er w) = db w"
  by (cases er) (simp_all add: logged_failure_def log_defs frame_simps)

lemma cache_db:
  "cache_Get (NewCache vk) c t n u w = (a, w') \<Longrightarrow> db w' = db w"
  "cache_Set (NewCache vk) c t n u v w = (b, w') \<Longrightarrow> db w' = db w"
  "cache_Delete (NewCache vk) c t n u w = (b, w') \<Longrightarrow> db w' = db w"
  "cache_Ping (NewCache vk) c w = (b, w') \<Longrightarrow> db w' = db w"
  by (auto simp: NewCache_def Cache_Get_def Cache_Set_def Cache_Delete_def Cache_Ping_def
      split: sum.splits prod.splits if_splits option.splits)

lemma exists_db: "mc_Exists (checker_client hc) c t u w = (a, w') \<Longrightarrow> w' = w"
  using Exists_cases(1) by (simp add: checker_client_def)

section \<open>The service\<close>

lemma Svc_List_db:
  assumes "tx_contract (d_pg d)" "reflp R" "Svc_List (service d tr) c t n l off w = (r, w')"
  shows "R (db w) (db w')"
  using assms by (auto simp: Svc_List_def Let_def split: prod.splits sum.splits elim!: Repo_List_rel)

lemma Svc_Grant_db:
  assumes tx: "tx_contract (d_pg d)" and R: "tenant_rel R (d_pg d) t"
    and run: "Svc_Grant (service d tr) c t n u g l re x w = (r, w')"
  shows "R (db w) (db w')"
  using run
proof (cases rule: Svc_Grant_paths)
  case (invalid er)
  then show ?thesis using tenant_rel_refl [OF R] by simp
next
  case (unavailable err w1)
  then show ?thesis using tenant_rel_refl [OF R] by (auto dest: exists_db)
next
  case (inactive m w1)
  then show ?thesis using tenant_rel_refl [OF R] by (auto dest: exists_db)
next
  case (rejected m w1 err w2)
  then show ?thesis
    using Repo_Grant_rel [OF tx tenant_relD(2) [OF R], of "grant_entry t n u m g l re x"]
    by (fastforce dest: exists_db)
next
  case (granted m w1 y w2 er w3)
  then show ?thesis
    using Repo_Grant_rel [OF tx tenant_relD(2) [OF R], of "grant_entry t n u m g l re x"]
    by (fastforce dest: exists_db cache_db)
qed

lemma Svc_Revoke_db:
  assumes tx: "tx_contract (d_pg d)" and R: "tenant_rel R (d_pg d) t"
    and run: "Svc_Revoke (service d tr) c t n u v w = (r, w')"
  shows "R (db w) (db w')"
  using run
proof (cases rule: Svc_Revoke_paths)
  case (rejected err w1)
  then show ?thesis using Repo_Revoke_rel [OF tx tenant_relD(3) [OF R]] by fastforce
next
  case (revoked w1 er w2)
  then show ?thesis using Repo_Revoke_rel [OF tx tenant_relD(3) [OF R]] by (fastforce dest: cache_db)
qed

lemma Svc_CheckAccess_db:
  assumes tx: "tx_contract (d_pg d)" and R: "reflp R"
    and run: "Svc_CheckAccess (service d tr) c t n u w = (r, w')"
  shows "R (db w) (db w')"
proof -
  have un: "R (db w2) (db w')" if "check_uncached (service d tr) c' t n u w2 = (r, w')" for c' w2
    using that
  proof (cases rule: check_uncached_paths)
    case (failed err)
    then show ?thesis using Repo_FindActive_rel [OF tx R] by fastforce
  next
    case (answered e w1 er w3)
    then show ?thesis using Repo_FindActive_rel [OF tx R] by (fastforce dest: cache_db)
  qed
  from run show ?thesis
  proof (cases rule: Svc_CheckAccess_paths)
    case (hit v w1)
    then show ?thesis using R by (auto dest!: cache_db simp: reflp_def)
  next
    case (uncached r0 w1 w2)
    then have "db w2 = db w" by (auto dest!: cache_db simp: log_defs frame_simps)
    with un [OF uncached(3)] show ?thesis by simp
  qed
qed

section \<open>The handlers\<close>

lemma handlers_db:
  assumes tx: "tx_contract (d_pg d)" and R: "\<forall>t. hl_Parse lib (rq_Param rq ''id'') = Inr t \<longrightarrow> tenant_rel R (d_pg d) t"
    and refl: "reflp R"
  shows "Handler_List lib (service d tr) rq w = (resp, w') \<Longrightarrow> R (db w) (db w')"
    and "Handler_Grant lib (service d tr) rq w = (resp, w') \<Longrightarrow> R (db w) (db w')"
    and "Handler_Revoke lib (service d tr) rq w = (resp, w') \<Longrightarrow> R (db w) (db w')"
    and "Handler_CheckAccess lib (service d tr) rq w = (resp, w') \<Longrightarrow> R (db w) (db w')"
    and "readyz health (sv_cache (service d tr)) rq w = (resp, w') \<Longrightarrow> R (db w) (db w')"
proof -
  have same: "R (db w) (db w)" using refl by (rule reflpD)
  show "R (db w) (db w')" if "Handler_List lib (service d tr) rq w = (resp, w')"
    using that
  proof (cases rule: Handler_List_paths)
    case refused with same show ?thesis by simp
  next
    case called with Svc_List_db [OF tx refl] show ?thesis by blast
  qed
  show "R (db w) (db w')" if "Handler_Grant lib (service d tr) rq w = (resp, w')"
    using that
  proof (cases rule: Handler_Grant_paths)
    case refused with same show ?thesis by simp
  next
    case called with R Svc_Grant_db [OF tx] show ?thesis by blast
  qed
  show "R (db w) (db w')" if "Handler_Revoke lib (service d tr) rq w = (resp, w')"
    using that
  proof (cases rule: Handler_Revoke_paths)
    case refused with same show ?thesis by simp
  next
    case called with R Svc_Revoke_db [OF tx] show ?thesis by blast
  qed
  show "R (db w) (db w')" if "Handler_CheckAccess lib (service d tr) rq w = (resp, w')"
    using that
  proof (cases rule: Handler_CheckAccess_paths)
    case refused with same show ?thesis by simp
  next
    case called with Svc_CheckAccess_db [OF tx refl] show ?thesis by blast
  qed
  show "R (db w) (db w')" if "readyz health (sv_cache (service d tr)) rq w = (resp, w')"
    using that same by (auto simp: readyz_def Let_def split: prod.splits dest: cache_db(4))
qed

lemma serve_db:
  assumes tx: "tx_contract (d_pg d)" and R: "\<forall>t. hl_Parse lib (rq_Param rq ''id'') = Inr t \<longrightarrow> tenant_rel R (d_pg d) t"
    and refl: "reflp R" and run: "serve lib dl (service d tr) health rt rq w = (resp, w')"
  shows "R (db w) (db w')"
  using run
proof (cases rule: serve_paths)
  case stopped
  then show ?thesis using refl by (simp add: reflpD)
next
  case (handled hs rq' resp0)
  then have "rq_Param rq' = rq_Param rq" by (simp add: same_request_def)
  with R have R': "\<forall>t. hl_Parse lib (rq_Param rq' ''id'') = Inr t \<longrightarrow> tenant_rel R (d_pg d) t" by simp
  note H = handlers_db [OF tx R' refl]
  from handled(3) show ?thesis
  proof (cases rule: handle_paths)
    case none
    then show ?thesis using refl by (simp add: reflpD)
  qed (erule H)+
qed

section \<open>The consumers\<close>

text \<open>Steps that keep the schema invariant and leave the cache server alone.\<close>

definition safe_step :: "'r world \<Rightarrow> 'r world \<Rightarrow> bool" where
  "safe_step w w' \<longleftrightarrow> keeps_inv (db w) (db w') \<and> rds w' = rds w"

lemma safe_refl [simp]: "safe_step w w"
  by (simp add: safe_step_def keeps_inv_def)

lemma safe_trans: "safe_step w w1 \<Longrightarrow> safe_step w1 w2 \<Longrightarrow> safe_step w w2"
  by (simp add: safe_step_def keeps_inv_def)

lemma safe_metrics [simp]:
  "safe_step w (cm_RecordCascade offboarding_metrics c x w1) = safe_step w w1"
  "safe_step w (em_RecordUnexpectedEventType offboarding_metrics c x y w1) = safe_step w w1"
  "safe_step w (em_RecordProcessedEventsDuplicate offboarding_metrics c x w1) = safe_step w w1"
  "safe_step w (mm_RecordMemberRemovalCascade member_removal_metrics c x w1) = safe_step w w1"
  "safe_step w (em_RecordUnexpectedEventType member_removal_metrics c x y w1) = safe_step w w1"
  "safe_step w (em_RecordProcessedEventsDuplicate member_removal_metrics c x w1) = safe_step w w1"
  by (simp_all add: safe_step_def offboarding_metrics_def member_removal_metrics_def record_defs frame_simps)

lemma safe_log [simp]:
  "safe_step w (log4 (With svcLog base) c level msg args b w1) = safe_step w w1"
  "safe_step w (log4 svcLog c level msg args b w1) = safe_step w w1"
  by (simp_all add: safe_step_def frame_simps)

lemma db_only_rds: "db_only body \<Longrightarrow> body c tx w = (r, v, w') \<Longrightarrow> rds w' = rds w"
  unfolding db_only_def by fastforce

lemma withTenant_rds:
  assumes tx: "tx_contract pg" and only: "db_only fn" and run: "withTenant pg c t fn w = (r, v, w')"
  shows "rds w' = rds w"
proof (cases "WithValidatedGUCSet pg (uuid_String pg t)")
  case (Some err)
  with run show ?thesis by (simp add: withTenant_def)
next
  case None
  let ?c = "c\<lparr>ctx_guc := Some (uuid_String pg t)\<rparr>"
  show ?thesis
  proof (cases "ctx_tx c")
    case (Some tx)
    with None run obtain r0 where "fn ?c tx w = (r0, v, w')"
      by (auto simp: withTenant_def Let_def TxFromContext_def wrap_result_eq)
    then show ?thesis by (rule db_only_rds [OF only])
  next
    case notx: None
    with None run obtain r0 where "RunInTxWithRetryOpts pg writeRetryOpts ?c fn w = (r0, v, w')"
      by (auto simp: withTenant_def Let_def TxFromContext_def wrap_result_eq)
    with tx_contract_retry [OF tx, of ?c fn w] have "tx_outcome 3 ?c fn w (r0, v, w')" by simp
    then show ?thesis by (rule tx_outcome_rds) (rule db_only_rds [OF only])
  qed
qed

lemma safe_Repo_Cascade:
  assumes "tx_contract pg" "Repo_CascadeDeleteForTenant pg c t w = (r, w')"
  shows "safe_step w w'"
proof -
  from assms(2) obtain r0 v where "withTenant pg c t (cascade_body pg t) w = (r0, v, w')"
    by (auto simp: Repo_CascadeDeleteForTenant_def split: prod.splits option.splits)
  from withTenant_rds [OF assms(1) _ this] clean_cascade [of pg t] repo_rels(7) [OF assms]
  show ?thesis by (simp add: safe_step_def clean_def)
qed

lemma safe_Repo_SoftDelete:
  assumes "tx_contract pg" "Repo_SoftDeleteForUser pg c t u w = (r, w')"
  shows "safe_step w w'"
proof -
  from assms(2) obtain r0 v where "withTenant pg c t (soft_delete_body pg t u) w = (r0, v, w')"
    by (auto simp: Repo_SoftDeleteForUser_def split: prod.splits option.splits)
  from withTenant_rds [OF assms(1) _ this] clean_soft_delete [of pg t u] repo_rels(10) [OF assms]
  show ?thesis by (simp add: safe_step_def clean_def)
qed

lemma safe_ledger:
  assumes "tx_contract (pe_pool r)"
  shows "IsProcessed r c ev w = (x, w') \<Longrightarrow> safe_step w w'"
    and "MarkProcessed r c ev w = (y, w') \<Longrightarrow> safe_step w w'"
    and "CleanupExpired r c w = (z, w') \<Longrightarrow> safe_step w w'"
  using IsProcessed_cases [OF assms] MarkProcessed_cases [OF assms] CleanupExpired_cases [OF assms]
    ledger_keeps_inv [OF assms]
  by (fastforce simp: safe_step_def keeps_inv_def)+

lemma safe_TxRunner:
  assumes "tx_contract pg" "TxRunner_RunInTx pg c fn w = (r, w')"
    and fn: "\<And>c w r w'. fn c w = (r, w') \<Longrightarrow> safe_step w w'"
  shows "safe_step w w'"
  using TxRunner_rel [OF assms(1) reflp_keeps(1) _ assms(2)] TxRunner_rds [OF assms(1,2)] fn
  by (auto simp: safe_step_def)

lemma safe_offboarding_tx:
  assumes "tx_contract pg" "offboarding_tx l (offboarding_consumer pg tr) (With svcLog base) t ev c w = (r, w')"
  shows "safe_step w w'"
proof -
  obtain a w1 where del: "Repo_CascadeDeleteForTenant pg c t w = (a, w1)" by fastforce
  obtain b w2 where mark: "MarkProcessed (offboarding_ledger pg) c ev w1 = (b, w2)" by fastforce
  have s1: "safe_step w w1" using safe_Repo_Cascade [OF assms(1) del] .
  have s2: "safe_step w1 w2"
    using safe_ledger(2) [OF _ mark] assms(1) by (simp add: NewProcessedEvents_def)
  from assms(2) del mark have "w' = cm_RecordCascade offboarding_metrics c ''error'' w1 \<or> w' = w2 \<or>
      (\<exists>k. w' = InfoContext (With svcLog base) c ''tenant offboarding cascade complete''
         [AString ''deleted'', AInt k] (cm_RecordCascade offboarding_metrics c ''success'' w2))"
    by (auto simp: offboarding_tx_def offboarding_consumer_def ledger_store_def Let_def
        split: sum.splits option.splits)
  with s1 s2 show ?thesis
    by (elim disjE exE) (auto simp: log_defs intro: safe_trans)
qed

lemma safe_member_removal_tx:
  assumes "tx_contract pg" "member_removal_tx l (member_removal_consumer pg tr) (With svcLog base) t u ev c w = (r, w')"
  shows "safe_step w w'"
proof -
  obtain a w1 where del: "Repo_SoftDeleteForUser pg c t u w = (a, w1)" by fastforce
  obtain b w2 where mark: "MarkProcessed (member_removal_ledger pg) c ev w1 = (b, w2)" by fastforce
  have s1: "safe_step w w1" using safe_Repo_SoftDelete [OF assms(1) del] .
  have s2: "safe_step w1 w2"
    using safe_ledger(2) [OF _ mark] assms(1) by (simp add: NewProcessedEvents_def)
  from assms(2) del mark have "w' = mm_RecordMemberRemovalCascade member_removal_metrics c ''error'' w1 \<or> w' = w2 \<or>
      (\<exists>k. w' = InfoContext (With svcLog base) c ''member removal ACL cascade complete''
         [AString ''deleted'', AInt k] (mm_RecordMemberRemovalCascade member_removal_metrics c ''success'' w2))"
    by (auto simp: member_removal_tx_def member_removal_consumer_def ledger_store_def Let_def
        split: sum.splits option.splits)
  with s1 s2 show ?thesis
    by (elim disjE exE) (auto simp: log_defs intro: safe_trans)
qed

definition safe_events :: "('r world, 'm) event_metrics_scheme \<Rightarrow> bool" where
  "safe_events m \<longleftrightarrow>
     (\<forall>c x y w w1. safe_step w w1 \<longrightarrow> safe_step w (em_RecordUnexpectedEventType m c x y w1)) \<and>
     (\<forall>c x w w1. safe_step w w1 \<longrightarrow> safe_step w (em_RecordProcessedEventsDuplicate m c x w1))"

lemma safe_consumer_metrics: "safe_events offboarding_metrics" "safe_events member_removal_metrics"
  by (simp_all add: safe_events_def)

lemma safe_ackUnknown:
  assumes tx: "tx_contract pg" and metrics: "safe_events m"
    and run: "ackUnknown (pg_lib pg) c (NewTxRunner pg) (ledger_store (NewProcessedEvents pg cons)) m svcLog q env w = (r, w')"
  shows "safe_step w w'"
proof -
  define w0 where "w0 = WarnContext svcLog c (''unknown event type '' @ em_dash @ '' silently acknowledging'')
    [AString ''queue'', AString q, AString ''event_type'', AString (env_Type env),
     AString ''event_id'', AString (env_ID env)] (em_RecordUnexpectedEventType m c q (env_Type env) w)"
  let ?fn = "\<lambda>ev txCtx w. case is_MarkProcessed (ledger_store (NewProcessedEvents pg cons)) txCtx ev w of
    (Some err, w) \<Rightarrow> (Some (Wrapped ''mark processed: '' err), w) | (None, w) \<Rightarrow> (None, w)"
  have w0: "safe_step w w0" using metrics by (auto simp: w0_def log_defs safe_events_def)
  have fn: "safe_step w1 w2" if "?fn ev c' w1 = (b, w2)" for ev c' w1 b w2
  proof -
    from that obtain y where "MarkProcessed (NewProcessedEvents pg cons) c' ev w1 = (y, w2)"
      by (auto simp: ledger_store_def split: prod.splits option.splits)
    from safe_ledger(2) [OF _ this] tx show ?thesis by (simp add: NewProcessedEvents_def)
  qed
  have "w' = w0 \<or> (\<exists>ev. TxRunner_RunInTx pg c (?fn ev) w0 = (r, w'))"
    using run by (auto simp: ackUnknown_def w0_def markProcessedInTx_def Let_def NewTxRunner_def split: sum.splits)
  then have "safe_step w0 w'"
  proof (elim disjE exE)
    fix ev
    assume "TxRunner_RunInTx pg c (?fn ev) w0 = (r, w')"
    then show ?thesis by (rule safe_TxRunner [OF tx]) (rule fn)
  qed simp
  with w0 show ?thesis by (rule safe_trans)
qed

text \<open>The common tail of both handlers.\<close>

lemma safe_tail:
  assumes tx: "tx_contract pg" and metrics: "safe_events m"
    and fn: "\<And>c w r w'. fn c w = (r, w') \<Longrightarrow> safe_step w w'"
    and run: "(case skipDuplicate c (ledger_store (NewProcessedEvents pg cons)) m name ev w of
        (Inl err, w) \<Rightarrow> (Some (E1 err), w)
      | (Inr processed, w) \<Rightarrow>
          if processed then (None, InfoContext (With svcLog base) c msg args w)
          else (case withTenantGUC (pg_lib pg) c t of
                  Inl err \<Rightarrow> (Some (E2 err), w)
                | Inr gucCtx \<Rightarrow> tx_RunInTx (NewTxRunner pg) gucCtx fn w)) = (r, w')"
  shows "safe_step w w'"
proof -
  obtain a w1 where probe: "IsProcessed (NewProcessedEvents pg cons) c ev w = (a, w1)" by fastforce
  have s1: "safe_step w w1" using safe_ledger(1) [OF _ probe] tx by (simp add: NewProcessedEvents_def)
  obtain b w2 where skip: "skipDuplicate c (ledger_store (NewProcessedEvents pg cons)) m name ev w = (b, w2)"
    by fastforce
  with probe s1 metrics have s2: "safe_step w w2"
    by (auto simp: skipDuplicate_def ledger_store_def safe_events_def split: sum.splits if_splits)
  from run skip have "w' = w2 \<or> w' = InfoContext (With svcLog base) c msg args w2 \<or>
      (\<exists>g. TxRunner_RunInTx pg g fn w2 = (r, w'))"
    by (auto simp: NewTxRunner_def split: sum.splits if_splits)
  then show ?thesis
  proof (elim disjE exE)
    fix g
    assume "TxRunner_RunInTx pg g fn w2 = (r, w')"
    then have "safe_step w2 w'" by (rule safe_TxRunner [OF tx]) (rule fn)
    with s2 show ?thesis by (rule safe_trans)
  qed (use s2 in \<open>auto simp: log_defs\<close>)
qed

lemma safe_offboarding:
  assumes tx: "tx_contract pg"
    and run: "OffboardingConsumer_Handle (pg_lib pg) (offboarding_consumer pg tr) c env w = (r, w')"
  shows "safe_step w w'"
proof (cases "env_Type env \<noteq> [] \<and> env_Type env \<noteq> tenantMembershipsPurgedEventType")
  case True
  with run obtain r0 where "ackUnknown (pg_lib pg) (Start tr c ''OffboardingConsumer.Handle'') (NewTxRunner pg)
      (ledger_store (offboarding_ledger pg)) offboarding_metrics svcLog tenantLifecycleQueueName env w = (r0, w')"
    by (auto simp: OffboardingConsumer_Handle_def offboarding_consumer_def Let_def split: prod.splits option.splits)
  then show ?thesis by (rule safe_ackUnknown [OF tx safe_consumer_metrics(1)])
next
  case False
  then have known: "(env_Type env \<noteq> [] \<and> env_Type env \<noteq> tenantMembershipsPurgedEventType) = False" by simp
  have sel: "oc_idempotency (offboarding_consumer pg tr) = ledger_store (offboarding_ledger pg)"
    "oc_tx (offboarding_consumer pg tr) = NewTxRunner pg" "oc_metrics (offboarding_consumer pg tr) = offboarding_metrics"
    "oc_logger (offboarding_consumer pg tr) = svcLog" "oc_tracer (offboarding_consumer pg tr) = tr"
    by (simp_all add: offboarding_consumer_def)
  note H = run [unfolded OffboardingConsumer_Handle_def Let_def known if_False sel]
  show ?thesis
  proof (cases "lib_Parse (pg_lib pg) (env_ID env)")
    case (Inl err) with H show ?thesis by simp
  next
    case ev: (Inr ev)
    show ?thesis
    proof (cases "lib_Parse (pg_lib pg) (env_TenantID env)")
      case (Inl err) with H ev show ?thesis by simp
    next
      case (Inr t)
      note H' = H [unfolded ev Inr sum.case]
      show ?thesis by (rule safe_tail [OF tx safe_consumer_metrics(1) _ H']) (auto dest: safe_offboarding_tx [OF tx])
    qed
  qed
qed

lemma safe_member_removal:
  assumes tx: "tx_contract pg"
    and run: "MemberRemovalConsumer_Handle (pg_lib pg) (member_removal_consumer pg tr) c env w = (r, w')"
  shows "safe_step w w'"
proof (cases "env_Type env \<noteq> [] \<and> env_Type env \<noteq> membershipRevokedEventType")
  case True
  with run obtain r0 where "ackUnknown (pg_lib pg) (Start tr c ''MemberRemovalConsumer.Handle'') (NewTxRunner pg)
      (ledger_store (member_removal_ledger pg)) member_removal_metrics svcLog memberRemovalQueueName env w = (r0, w')"
    by (auto simp: MemberRemovalConsumer_Handle_def member_removal_consumer_def Let_def split: prod.splits option.splits)
  then show ?thesis by (rule safe_ackUnknown [OF tx safe_consumer_metrics(2)])
next
  case False
  then have known: "(env_Type env \<noteq> [] \<and> env_Type env \<noteq> membershipRevokedEventType) = False" by simp
  have sel: "mr_idempotency (member_removal_consumer pg tr) = ledger_store (member_removal_ledger pg)"
    "mr_tx (member_removal_consumer pg tr) = NewTxRunner pg" "mr_metrics (member_removal_consumer pg tr) = member_removal_metrics"
    "mr_logger (member_removal_consumer pg tr) = svcLog" "mr_tracer (member_removal_consumer pg tr) = tr"
    by (simp_all add: member_removal_consumer_def)
  note H = run [unfolded MemberRemovalConsumer_Handle_def Let_def known if_False sel]
  show ?thesis
  proof (cases "lib_Parse (pg_lib pg) (env_ID env)")
    case (Inl err) with H show ?thesis by simp
  next
    case ev: (Inr ev)
    show ?thesis
    proof (cases "lib_Parse (pg_lib pg) (env_TenantID env)")
      case (Inl err) with H ev show ?thesis by simp
    next
      case t: (Inr t)
      show ?thesis
      proof (cases "lib_Parse (pg_lib pg) (env_Subject env)")
        case (Inl err) with H ev t show ?thesis by simp
      next
        case (Inr u)
        note H' = H [unfolded ev t Inr sum.case]
        show ?thesis by (rule safe_tail [OF tx safe_consumer_metrics(2) _ H']) (auto dest: safe_member_removal_tx [OF tx])
      qed
    qed
  qed
qed

end
