(* ===== verification/HttpTheorems.thy ===== *)
theory HttpTheorems
  imports System Example
begin

text \<open>
  The properties of the HTTP surface, on the routes that \<open>NewRouter\<close> registers: who may reach the
  tables, what a request can change, the status of every answer, the pagination window and
  readiness.
\<close>

section \<open>A concrete request\<close>

text \<open>
  A library for the examples: identities come from the gateway's headers, a grant body is the user id
  and a revoke body the version.
\<close>

definition demo_auth :: "http_req \<Rightarrow> response + RequestContext option" where
  "demo_auth rq =
     (if rq_Header rq ''x-user-id'' = [] then Inl (respond 401 BNone)
      else Inr (Some \<lparr>rc_TenantID = rq_Header rq ''x-tenant-id'', rc_UserID = rq_Header rq ''x-user-id'',
                      rc_Roles = [rq_Header rq ''x-tenant-roles'']\<rparr>))"

definition demo_http :: http_lib where
  "demo_http =
     \<lparr>hl_Parse = demo_Parse, hl_String = demo_String, hl_IsConnectionException = sql_class ''08'',
      hl_IsInsufficientResources = sql_class ''53'', hl_IsPgError = (\<lambda>e. sqlstate e \<noteq> None),
      hl_bind_grant = (\<lambda>b. if br_too_large b then Inl (Plain ''http: request body too large'')
         else Inr \<lparr>gr_UserID = br_data b, gr_AccessLevel = ''edit'', gr_Reason = None, gr_ExpiresAt = None\<rparr>),
      hl_bind_revoke = (\<lambda>b. case Atoi (br_data b) of
         None \<Rightarrow> Inl (Plain ''EOF'') | Some v \<Rightarrow> Inr \<lparr>rv_RecordVersion = v\<rparr>),
      hl_auth = demo_auth\<rparr>"

definition demo_docs_lib :: docs_lib where
  "demo_docs_lib =
     \<lparr>dl_HealthHandler = (\<lambda>_. respond 200 BNone), dl_stdSwagger = (\<lambda>_. respond 200 BNone),
      dl_swaggerThemeCSS = ''body {}'', dl_swaggerInitializerJS = ''window'', dl_AsyncAPISpec = ''asyncapi: 3.0.0'',
      dl_AsyncAPIHandler = (\<lambda>_. respond 200 BNone)\<rparr>"

definition demo_health :: "ctx \<Rightarrow> demo_redis world \<Rightarrow> HealthStatus" where
  "demo_health c w =
     \<lparr>hs_Healthy = True, hs_TotalConns = 4, hs_IdleConns = 4, hs_AcquiredConns = 0, hs_MaxConns = 10, hs_Utilization = 0\<rparr>"

definition demo_request :: "string \<Rightarrow> string \<Rightarrow> string \<Rightarrow> http_req" where
  "demo_request tenant role body =
     \<lparr>rq_Param = (\<lambda>p. if p = ''id'' then ''1'' else if p = ''tender_id'' then ''2'' else ''3''),
      rq_Query = (\<lambda>_. []),
      rq_Header = (\<lambda>h. if h = ''x-user-id'' then ''4'' else if h = ''x-tenant-id'' then tenant
                       else if h = ''x-tenant-roles'' then role else []),
      rq_Path = ''/'', rq_Body = body, rq_Context = Background, rq_TraceID = ''t'', rq_RequestID = ''r'',
      rq_Identity = None, rq_Get = Map.empty\<rparr>"

definition demo_docs :: DocsConfig where
  "demo_docs = \<lparr>dc_Environment = ''production'', dc_Enabled = True, dc_AuthToken = ''s3cret''\<rparr>"

section \<open>The routes\<close>

text \<open>The identity that the authentication found may act for tenant \<open>t\<close>.\<close>

definition caller_may :: "http_lib \<Rightarrow> http_req \<Rightarrow> uuid \<Rightarrow> bool" where
  "caller_may lib rq t \<longleftrightarrow>
     (\<exists>p. hl_auth lib rq = Inr (Some p) \<and> rc_TenantID p = hl_String lib t \<and>
        set requiredRoles \<inter> set (rc_Roles p) \<noteq> {})"

lemma public_routes:
  assumes "rt \<in> set (eng_routes (NewRouter name docs))" "rt_handler rt \<in> {EList, EGrant, ERevoke}"
  shows "rt_chain rt = [ProtectedMiddlewares, ContextBridge]"
  using assms
  by (auto simp: NewRouter_def registerDocsRoutes_def mk_route_def Let_def split: if_splits)

lemma bridged_authorised:
  assumes "hl_auth lib rq = Inr prc" "ctx_rc (rq_Context rq) = None"
  shows "authorised lib (ctx_rc (rq_Context (ContextBridgeMiddleware (rq\<lparr>rq_Identity := prc\<rparr>)))) t \<longleftrightarrow>
    caller_may lib rq t"
  using assms by (cases prc) (auto simp: bridged_identity authorised_def caller_may_def)

section \<open>Authorisation\<close>

lemma public_handler_refuses:
  assumes "handle lib dl svc health e rq w = (resp, w')" "e \<in> {EList, EGrant, ERevoke}"
    and "\<not> (\<exists>t. hl_Parse lib (rq_Param rq ''id'') = Inr t \<and> authorised lib (ctx_rc (rq_Context rq)) t)"
  shows "w' = w \<and> rs_status resp = (if \<exists>t. hl_Parse lib (rq_Param rq ''id'') = Inr t then 403 else 400)"
proof (cases "hl_Parse lib (rq_Param rq ''id'')")
  case (Inl err)
  then have "parseUUIDParam lib rq ''id'' = Inl (writeError rq 400 ErrCodeInvalidRequest)"
    by (simp add: parseUUIDParam_def)
  with assms(1,2) Inl show ?thesis
    by (auto simp: handle_def Handler_List_def Handler_Grant_def Handler_Revoke_def writeError_def)
next
  case (Inr t)
  with assms(3) have "requireSameTenant lib rq t \<noteq> None" by (simp add: requireSameTenant_None)
  then have "requireSameTenant lib rq t = Some (writeError rq 403 ErrCodeInsufficientRole)"
    by (auto simp: requireSameTenant_def split: option.splits if_splits)
  moreover from Inr have "parseUUIDParam lib rq ''id'' = Inr t" by (simp add: parseUUIDParam_Inr)
  ultimately show ?thesis using assms(1,2) Inr
    by (auto simp: handle_def Handler_List_def Handler_Grant_def Handler_Revoke_def writeError_def)
qed

lemma no_authority_no_effect:
  assumes "rt \<in> set (eng_routes (NewRouter name docs))" "rt_handler rt \<in> {EList, EGrant, ERevoke}"
    and "ctx_rc (rq_Context rq) = None"
    and "\<not> (\<exists>t. hl_Parse lib (rq_Param rq ''id'') = Inr t \<and> caller_may lib rq t)"
    and run: "serve lib dl svc health rt rq w = (resp, w')"
  shows "w' = w \<and> (hl_auth lib rq = Inl resp \<or>
    rs_status resp = (if \<exists>t. hl_Parse lib (rq_Param rq ''id'') = Inr t then 403 else 400))"
proof (cases "hl_auth lib rq")
  case (Inl resp0)
  with run show ?thesis by (simp add: serve_def public_routes [OF assms(1,2)])
next
  case (Inr prc)
  let ?rq = "ContextBridgeMiddleware (rq\<lparr>rq_Identity := prc\<rparr>)"
  obtain resp0 where h: "handle lib dl svc health (rt_handler rt) ?rq w = (resp0, w')" and "resp = resp0"
    using run Inr by (auto simp: serve_def public_routes [OF assms(1,2)] split: prod.splits)
  moreover have "\<not> (\<exists>t. hl_Parse lib (rq_Param ?rq ''id'') = Inr t \<and> authorised lib (ctx_rc (rq_Context ?rq)) t)"
    using assms(4) by (simp add: bridged_authorised [OF Inr assms(3)])
  ultimately show ?thesis using public_handler_refuses [OF h assms(2)] by simp
qed

text \<open>C5. No authority, no effect: a request for TAC-1, TAC-2 or TAC-3 whose caller is not a
  \<open>tender_admin\<close>, \<open>tenant_admin\<close> or \<open>tenant_owner\<close> of the very tenant the path names changes nothing at
  all; it is answered by the authentication itself, or with 403 when the path names a tenant and 400
  when it does not.\<close>

theorem public_routes_need_authority:
  assumes "rt \<in> set (eng_routes (NewRouter name docs))" "rt_handler rt \<in> {EList, EGrant, ERevoke}"
    and "ctx_rc (rq_Context rq) = None"
    and "\<not> (\<exists>t. hl_Parse lib (rq_Param rq ''id'') = Inr t \<and> caller_may lib rq t)"
    and "serve lib dl svc health rt rq w = (resp, w')"
  shows "w' = w \<and> (hl_auth lib rq = Inl resp \<or>
    rs_status resp = (if \<exists>t. hl_Parse lib (rq_Param rq ''id'') = Inr t then 403 else 400))"
  using assms by (rule no_authority_no_effect)

theorem public_routes_need_authority_witness:
  "snd (serve demo_http demo_docs_lib (service demo_deps demo_tracer) demo_health
     (eng_routes (NewRouter [] demo_docs) ! 1) (demo_request ''1'' ''viewer'' ''3'') demo_world) = demo_world \<and>
   snd (serve demo_http demo_docs_lib (service demo_deps demo_tracer) demo_health
     (eng_routes (NewRouter [] demo_docs) ! 1) (demo_request ''9'' ''tenant_owner'' ''3'') demo_world) = demo_world"
proof -
  let ?rt = "eng_routes (NewRouter [] demo_docs) ! 1"
  have rt: "?rt \<in> set (eng_routes (NewRouter [] demo_docs))" "rt_handler ?rt \<in> {EList, EGrant, ERevoke}"
    by (simp_all add: NewRouter_def mk_route_def Let_def)
  have no: "\<not> (\<exists>t. hl_Parse demo_http (rq_Param (demo_request a b c) ''id'') = Inr t \<and>
      caller_may demo_http (demo_request a b c) t)" if "a \<noteq> ''1'' \<or> b = ''viewer''" for a b c
  proof -
    have "demo_Parse ''1'' = Inr 1" "demo_String 1 = ''1''" by code_simp+
    with that show ?thesis
      by (auto simp: caller_may_def demo_http_def demo_request_def demo_auth_def requiredRoles_def)
  qed
  have fresh: "ctx_rc (rq_Context (demo_request a b c)) = None" for a b c
    by (simp add: demo_request_def Background_def)
  have "snd (serve demo_http demo_docs_lib (service demo_deps demo_tracer) demo_health ?rt
      (demo_request a b c) demo_world) = demo_world" if "a \<noteq> ''1'' \<or> b = ''viewer''" for a b c
    by (rule public_routes_need_authority [OF rt fresh no [OF that] prod.collapse [symmetric], THEN conjunct1])
  then show ?thesis by simp
qed

section \<open>Tenant isolation, end to end\<close>

lemma serve_writes:
  assumes tx: "tx_contract (d_pg d)" and rt: "rt \<in> set (eng_routes (NewRouter name docs))"
    and rc: "ctx_rc (rq_Context rq) = None" and t: "hl_Parse lib (rq_Param rq ''id'') = Inr t"
    and run: "serve lib dl (service d tr) health rt rq w = (resp, w')" and changed: "db w' \<noteq> db w"
  shows "rt_handler rt \<in> {EGrant, ERevoke} \<and> caller_may lib rq t"
proof -
  have eq: "reflp (=)" by (simp add: reflp_def)
  from run have H: "rt_handler rt \<in> {EGrant, ERevoke}"
  proof (cases rule: serve_paths)
    case stopped
    with changed show ?thesis by simp
  next
    case (handled hs rq' resp0)
    from handled(3) show ?thesis
    proof (cases rule: handle_paths)
      case List
      from List(2) have "db w' = db w"
      proof (cases rule: Handler_List_paths)
        case called
        from Svc_List_db [OF tx eq called(5)] show ?thesis by simp
      qed simp
      with changed show ?thesis by simp
    next
      case CheckAccess
      from CheckAccess(2) have "db w' = db w"
      proof (cases rule: Handler_CheckAccess_paths)
        case called
        from Svc_CheckAccess_db [OF tx eq called(4)] show ?thesis by simp
      qed simp
      with changed show ?thesis by simp
    next
      case Readyz
      then have "db w' = db w" by (auto simp: readyz_def Let_def split: prod.splits dest: cache_db(4))
      with changed show ?thesis by simp
    qed (use changed in auto)
  qed
  then have "rt_handler rt \<in> {EList, EGrant, ERevoke}" by auto
  from no_authority_no_effect [OF rt this rc _ run] changed t H show ?thesis by auto
qed

text \<open>C7. A request reaches only its own tenant: whatever route it takes and whatever the service
  answers, a request whose path names tenant \<open>t\<close> leaves the rows of every other tenant and the event
  ledger as they were; and if it changed any row it was a TAC-2 or TAC-3 request of a caller with one
  of the required roles in tenant \<open>t\<close>.\<close>

theorem http_tenant_isolation:
  assumes tx: "tx_contract (d_pg d)" and rt: "rt \<in> set (eng_routes (NewRouter name docs))"
    and rc: "ctx_rc (rq_Context rq) = None" and t: "hl_Parse lib (rq_Param rq ''id'') = Inr t"
    and run: "serve lib dl (service d tr) health rt rq w = (resp, w')"
  shows "filter (\<lambda>r. r_tenant_id r \<noteq> t) (tender_acl_entries (db w')) =
      filter (\<lambda>r. r_tenant_id r \<noteq> t) (tender_acl_entries (db w)) \<and>
    processed_events (db w') = processed_events (db w) \<and>
    (db w' = db w \<or> rt_handler rt \<in> {EGrant, ERevoke} \<and> caller_may lib rq t)"
proof -
  have "keeps_others t (db w) (db w')"
    by (rule serve_db [OF tx _ _ run]) (use t tenant_rel_keeps(2) in auto)
  with serve_writes [OF tx rt rc t run] show ?thesis by (auto simp: keeps_others_def others_def)
qed

definition demo_post :: "response \<times> demo_redis world" where
  "demo_post = serve demo_http demo_docs_lib (service demo_deps demo_tracer) demo_health
     (eng_routes (NewRouter [] demo_docs) ! 1) (demo_request ''1'' ''tender_admin'' ''3'') demo_world"

text \<open>The request is run once; the facts that the witnesses need of its outcome are read off together.\<close>

lemma demo_post_run:
  "case demo_post of (resp, w) \<Rightarrow>
     rs_status resp = 201 \<and> map r_id (tender_acl_entries (db w)) = [1] \<and> map r_user_id (tender_acl_entries (db w)) = [3] \<and>
     map (\<lambda>e. (e_TenantID e, e_TenderID e, e_UserID e, e_DeletedAt e, e_RecordVersion e)) (entries_of w) = [(1, 2, 3, None, 1)] \<and>
     cached demo_vk w (1, 2, 3) = None \<and> now_cache w = 1000"
  by code_simp

lemma demo_post_created:
  "rs_status (fst demo_post) = 201" "map r_user_id (tender_acl_entries (db (snd demo_post))) = [3]"
  "map r_id (tender_acl_entries (db (snd demo_post))) = [1]"
  "map (\<lambda>e. (e_TenantID e, e_TenderID e, e_UserID e, e_DeletedAt e, e_RecordVersion e)) (entries_of (snd demo_post)) = [(1, 2, 3, None, 1)]"
  "cached demo_vk (snd demo_post) (1, 2, 3) = None" "now_cache (snd demo_post) = 1000"
  using demo_post_run unfolding case_prod_beta by blast+

lemma demo_routes:
  "eng_routes (NewRouter [] demo_docs) ! 1 \<in> set (eng_routes (NewRouter [] demo_docs))"
  "ctx_rc (rq_Context (demo_request a b c)) = None" "ctx_tx (rq_Context (demo_request a b c)) = None"
  by (simp_all add: NewRouter_def mk_route_def Let_def demo_request_def Background_def)

lemma demo_http_params:
  "hl_Parse demo_http (rq_Param (demo_request a b c) ''id'') = Inr 1"
  "hl_Parse demo_http (rq_Param (demo_request a b c) ''tender_id'') = Inr 2"
  "hl_Parse demo_http (rq_Param (demo_request a b c) ''user_id'') = Inr 3"
proof -
  have "demo_Parse ''1'' = Inr 1" "demo_Parse ''2'' = Inr 2" "demo_Parse ''3'' = Inr 3" by code_simp+
  then show "hl_Parse demo_http (rq_Param (demo_request a b c) ''id'') = Inr 1"
    "hl_Parse demo_http (rq_Param (demo_request a b c) ''tender_id'') = Inr 2"
    "hl_Parse demo_http (rq_Param (demo_request a b c) ''user_id'') = Inr 3"
    by (simp_all add: demo_http_def demo_request_def)
qed

theorem http_tenant_isolation_witness:
  "db (snd demo_post) \<noteq> db demo_world \<and> caller_may demo_http (demo_request ''1'' ''tender_admin'' ''3'') 1"
proof -
  have tx: "tx_contract (d_pg demo_deps)" using demo_pg_ok by (simp add: pg_ok_def)
  have ne: "db (snd demo_post) \<noteq> db demo_world"
    using demo_post_created(2) by (auto simp: demo_world_def empty_db_def)
  have "db (snd demo_post) = db demo_world \<or>
      rt_handler (eng_routes (NewRouter [] demo_docs) ! 1) \<in> {EGrant, ERevoke} \<and>
      caller_may demo_http (demo_request ''1'' ''tender_admin'' ''3'') 1"
    unfolding demo_post_def
    by (rule http_tenant_isolation
        [OF tx demo_routes(1,2) demo_http_params(1) prod.collapse [symmetric], THEN conjunct2, THEN conjunct2])
  with ne show ?thesis by simp
qed

section \<open>TAC-1: the page\<close>

text \<open>The value of a query parameter: the default when it is absent, an integer of 64 bits otherwise.\<close>

definition page_param :: "http_req \<Rightarrow> string \<Rightarrow> int \<Rightarrow> int option" where
  "page_param rq name fallback = (if rq_Query rq name = [] then Some fallback else Atoi (rq_Query rq name))"

lemma parseListPagination_spec:
  "parseListPagination rq =
     (case (page_param rq ''limit'' 100, page_param rq ''offset'' 0) of
        (Some l, Some off) \<Rightarrow>
          if 1 \<le> l \<and> 0 \<le> off then Inr (min l 500, off) else Inl (writeError rq 400 ErrCodeInvalidRequest)
      | _ \<Rightarrow> Inl (writeError rq 400 ErrCodeInvalidRequest))"
  by (auto simp: parseListPagination_def page_param_def Let_def defaultListLimit_def maxListLimit_def min_def
      split: option.splits)

text \<open>The window of TAC-1: a request without \<open>limit\<close> and \<open>offset\<close> asks for the first hundred
  entries; a limit above 500 is clamped to 500; a limit below one, a negative offset or a text that is
  no 64-bit integer is refused with 400 \<open>invalid_request\<close>.  So every window that reaches the service has
  a limit between 1 and 500 and an offset between 0 and the largest 64-bit integer.\<close>

theorem list_window:
  "case parseListPagination rq of
     Inl resp \<Rightarrow> resp = writeError rq 400 ErrCodeInvalidRequest \<and>
       \<not> (\<exists>l off. page_param rq ''limit'' 100 = Some l \<and> page_param rq ''offset'' 0 = Some off \<and> 1 \<le> l \<and> 0 \<le> off)
   | Inr (limit, offset) \<Rightarrow> 1 \<le> limit \<and> limit \<le> 500 \<and> 0 \<le> offset \<and> offset \<le> MaxInt64 \<and>
       (\<exists>l. page_param rq ''limit'' 100 = Some l \<and> limit = min l 500) \<and> page_param rq ''offset'' 0 = Some offset"
proof -
  have "off \<le> MaxInt64" if "page_param rq ''offset'' 0 = Some off" for off
    using that Atoi_range [of "rq_Query rq ''offset''" off]
    by (auto simp: page_param_def int64_range_def MaxInt64_def split: if_splits)
  then show ?thesis
    unfolding parseListPagination_spec by (auto split: option.splits if_splits)
qed

lemma Svc_List_page:
  assumes "deps_ok d" "ctx_tx c = None" "Svc_List (service d tr) c t n limit offset w = (Inr es, w')"
  shows "int (length es) \<le> limit \<and>
    set es \<subseteq> {x \<in> set (entries_of w). e_TenantID x = t \<and> e_TenderID x = n \<and> e_DeletedAt x = None}"
proof -
  have L: "repo_List (NewTenderACLRepository (d_pg d)) (Start tr c ''service.ACLService.List'') t n limit offset w = (Inr es, w')"
    using assms(3) by (auto simp: Svc_List_def Let_def split: prod.splits sum.splits)
  have B: "bound (d_pg d) (Start tr c ''service.ACLService.List'') t" using assms(2) by (simp add: bound_def)
  have "pg_ok (d_pg d)" using assms(1) by (simp add: deps_ok_def)
  from pg_repo.list_done [OF this B L] obtain ord where "0 \<le> limit"
    and ord: "mset ord = filter_mset (\<lambda>x. e_TenantID x = t \<and> e_TenderID x = n \<and> e_DeletedAt x = None) (mset (entries_of w))"
    and es_ord: "es = take (nat limit) (drop (nat offset) ord)"
    by (elim conjE exE) (rule that)
  moreover have "set es \<subseteq> set ord" unfolding es_ord by (meson in_set_dropD in_set_takeD subsetI)
  moreover have "set ord = {x \<in> set (entries_of w). e_TenantID x = t \<and> e_TenderID x = n \<and> e_DeletedAt x = None}"
    using arg_cong [OF ord, of set_mset] by auto
  ultimately show ?thesis by auto
qed

text \<open>C23. A page of TAC-1 stays inside its window and its tender: whatever the query asks for, a page
  that is answered has at most as many entries as the limit it reports, never more than 500, and each
  of them is an unrevoked entry of the tenant and the tender that the path names.\<close>

theorem http_list_page:
  assumes "deps_ok d" and "rt \<in> set (eng_routes (NewRouter name docs))" "rt_handler rt = EList"
    and "ctx_tx (rq_Context rq) = None"
    and "hl_Parse lib (rq_Param rq ''id'') = Inr t" "hl_Parse lib (rq_Param rq ''tender_id'') = Inr n"
    and "serve lib dl (service d tr) health rt rq w = (resp, w')" "rs_body resp = BList page"
    and "hl_auth lib rq \<noteq> Inl resp"
  shows "int (length (lr_Entries page)) \<le> lr_Limit page \<and> lr_Limit page \<le> 500 \<and>
    set (lr_Entries page) \<subseteq> toACLResponse ` {x \<in> set (entries_of w). e_TenantID x = t \<and> e_TenderID x = n \<and> e_DeletedAt x = None}"
  using assms(7)
proof (cases rule: serve_paths)
  case stopped
  with assms(2,3,9) show ?thesis
    by (simp add: public_routes [OF assms(2)] split: sum.splits)
next
  case (handled hs rq' resp0)
  with assms(3) have run: "Handler_List lib (service d tr) rq' w = (resp0, w')" by (simp add: handle_def)
  have same: "rq_Param rq' = rq_Param rq" "ctx_tx (rq_Context rq') = None"
    using handled(2) assms(4) by (simp_all add: same_request_def)
  from run show ?thesis
  proof (cases rule: Handler_List_paths)
    case refused
    with assms(8) handled(4) show ?thesis by (auto simp: refused_def)
  next
    case (called t' n' limit offset r)
    with assms(5,6) same have tn: "t' = t" "n' = n" by simp_all
    obtain es where es: "r = Inr es"
      and page: "page = \<lparr>lr_Entries = toACLResponses es, lr_Limit = limit, lr_Offset = offset\<rparr>"
    proof (cases r)
      case (Inl err)
      with called(6) assms(8) handled(4) show thesis by (simp add: respondACLError_body)
    next
      case (Inr es)
      with called(6) assms(8) handled(4) show thesis by (intro that) auto
    qed
    have "limit \<le> 500" using called(4) by (auto simp: parseListPagination_spec split: option.splits if_splits)
    with Svc_List_page [OF assms(1) same(2) called(5) [unfolded es tn]] show ?thesis
      by (auto simp: page toACLResponses_def)
  qed
qed

definition demo_get :: "response \<times> demo_redis world" where
  "demo_get = serve demo_http demo_docs_lib (service demo_deps demo_tracer) demo_health
     (eng_routes (NewRouter [] demo_docs) ! 0) (demo_request ''1'' ''tender_admin'' []) (snd demo_post)"

definition page_of :: "resp_body \<Rightarrow> ListResponse" where
  "page_of b = (case b of BList page \<Rightarrow> page | _ \<Rightarrow> \<lparr>lr_Entries = [], lr_Limit = 0, lr_Offset = 0\<rparr>)"

lemma demo_get_run:
  "case demo_get of (resp, w) \<Rightarrow>
     (case rs_body resp of BList page \<Rightarrow> map ar_UserID (lr_Entries page) = [3] | _ \<Rightarrow> False)"
  by code_simp

lemma demo_get_page:
  "map ar_UserID (lr_Entries (page_of (rs_body (fst demo_get)))) = [3]"
  "rs_body (fst demo_get) = BList (page_of (rs_body (fst demo_get)))"
  using demo_get_run by (auto simp: case_prod_beta page_of_def split: resp_body.splits)

theorem http_list_page_witness:
  "length (lr_Entries (page_of (rs_body (fst demo_get)))) = 1 \<and>
   lr_Limit (page_of (rs_body (fst demo_get))) \<le> 500 \<and>
   set (lr_Entries (page_of (rs_body (fst demo_get)))) \<subseteq>
     toACLResponse ` {x \<in> set (entries_of (snd demo_post)). e_TenantID x = 1 \<and> e_TenderID x = 2 \<and> e_DeletedAt x = None}"
proof -
  let ?rt = "eng_routes (NewRouter [] demo_docs) ! 0"
  have rt: "?rt \<in> set (eng_routes (NewRouter [] demo_docs))" "rt_handler ?rt = EList"
    by (simp_all add: NewRouter_def mk_route_def Let_def)
  have auth: "hl_auth demo_http (demo_request ''1'' ''tender_admin'' []) \<noteq> Inl (fst demo_get)"
    by (simp add: demo_http_def demo_auth_def demo_request_def)
  have run: "serve demo_http demo_docs_lib (service demo_deps demo_tracer) demo_health ?rt
      (demo_request ''1'' ''tender_admin'' []) (snd demo_post) = (fst demo_get, snd demo_get)"
    by (simp add: demo_get_def)
  from http_list_page [OF demo_deps_ok rt demo_routes(3) demo_http_params(1,2) run demo_get_page(2) auth]
    arg_cong [OF demo_get_page(1), of length] show ?thesis by simp
qed

section \<open>Readiness\<close>

text \<open>C25. Readiness follows Postgres alone: \<open>/readyz\<close> answers 200 when the pool is healthy and 503 when
  it is not, whatever the cache answers to its ping; an unreachable cache is only reported as
  degraded; and the probe changes neither the tables nor anything the cache holds.\<close>

theorem readyz_follows_postgres:
  assumes "valkey_ok (d_vk d)" and rt: "rt \<in> set (eng_routes (NewRouter name docs))" "rt_handler rt = EReadyz"
    and run: "serve lib dl (service d tr) health rt rq w = (resp, w')"
  shows "rs_status resp = (if hs_Healthy (health (rq_Context rq) w) then 200 else 503) \<and>
    (\<exists>checks. rs_body resp = BReady checks \<and>
       rz_valkey checks = (case fst (Cache_Ping (d_vk d) (rq_Context rq) w) of None \<Rightarrow> ''ok'' | Some _ \<Rightarrow> ''degraded'')) \<and>
    db w' = db w \<and> cached (d_vk d) w' = cached (d_vk d) w"
proof -
  have "rt_chain rt = []"
    using rt by (auto simp: NewRouter_def registerDocsRoutes_def mk_route_def Let_def split: if_splits)
  with run obtain er where ping: "cache_Ping (NewCache (d_vk d)) (rq_Context rq) w = (er, w')"
    and resp: "resp = fst (readyz health (NewCache (d_vk d)) rq w)"
    by (auto simp: serve_def rt(2) handle_def readyz_def Let_def split: prod.splits)
  have "cached (d_vk d) w' = cached (d_vk d) w" using valkey.ping_any [OF assms(1) ping] by simp
  moreover have "db w' = db w" using ping by (rule cache_db(4))
  moreover have "Cache_Ping (d_vk d) (rq_Context rq) w = (er, w')"
    using ping by (simp add: NewCache_def)
  ultimately show ?thesis
    using ping by (simp add: resp readyz_def Let_def split: option.splits)
qed

text \<open>The example with a cache server that answers no ping.\<close>

definition demo_down :: "demo_redis deps" where
  "demo_down = demo_deps\<lparr>d_vk := demo_vk\<lparr>vk_client :=
     demo_client\<lparr>rd_Ping := (\<lambda>now m. (Some (Plain ''connection refused''), m))\<rparr>\<rparr>\<rparr>"

lemma demo_down_ok: "valkey_ok (d_vk demo_down)"
  using demo_vk_ok by (simp add: demo_down_def valkey_ok_def text_contract_def redis_contract_def demo_vk_def)

definition demo_readyz :: "response \<times> demo_redis world" where
  "demo_readyz = serve demo_http demo_docs_lib (service demo_down demo_tracer) demo_health
     (eng_routes (NewRouter [] demo_docs) ! 5) (demo_request [] [] []) demo_world"

theorem readyz_follows_postgres_witness:
  "rs_status (fst demo_readyz) = 200 \<and>
   (\<exists>checks. rs_body (fst demo_readyz) = BReady checks \<and> rz_valkey checks = ''degraded'')"
proof -
  let ?rt = "eng_routes (NewRouter [] demo_docs) ! 5"
  have rt: "?rt \<in> set (eng_routes (NewRouter [] demo_docs))" "rt_handler ?rt = EReadyz"
    by (simp_all add: NewRouter_def mk_route_def Let_def)
  have run: "serve demo_http demo_docs_lib (service demo_down demo_tracer) demo_health ?rt
      (demo_request [] [] []) demo_world = (fst demo_readyz, snd demo_readyz)" by (simp add: demo_readyz_def)
  from readyz_follows_postgres [OF demo_down_ok rt run] show ?thesis
    by (simp add: demo_health_def demo_down_def Cache_Ping_def demo_vk_def demo_client_def)
qed

end
