(* ===== verification/HttpOutcomes.thy ===== *)
theory HttpOutcomes
  imports HttpTheorems
begin

text \<open>
  The complete answer of each operation of the API, end to end: for a well-formed request of an
  authorised caller, which status and code the answer has and what it did to the entries.
\<close>

section \<open>Status codes\<close>

lemma code_status_simps:
  "code_status ErrCodeInvalidAccessLevel = 422" "code_status ErrCodeInvalidReason = 422"
  "code_status ErrCodeInvalidExpiry = 422" "code_status ErrCodeGranteeNotActiveMember = 422"
  "code_status ErrCodeOptimisticLockConflict = 409" "code_status ErrCodeDuplicateGrant = 409"
  "code_status ErrCodeCoreUnavailable = 503" "code_status ErrCodeDependencyUnavailable = 503"
  by code_simp+

lemma acl_error_domain: "CodeOf (Some err) = (code, True) \<Longrightarrow> acl_error lib err = (code_status code, code)"
  by (simp add: acl_error_def)

section \<open>TAC-2\<close>

text \<open>
  The error contract of a grant: the first check that fails decides.  \<open>ex\<close> is the answer of the
  membership provider, \<open>taken\<close> tells whether the triple has a live entry.
\<close>

definition grant_decision ::
  "instant \<Rightarrow> TenderACLLevel \<Rightarrow> string \<Rightarrow> instant option \<Rightarrow> go_error + bool \<times> uuid \<Rightarrow> bool \<Rightarrow> int \<times> string" where
  "grant_decision now l re x ex taken =
     (if l \<notin> {''view'', ''edit'', ''approve''} then (422, ErrCodeInvalidAccessLevel)
      else if 500 < length re then (422, ErrCodeInvalidReason)
      else if \<exists>until. x = Some until \<and> until \<le> now then (422, ErrCodeInvalidExpiry)
      else (case ex of
              Inl _ \<Rightarrow> (503, ErrCodeCoreUnavailable)
            | Inr (is_active, _) \<Rightarrow>
                if \<not> is_active then (422, ErrCodeGranteeNotActiveMember)
                else if taken then (409, ErrCodeDuplicateGrant)
                else (201, [])))"

lemma Valid_levels: "Valid l \<longleftrightarrow> l \<in> {''view'', ''edit'', ''approve''}"
  by (auto simp: Valid_def ACLView_def ACLEdit_def ACLApprove_def)

lemma grant_decision_valid:
  assumes "grant_valid now l re x"
  shows "grant_decision now l re x ex taken =
    (case ex of Inl _ \<Rightarrow> (503, ErrCodeCoreUnavailable)
     | Inr (is_active, _) \<Rightarrow> if \<not> is_active then (422, ErrCodeGranteeNotActiveMember)
         else if taken then (409, ErrCodeDuplicateGrant) else (201, []))"
  using assms by (auto simp: grant_decision_def grant_valid_def Valid_levels maxReasonLength_def split: option.splits)

text \<open>What the store answers to a valid grant.\<close>

lemma valid_grant_answer:
  assumes "pg_healthy pg" "ctx_tx c = None" "CHR 0x00 \<notin> set re" "grant_valid now l re x"
    and "\<forall>r \<in> set (tender_acl_entries (db w)). r_id r \<noteq> gen_random_uuid (pg_srv pg) (db w)" "db w1 = db w"
  shows "if \<exists>e \<in> set (entries_of w). live t n u e
    then Repo_Grant pg c (grant_entry t n u m g l re x) w1 =
      (Inl (NewError ErrCodeDuplicateGrant ''an active grant already exists for this tenant/tender/user''), w1)
    else \<exists>y w'. Repo_Grant pg c (grant_entry t n u m g l re x) w1 = (Inr y, w')"
proof -
  have "insertable pg (grant_entry t n u m g l re x) w1"
    using assms(3-6) char_length_le [of re] by (auto simp: insertable_def grant_valid_def maxReasonLength_def)
  moreover have "entries_of w1 = entries_of w" using assms(6) by (simp add: entries_of_def)
  ultimately show ?thesis using Repo_Grant_answer [OF assms(1,2)] by simp
qed

lemma Svc_Grant_decision:
  assumes h: "pg_healthy (d_pg d)" and c: "ctx_tx c = None" and nul: "CHR 0x00 \<notin> set re"
    and fresh: "\<forall>r \<in> set (tender_acl_entries (db w)). r_id r \<noteq> gen_random_uuid (pg_srv (d_pg d)) (db w)"
    and run: "Svc_Grant (service d tr) c t n u g l re x w = (r, w')"
    and dec: "grant_decision (now_app w) l re x
      (fst (Exists (d_hc d) (Start tr c ''service.ACLService.Grant'') t u w))
      (\<exists>e \<in> set (entries_of w). live t n u e) = (st, code)"
  shows "if st = 201 then \<exists>y. r = Inr y
    else \<exists>err. r = Inl err \<and> CodeOf (Some err) = (code, True) \<and> st = code_status code \<and> db w' = db w"
proof (cases "grant_valid (now_app w) l re x")
  case False
  with run dec show ?thesis
    by (auto simp: Svc_Grant_def grant_decision_def grant_valid_def Valid_levels Let_def maxReasonLength_def
        code_status_simps split: option.splits if_splits)
next
  case True
  let ?c = "Start tr c ''service.ACLService.Grant''"
  note D = grant_decision_valid [OF True]
  have "ctx_tx ?c = None" using c by simp
  note ans = valid_grant_answer [OF h this nul True fresh]
  from run show ?thesis
  proof (cases rule: Svc_Grant_paths)
    case (invalid er)
    with True show ?thesis by simp
  next
    case (unavailable err w1)
    with dec show ?thesis
      by (auto simp: D checker_client_def code_status_simps dest: Exists_cases(1))
  next
    case (inactive m w1)
    with dec show ?thesis
      by (auto simp: D checker_client_def code_status_simps dest: Exists_cases(1))
  next
    case (rejected m w1 err w2)
    then have "db (am_RecordGrantCheck service_metrics ?c ''active'' w1) = db w"
      by (auto dest: exists_db)
    from ans [OF this, of t n u m g] rejected dec show ?thesis
      by (auto simp: D checker_client_def code_status_simps split: if_splits dest: Exists_cases(1))
  next
    case (granted m w1 y w2 er w3)
    then have "db (am_RecordGrantCheck service_metrics ?c ''active'' w1) = db w"
      by (auto dest: exists_db)
    from ans [OF this, of t n u m g] granted dec show ?thesis
      by (auto simp: D checker_client_def split: if_splits dest: Exists_cases(1))
  qed
qed

text \<open>The request that a handler of the public group sees when the authentication found \<open>p\<close>.\<close>

abbreviation seen_by_handler :: "http_req \<Rightarrow> RequestContext \<Rightarrow> http_req" where
  "seen_by_handler rq p \<equiv> ContextBridgeMiddleware (rq\<lparr>rq_Identity := Some p\<rparr>)"

lemma seen_by_handler_sel [simp]:
  "rq_Param (seen_by_handler rq p) = rq_Param rq" "rq_Body (seen_by_handler rq p) = rq_Body rq"
  "limitRequestBody (seen_by_handler rq p) = limitRequestBody rq"
  "ctx_tx (rq_Context (seen_by_handler rq p)) = ctx_tx (rq_Context rq)"
  "ctx_rc (rq_Context (seen_by_handler rq p)) = Some p"
  by (simp_all add: limitRequestBody_def bridged_identity)

lemma public_request:
  assumes "rt \<in> set (eng_routes (NewRouter name docs))" "rt_handler rt \<in> {EList, EGrant, ERevoke}"
    and "hl_auth lib rq = Inr (Some p)" "serve lib dl svc health rt rq w = (resp, w')"
  shows "handle lib dl svc health (rt_handler rt) (seen_by_handler rq p) w = (resp, w')"
  using assms(3,4) by (auto simp: serve_def public_routes [OF assms(1,2)] split: prod.splits)


text \<open>The same grant twice: created, then refused as a duplicate.\<close>

definition demo_repost :: "response \<times> demo_redis world" where
  "demo_repost = serve demo_http demo_docs_lib (service demo_deps demo_tracer) demo_health
     (eng_routes (NewRouter [] demo_docs) ! 1) (demo_request ''1'' ''tender_admin'' ''3'') (snd demo_post)"

definition demo_caller :: RequestContext where
  "demo_caller = \<lparr>rc_TenantID = ''1'', rc_UserID = ''4'', rc_Roles = [''tender_admin'']\<rparr>"

definition demo_body :: GrantRequest where
  "demo_body = \<lparr>gr_UserID = ''3'', gr_AccessLevel = ''edit'', gr_Reason = None, gr_ExpiresAt = None\<rparr>"

lemma demo_caller_facts:
  "hl_auth demo_http (demo_request ''1'' ''tender_admin'' b) = Inr (Some demo_caller)"
  "rc_TenantID demo_caller = hl_String demo_http 1"
  "set requiredRoles \<inter> set (rc_Roles demo_caller) \<noteq> {}"
  "hl_Parse demo_http (rc_UserID demo_caller) = Inr 4"
proof -
  have "demo_String 1 = ''1''" "demo_Parse ''4'' = Inr 4" by code_simp+
  then show "hl_auth demo_http (demo_request ''1'' ''tender_admin'' b) = Inr (Some demo_caller)"
    "rc_TenantID demo_caller = hl_String demo_http 1"
    "set requiredRoles \<inter> set (rc_Roles demo_caller) \<noteq> {}"
    "hl_Parse demo_http (rc_UserID demo_caller) = Inr 4"
    by (simp_all add: demo_http_def demo_auth_def demo_request_def demo_caller_def requiredRoles_def)
qed

lemma demo_body_facts:
  "hl_bind_grant demo_http (limitRequestBody (demo_request a r ''3'')) = Inr demo_body"
  "hl_Parse demo_http (gr_UserID demo_body) = Inr 3"
proof -
  have "demo_Parse ''3'' = Inr 3" by code_simp
  then show "hl_bind_grant demo_http (limitRequestBody (demo_request a r ''3'')) = Inr demo_body"
    "hl_Parse demo_http (gr_UserID demo_body) = Inr 3"
    by (simp_all add: demo_http_def demo_body_def limitRequestBody_def maxRequestBodyBytes_def demo_request_def)
qed

lemma demo_Exists: "fst (Exists demo_hc c 1 3 w) = Inr (True, 7)"
proof -
  have "demo_Parse ''7'' = Inr 7" "EqualFold ''active'' ''active''"
    "EqualFold ''tenant_membership_id'' ''tenant_membership_id''" "\<not> EqualFold ''tenant_membership_id'' ''active''"
    by code_simp+
  then show ?thesis
    by (simp add: Exists_def Let_def demo_hc_def decode_exists_def exists_member_def)
qed


section \<open>TAC-3\<close>

lemma Svc_Revoke_decision:
  assumes h: "pg_healthy (d_pg d)" and c: "ctx_tx c = None" and v: "ver < MaxInt64"
    and run: "Svc_Revoke (service d tr) c t n u ver w = (r, w')"
  shows "if \<exists>e \<in> set (entries_of w). live t n u e \<and> e_RecordVersion e = ver
    then r = None \<and> entries_of w' = spec_revoke (now_db w) t n u ver (entries_of w)
    else (\<exists>err. r = Some err \<and> CodeOf (Some err) = (ErrCodeOptimisticLockConflict, True)) \<and> db w' = db w"
proof -
  note ans = Repo_Revoke_answer [OF h _ v, of "Start tr c ''service.ACLService.Revoke''" w t n u]
  have ent: "entries_of w2 = entries_of w1" if "db w2 = db w1" for w1 w2 :: "'a world"
    using that by (simp add: entries_of_def)
  from run show ?thesis
  proof (cases rule: Svc_Revoke_paths)
    case (rejected err w1)
    with ans c show ?thesis by (auto split: if_splits)
  next
    case (revoked w1 er w2)
    then have "db w' = db w1" by (auto dest: cache_db)
    with ans c revoked ent [of w' w1] show ?thesis by (auto split: if_splits)
  qed
qed

text \<open>C9. Every answer of TAC-3: in an environment whose database does not fail, a well-formed revoke of
  an authorised caller is answered with 204 exactly when the triple has a live entry of the version the
  caller last read, which is then revoked; otherwise, an entry that was already revoked included, with
  409 \<open>optimistic_lock_conflict\<close>, and no entry changes.\<close>

theorem http_revoke_outcome:
  assumes ok: "pg_healthy (d_pg d)"
    and rt: "rt \<in> set (eng_routes (NewRouter name docs))" "rt_handler rt = ERevoke"
    and caller: "hl_auth lib rq = Inr (Some p)" "rc_TenantID p = hl_String lib t"
      "set requiredRoles \<inter> set (rc_Roles p) \<noteq> {}"
    and path: "hl_Parse lib (rq_Param rq ''id'') = Inr t" "hl_Parse lib (rq_Param rq ''tender_id'') = Inr n"
      "hl_Parse lib (rq_Param rq ''user_id'') = Inr u"
    and body: "hl_bind_revoke lib (limitRequestBody rq) = Inr req" "rv_RecordVersion req < MaxInt64"
    and notx: "ctx_tx (rq_Context rq) = None"
    and run: "serve lib dl (service d tr) health rt rq w = (resp, w')"
  shows "if \<exists>e \<in> set (entries_of w). live t n u e \<and> e_RecordVersion e = rv_RecordVersion req
    then rs_status resp = 204 \<and> entries_of w' = spec_revoke (now_db w) t n u (rv_RecordVersion req) (entries_of w)
    else rs_status resp = 409 \<and> entries_of w' = entries_of w \<and>
      (\<exists>e. rs_body resp = BError e \<and> err_Error e = ErrCodeOptimisticLockConflict)"
proof -
  let ?rq = "seen_by_handler rq p"
  obtain r where svc: "Svc_Revoke (service d tr) (rq_Context ?rq) t n u (rv_RecordVersion req) w = (r, w')"
    and resp: "resp = (case r of Some err \<Rightarrow> respondACLError lib ?rq err | None \<Rightarrow> respond 204 BNone)"
  proof -
    from public_request [OF rt(1) _ caller(1) run] rt(2)
    have H: "Handler_Revoke lib (service d tr) ?rq w = (resp, w')" by (simp add: handle_def)
    have "authorised lib (ctx_rc (rq_Context ?rq)) t" using caller by (auto simp: authorised_def)
    then have "requireSameTenant lib ?rq t = None" by (simp only: requireSameTenant_None)
    with H show thesis
      by (intro that [of "fst (Svc_Revoke (service d tr) (rq_Context ?rq) t n u (rv_RecordVersion req) w)"])
        (auto simp: Handler_Revoke_def parseUUIDParam_def path body split: prod.splits option.splits)
  qed
  from Svc_Revoke_decision [OF ok _ body(2) svc] notx show ?thesis
    by (auto simp: resp respondACLError_body acl_error_domain code_status_simps entries_of_def split: if_splits)
qed

definition demo_delete :: "string \<Rightarrow> response \<times> demo_redis world" where
  "demo_delete version = serve demo_http demo_docs_lib (service demo_deps demo_tracer) demo_health
     (eng_routes (NewRouter [] demo_docs) ! 2) (demo_request ''1'' ''tender_admin'' version) (snd demo_post)"

theorem http_revoke_outcome_witness:
  "rs_status (fst (demo_delete ''1'')) = 204 \<and> rs_status (fst (demo_delete ''2'')) = 409 \<and>
   entries_of (snd (demo_delete ''2'')) = entries_of (snd demo_post)"
proof -
  let ?rt = "eng_routes (NewRouter [] demo_docs) ! 2"
  have rt: "?rt \<in> set (eng_routes (NewRouter [] demo_docs))" "rt_handler ?rt = ERevoke"
    by (simp_all add: NewRouter_def mk_route_def Let_def)
  have healthy: "pg_healthy (d_pg demo_deps)" using demo_pg_healthy by simp
  have bind: "hl_bind_revoke demo_http (limitRequestBody (demo_request a b ''1'')) = Inr \<lparr>rv_RecordVersion = 1\<rparr>"
    "hl_bind_revoke demo_http (limitRequestBody (demo_request a b ''2'')) = Inr \<lparr>rv_RecordVersion = 2\<rparr>" for a b
  proof -
    have "Atoi ''1'' = Some 1" "Atoi ''2'' = Some 2" by code_simp+
    then show "hl_bind_revoke demo_http (limitRequestBody (demo_request a b ''1'')) = Inr \<lparr>rv_RecordVersion = 1\<rparr>"
      "hl_bind_revoke demo_http (limitRequestBody (demo_request a b ''2'')) = Inr \<lparr>rv_RecordVersion = 2\<rparr>"
      by (simp_all add: demo_http_def limitRequestBody_def maxRequestBodyBytes_def demo_request_def)
  qed
  from demo_post_created(4) obtain y where y: "entries_of (snd demo_post) = [y]" "live 1 2 3 y" "e_RecordVersion y = 1"
    by (auto simp: live_def)
  note outcome = http_revoke_outcome [OF healthy rt demo_caller_facts(1-3) demo_http_params _ _ demo_routes(3) prod.collapse [symmetric]]
  have "rs_status (fst (demo_delete ''1'')) = 204"
    using outcome [OF bind(1), where w = "snd demo_post"] y unfolding demo_delete_def by (simp add: MaxInt64_def)
  moreover have "rs_status (fst (demo_delete ''2'')) = 409 \<and> entries_of (snd (demo_delete ''2'')) = entries_of (snd demo_post)"
    using outcome [OF bind(2), where w = "snd demo_post"] y unfolding demo_delete_def by (simp add: MaxInt64_def)
  ultimately show ?thesis by simp
qed

section \<open>TAC-4\<close>

lemma Svc_CheckAccess_healthy:
  assumes h: "pg_healthy (d_pg d)" and c: "ctx_tx c = None"
    and run: "Svc_CheckAccess (service d tr) c t n u w = (r, w')"
  shows "\<exists>v. r = Inr v"
  using run
proof (cases rule: Svc_CheckAccess_paths)
  case (uncached r0 w1 w2)
  from uncached(3) show ?thesis
  proof (cases rule: check_uncached_paths)
    case (failed err)
    with Repo_FindActive_answer [OF h, of "Start tr c ''service.ACLService.CheckAccess''" t n u w2] c
    show ?thesis by auto
  qed simp
qed simp

text \<open>C10. The answer of TAC-4: an access check with well-formed ids changes no entry and needs no
  caller.  It answers 200 with the truth about the store at this moment, or with what the cache holds
  under this very triple and has not expired; a missing grant is a 200 with \<open>has_access\<close> false, never a
  404.  The only other answer is the error envelope, and it never comes while the database works, however
  the cache behaves (TAC-FAIL-2).\<close>

theorem http_check_access:
  assumes ok: "deps_ok d" and rt: "rt \<in> set (eng_routes (NewRouter name docs))" "rt_handler rt = ECheckAccess"
    and path: "hl_Parse lib (rq_Param rq ''id'') = Inr t" "hl_Parse lib (rq_Param rq ''tender_id'') = Inr n"
      "hl_Parse lib (rq_Param rq ''user_id'') = Inr u"
    and notx: "ctx_tx (rq_Context rq) = None"
    and run: "serve lib dl (service d tr) health rt rq w = (resp, w')"
  shows "entries_of w' = entries_of w \<and>
    ((\<exists>v. resp = respond 200 (BAccess \<lparr>cr_HasAccess = ca_HasAccess v, cr_AccessLevel = ca_AccessLevel v,
                                        cr_ExpiresAt = ca_ExpiresAt v\<rparr>) \<and>
        (access_answer (now_db w) t n u (entries_of w) v \<or>
         (\<exists>until. cached (d_vk d) w (t, n, u) = Some (v, until) \<and> now_cache w < until))) \<or>
     \<not> pg_healthy (d_pg d) \<and> (\<exists>err. resp = respondACLError lib rq err))"
proof -
  have "rt_chain rt = []"
    using rt by (auto simp: NewRouter_def registerDocsRoutes_def mk_route_def Let_def split: if_splits)
  then obtain r where svc: "Svc_CheckAccess (service d tr) (rq_Context rq) t n u w = (r, w')"
    and resp: "resp = (case r of Inl err \<Rightarrow> respondACLError lib rq err
      | Inr v \<Rightarrow> respond 200 (BAccess \<lparr>cr_HasAccess = ca_HasAccess v, cr_AccessLevel = ca_AccessLevel v,
          cr_ExpiresAt = ca_ExpiresAt v\<rparr>))"
    using run rt(2) by (auto simp: serve_def handle_def Handler_CheckAccess_def parseUUIDParam_def path
        split: prod.splits sum.splits)
  have "bound (d_pg d) (rq_Context rq) t" using notx by simp
  from tac.Svc_CheckAccess_any [OF ok this] svc
  have any: "entries_of w' = entries_of w \<and> (\<forall>v. r = Inr v \<longrightarrow> access_answer (now_db w) t n u (entries_of w) v \<or>
      (\<exists>until. cached (d_vk d) w (t, n, u) = Some (v, until) \<and> now_cache w < until))"
    unfolding service_def by blast
  show ?thesis
  proof (cases r)
    case (Inl err)
    with Svc_CheckAccess_healthy [OF _ notx svc] any show ?thesis by (auto simp: resp)
  next
    case (Inr v)
    with any show ?thesis by (auto simp: resp)
  qed
qed

definition demo_access :: "response \<times> demo_redis world" where
  "demo_access = serve demo_http demo_docs_lib (service demo_deps demo_tracer) demo_health
     (eng_routes (NewRouter [] demo_docs) ! 3) (demo_request [] [] []) (snd demo_post)"

theorem http_check_access_witness:
  "rs_status (fst demo_access) = 200 \<and>
   (\<exists>v. access_answer (now_db (snd demo_post)) 1 2 3 (entries_of (snd demo_post)) v \<and>
      rs_body (fst demo_access) = BAccess \<lparr>cr_HasAccess = ca_HasAccess v, cr_AccessLevel = ca_AccessLevel v,
        cr_ExpiresAt = ca_ExpiresAt v\<rparr>)"
proof -
  let ?rt = "eng_routes (NewRouter [] demo_docs) ! 3"
  have rt: "?rt \<in> set (eng_routes (NewRouter [] demo_docs))" "rt_handler ?rt = ECheckAccess"
    by (simp_all add: NewRouter_def mk_route_def Let_def)
  have run: "serve demo_http demo_docs_lib (service demo_deps demo_tracer) demo_health ?rt
      (demo_request [] [] []) (snd demo_post) = (fst demo_access, snd demo_access)" by (simp add: demo_access_def)
  have healthy: "pg_healthy (d_pg demo_deps)" using demo_pg_healthy by simp
  have none: "cached (d_vk demo_deps) (snd demo_post) (1, 2, 3) = None" using demo_post_created(5) by simp
  from http_check_access [OF demo_deps_ok rt demo_http_params demo_routes(3) run] healthy none
  show ?thesis by auto
qed

end
