(* ===== verification/SystemTheorems.thy ===== *)
theory SystemTheorems
  imports HttpOutcomes CacheTheorems
begin

text \<open>
  The process as a transition system: requests on every registered route, deliveries of both queues,
  the cleanup loops, evictions in the cache server and the passing of time, in any order and any
  number.  Two invariants of all its runs: the constraints of the schema, and the lineage of every
  value in the cache.
\<close>

section \<open>Steps and runs\<close>

inductive sys_step :: "'r process \<Rightarrow> 'r world \<Rightarrow> 'r world \<Rightarrow> bool" for p where
  request: "rt \<in> set (eng_routes (pr_engine p)) \<Longrightarrow> ctx_tx (rq_Context rq) = None \<Longrightarrow>
    process_serve p rt rq w = (resp, w') \<Longrightarrow> sys_step p w w'"
| purged: "process_offboarding p c env w = (r, w') \<Longrightarrow> sys_step p w w'"
| removed: "process_member_removal p c env w = (r, w') \<Longrightarrow> sys_step p w w'"
| cleaned: "ledger \<in> {offboarding_ledger (d_pg (pr_deps p)), member_removal_ledger (d_pg (pr_deps p))} \<Longrightarrow>
    sys_step p w (runProcessedEventsCleanup ledger svcLog c signals w)"
| evicted: "rd_stored (vk_client (d_vk (pr_deps p))) r \<subseteq>\<^sub>m rd_stored (vk_client (d_vk (pr_deps p))) (rds w) \<Longrightarrow>
    sys_step p w (w\<lparr>rds := r\<rparr>)"
| ticked: "now_app w \<le> a \<Longrightarrow> now_db w \<le> b \<Longrightarrow> now_cache w \<le> e \<Longrightarrow>
    sys_step p w (w\<lparr>now_app := a, now_db := b, now_cache := e\<rparr>)"

text \<open>A run, the latest world first: it starts with an empty cache and tables that meet the schema.\<close>

inductive sys_run :: "'r process \<Rightarrow> 'r world list \<Rightarrow> bool" for p where
  start: "schema_inv (db w) \<Longrightarrow> rd_stored (vk_client (d_vk (pr_deps p))) (rds w) = Map.empty \<Longrightarrow> sys_run p [w]"
| more: "sys_run p (w # ws) \<Longrightarrow> sys_step p w w' \<Longrightarrow> sys_run p (w' # w # ws)"

inductive_cases sys_run_ConsE: "sys_run p (w # ws)"

section \<open>The cleanup loop\<close>

lemma cleanup_tick_events:
  assumes "tx_contract (pe_pool repo)"
  shows "(db (cleanup_tick repo svcLog c w) = db w \<or>
      db (cleanup_tick repo svcLog c w) = snd (delete_expired_events (now_db w) (pe_consumer repo) (db w))) \<and>
    now_db (cleanup_tick repo svcLog c w) = now_db w \<and> safe_step w (cleanup_tick repo svcLog c w)"
proof -
  obtain x w1 where run: "CleanupExpired repo c w = (x, w1)" by fastforce
  note cases = CleanupExpired_cases [OF assms run]
  have s: "safe_step w w1" by (rule safe_ledger(3) [OF assms run])
  have d: "db w1 = db w \<or> db w1 = snd (delete_expired_events (now_db w) (pe_consumer repo) (db w))"
    and n: "now_db w1 = now_db w" using cases by auto
  have "db (cleanup_tick repo svcLog c w) = db w1 \<and> now_db (cleanup_tick repo svcLog c w) = now_db w1 \<and>
      safe_step w (cleanup_tick repo svcLog c w) = safe_step w w1"
    by (cases x) (simp_all add: cleanup_tick_def run log_defs frame_simps)
  with s d n show ?thesis by simp
qed

lemma cleanup_loop_safe:
  assumes "tx_contract (pe_pool repo)"
  shows "safe_step w (runProcessedEventsCleanup repo svcLog c signals w)"
proof (induction signals arbitrary: w)
  case (Cons s signals)
  with cleanup_tick_events [OF assms, of c w] show ?case
    by (cases s) (auto intro: safe_trans)
qed simp

section \<open>What a step does to the cache\<close>

text \<open>
  Every value that the cache holds after a step it held before, or it is the truth about the store
  from which the step started, to be kept for thirty seconds from then.
\<close>

definition lineage :: "'r valkey_env \<Rightarrow> 'r world \<Rightarrow> cache_view \<Rightarrow> bool" where
  "lineage vk w view \<longleftrightarrow>
     (\<forall>t n u v until. view (t, n, u) = Some (v, until) \<longrightarrow>
        cached vk w (t, n, u) = Some (v, until) \<or>
        access_answer (now_db w) t n u (entries_of w) v \<and> until = now_cache w + 30 * Second)"

lemma lineageD:
  assumes "lineage vk w view" "view (t, n, u) = Some (v, until)"
  shows "cached vk w (t, n, u) = Some (v, until) \<or>
    access_answer (now_db w) t n u (entries_of w) v \<and> until = now_cache w + 30 * Second"
  using assms(1) [unfolded lineage_def, rule_format, OF assms(2)] .

lemma lineage_same [simp]: "lineage vk w (cached vk w)"
  by (simp add: lineage_def)

lemma lineage_delete [simp]: "lineage vk w ((cached vk w)(k := None))"
  by (auto simp: lineage_def)

lemma lineage_rds: "rds w' = rds w \<Longrightarrow> lineage vk w (cached vk w')"
  by (simp add: cached_same [of vk w' w])

lemma safe_step_lineage: "safe_step w w' \<Longrightarrow> lineage vk w (cached vk w')"
  by (simp add: safe_step_def lineage_rds)

lemma evicted_lineage:
  assumes "rd_stored (vk_client vk) r \<subseteq>\<^sub>m rd_stored (vk_client vk) (rds w)"
  shows "lineage vk w (cached vk (w\<lparr>rds := r\<rparr>))"
proof -
  have "rd_stored (vk_client vk) (rds w) k = Some x" if "rd_stored (vk_client vk) r k = Some x" for k x
    using assms that by (metis domI map_le_def)
  then show ?thesis by (auto simp: lineage_def cached_def split: option.splits prod.splits sum.splits)
qed

lemma invalidated_lineage:
  "cached vk w' = cached vk w \<or> cached vk w' = (cached vk w)(k := None) \<Longrightarrow> lineage vk w (cached vk w')"
  by auto

lemma filled_lineage:
  assumes "cached vk w' = cached vk w \<or> (\<exists>v. access_answer (now_db w) t n u (entries_of w) v \<and>
    cached vk w' = (cached vk w)((t, n, u) \<mapsto> (v, now_cache w + ttl)))"
  shows "lineage vk w (cached vk w')"
  using assms by (auto simp: lineage_def ttl_def split: if_splits)

lemma handlers_lineage:
  assumes ok: "deps_ok d" and notx: "ctx_tx (rq_Context rq) = None"
    and run: "handle lib dl (service d tr) health e rq w = (resp, w')"
  shows "lineage (d_vk d) w (cached (d_vk d) w')"
proof -
  have bound: "bound (d_pg d) (rq_Context rq) t" for t using notx by simp
  from run show ?thesis
  proof (cases rule: handle_paths)
    case List
    from List(2) show ?thesis
    proof (cases rule: Handler_List_paths)
      case (called t n limit offset r)
      then show ?thesis using service_any(1) [OF ok bound called(5)] by simp
    qed simp
  next
    case Grant
    from Grant(2) show ?thesis
    proof (cases rule: Handler_Grant_paths)
      case (called t n u g req r)
      from service_any(2) [OF ok bound called(7)] show ?thesis by (blast intro: invalidated_lineage)
    qed simp
  next
    case Revoke
    from Revoke(2) show ?thesis
    proof (cases rule: Handler_Revoke_paths)
      case (called t n u req r)
      from service_any(3) [OF ok bound called(6)] show ?thesis by (blast intro: invalidated_lineage)
    qed simp
  next
    case CheckAccess
    from CheckAccess(2) show ?thesis
    proof (cases rule: Handler_CheckAccess_paths)
      case (called t n u r)
      from service_any(4) [OF ok bound called(4)] show ?thesis by (blast intro: filled_lineage)
    qed simp
  next
    case Readyz
    then have "\<exists>er. cache_Ping (NewCache (d_vk d)) (rq_Context rq) w = (er, w')"
      by (auto simp: readyz_def Let_def split: prod.splits)
    then obtain er where "cache_Ping (NewCache (d_vk d)) (rq_Context rq) w = (er, w')" ..
    moreover have "valkey_ok (d_vk d)" using ok by (simp add: deps_ok_def)
    ultimately show ?thesis using valkey.ping_any by fastforce
  qed simp
qed

lemma sys_step_lineage:
  assumes ok: "deps_ok (pr_deps p)" and step: "sys_step p w w'"
  shows "lineage (d_vk (pr_deps p)) w (cached (d_vk (pr_deps p)) w')"
proof -
  have tx: "tx_contract (d_pg (pr_deps p))" using ok by (simp add: deps_ok_def pg_ok_def)
  from step show ?thesis
  proof cases
    case (request rt rq resp)
    from request(3) [unfolded process_serve_def] show ?thesis
    proof (cases rule: serve_paths)
      case stopped
      then show ?thesis by simp
    next
      case (handled hs rq' resp0)
      have "ctx_tx (rq_Context rq') = None" using handled(2) request(2) by (simp add: same_request_def)
      from handlers_lineage [OF ok this handled(3)] show ?thesis .
    qed
  next
    case (purged c env r)
    then show ?thesis
      unfolding process_offboarding_def by (intro safe_step_lineage) (rule safe_offboarding [OF tx])
  next
    case (removed c env r)
    then show ?thesis
      unfolding process_member_removal_def by (intro safe_step_lineage) (rule safe_member_removal [OF tx])
  next
    case (cleaned ledger c signals)
    have "tx_contract (pe_pool ledger)" using cleaned tx by (auto simp: NewProcessedEvents_def)
    from safe_step_lineage [OF cleanup_loop_safe [OF this]] show ?thesis by (simp add: cleaned)
  next
    case (evicted r)
    then show ?thesis by (simp add: evicted_lineage)
  next
    case (ticked a b e)
    then show ?thesis by (intro lineage_rds) simp
  qed
qed

lemma sys_step_keeps_inv:
  assumes ok: "deps_ok (pr_deps p)" and step: "sys_step p w w'"
  shows "keeps_inv (db w) (db w')"
proof -
  have tx: "tx_contract (d_pg (pr_deps p))" using ok by (simp add: deps_ok_def pg_ok_def)
  from step show ?thesis
  proof cases
    case (request rt rq resp)
    show ?thesis
      by (rule serve_db [OF tx _ _ request(3) [unfolded process_serve_def]]) (use tenant_rel_keeps(1) in auto)
  next
    case (purged c env r)
    from safe_offboarding [OF tx purged [unfolded process_offboarding_def]] show ?thesis
      by (simp add: safe_step_def)
  next
    case (removed c env r)
    from safe_member_removal [OF tx removed [unfolded process_member_removal_def]] show ?thesis
      by (simp add: safe_step_def)
  next
    case (cleaned ledger c signals)
    have "tx_contract (pe_pool ledger)" using cleaned tx by (auto simp: NewProcessedEvents_def)
    from cleanup_loop_safe [OF this, of w c signals] show ?thesis by (simp add: cleaned safe_step_def)
  qed (simp_all add: keeps_inv_def)
qed

section \<open>Invariants of all runs\<close>

lemma sys_run_schema:
  assumes ok: "deps_ok (pr_deps p)" and "sys_run p ws" "w \<in> set ws"
  shows "schema_inv (db w)"
  using assms(2,3)
proof (induction arbitrary: w)
  case (more w0 ws w')
  then show ?case using sys_step_keeps_inv [OF ok more(2)] by (auto simp: keeps_inv_def)
qed simp

lemma sys_run_lineage:
  assumes ok: "deps_ok (pr_deps p)" and "sys_run p (w # ws)" "cached (d_vk (pr_deps p)) w (t, n, u) = Some (v, until)"
  shows "\<exists>w0 \<in> set ws. access_answer (now_db w0) t n u (entries_of w0) v \<and> until = now_cache w0 + 30 * Second"
  using assms(2,3)
proof (induction "w # ws" arbitrary: w ws)
  case (start w)
  then show ?case by (simp add: cached_def)
next
  case (more w0 ws w')
  from lineageD [OF sys_step_lineage [OF ok more(3)] more(4)]
  consider "cached (d_vk (pr_deps p)) w0 (t, n, u) = Some (v, until)"
    | "access_answer (now_db w0) t n u (entries_of w0) v" "until = now_cache w0 + 30 * Second"
    by blast
  then show ?case
  proof cases
    case 1
    from more(2) [OF 1] show ?thesis by auto
  next
    case 2
    then show ?thesis by auto
  qed
qed

text \<open>C8. The tables stay sound in every run of the process: whatever requests are served, events are
  delivered, cleanups run, values are evicted and clocks advance, in any order, the constraints of the
  schema hold in every state the run visits, and no triple ever has two unrevoked entries (TAE-1).\<close>

theorem process_keeps_schema:
  assumes "deps_ok (pr_deps p)" "sys_run p ws" "w \<in> set ws"
  shows "schema_inv (db w) \<and> unique_live (entries_of w)"
  using sys_run_schema [OF assms] schema_inv_unique_live by blast


section \<open>A run of the example\<close>

definition demo_process :: "demo_redis process" where
  "demo_process =
     \<lparr>pr_deps = demo_deps, pr_tracer = demo_tracer, pr_http = demo_http, pr_docs_lib = demo_docs_lib,
      pr_health = demo_health, pr_engine = NewRouter [] demo_docs\<rparr>"

lemma demo_process_sel [simp]:
  "pr_deps demo_process = demo_deps" "pr_tracer demo_process = demo_tracer"
  by (simp_all add: demo_process_def)

text \<open>A grant is served, a check fills the cache, and twenty seconds later the tenant is purged.\<close>

definition demo_seen :: "demo_redis world" where
  "demo_seen = (snd demo_access)\<lparr>now_app := 1000, now_db := 1000, now_cache := 1000 + 20 * Second\<rparr>"

definition demo_envelope :: Envelope where
  "demo_envelope = \<lparr>env_ID = ''5'', env_Type = tenantMembershipsPurgedEventType, env_TenantID = ''1'', env_Subject = []\<rparr>"

definition demo_purged :: "go_error option \<times> demo_redis world" where
  "demo_purged = process_offboarding demo_process Background demo_envelope demo_seen"

lemma demo_access_clocks:
  "case demo_access of (resp, w) \<Rightarrow> now_app w = 1000 \<and> now_db w = 1000 \<and> now_cache w = 1000 \<and>
     cached demo_vk w (1, 2, 3) = Some (may_edit, 1000 + 30 * Second)"
  by code_simp

lemma demo_run:
  "sys_run demo_process [snd demo_purged, demo_seen, snd demo_access, snd demo_post, demo_world]"
  "sys_run demo_process [snd demo_post, demo_world]"
proof -
  have rt: "eng_routes (NewRouter [] demo_docs) ! i \<in> set (eng_routes (pr_engine demo_process))" if "i < 6" for i
  proof -
    have "i < length (eng_routes (NewRouter [] demo_docs))" using that by (simp add: NewRouter_def Let_def)
    then show ?thesis by (simp add: demo_process_def)
  qed
  have tables: "schema_inv (db demo_world)" by (simp add: demo_world_def schema_inv_empty)
  have empty: "rd_stored (vk_client (d_vk (pr_deps demo_process))) (rds demo_world) = Map.empty"
    by (simp add: demo_vk_def demo_client_def demo_world_def)
  have post: "sys_step demo_process demo_world (snd demo_post)"
    by (rule sys_step.request [OF rt [of 1] demo_routes(3), where resp = "fst demo_post"])
      (simp_all add: process_serve_def demo_post_def demo_process_def)
  have get: "sys_step demo_process (snd demo_post) (snd demo_access)"
    by (rule sys_step.request [OF rt [of 3] demo_routes(3), where resp = "fst demo_access"])
      (simp_all add: process_serve_def demo_access_def demo_process_def)
  have clocks: "now_app (snd demo_access) = 1000" "now_db (snd demo_access) = 1000" "now_cache (snd demo_access) = 1000"
    using demo_access_clocks by (simp_all add: case_prod_beta)
  have tick: "sys_step demo_process (snd demo_access) demo_seen"
    unfolding demo_seen_def by (rule sys_step.ticked) (simp_all add: clocks Second_def Millisecond_def Nanosecond_def)
  have purge: "sys_step demo_process demo_seen (snd demo_purged)"
    by (rule sys_step.purged [where r = "fst demo_purged"]) (simp add: demo_purged_def)
  show first: "sys_run demo_process [snd demo_post, demo_world]"
    by (rule sys_run.more [OF sys_run.start [OF tables empty] post])
  show "sys_run demo_process [snd demo_purged, demo_seen, snd demo_access, snd demo_post, demo_world]"
    by (rule sys_run.more [OF sys_run.more [OF sys_run.more [OF first get] tick] purge])
qed

theorem process_keeps_schema_witness:
  "schema_inv (db (snd demo_purged)) \<and> unique_live (entries_of (snd demo_post))"
  using process_keeps_schema [OF _ demo_run(1), of "snd demo_purged"] process_keeps_schema [OF _ demo_run(1), of "snd demo_post"]
    demo_deps_ok by simp

text \<open>After the purge the store is empty, and the check still answers the cached access.\<close>

definition demo_stale :: "(go_error + CachedAccess) \<times> demo_redis world" where
  "demo_stale = Svc_CheckAccess (service demo_deps demo_tracer) Background 1 2 3 (snd demo_purged)"

lemma demo_purged_run:
  "case demo_purged of (res, w) \<Rightarrow> entries_of w = [] \<and> now_cache w = 1000 + 20 * Second"
  by code_simp

lemma demo_purged_cache: "cached demo_vk (snd demo_purged) (1, 2, 3) = Some (may_edit, 1000 + 30 * Second)"
proof -
  have "OffboardingConsumer_Handle (pg_lib demo_pg) (offboarding_consumer demo_pg demo_tracer) Background demo_envelope demo_seen =
      (fst demo_purged, snd demo_purged)"
    by (simp add: demo_purged_def process_offboarding_def)
  from safe_offboarding [OF _ this] have "rds (snd demo_purged) = rds (snd demo_access)"
    using demo_pg_ok by (simp add: safe_step_def pg_ok_def demo_seen_def)
  then have "cached demo_vk (snd demo_purged) = cached demo_vk (snd demo_access)" by (intro cached_same) simp
  then show ?thesis using demo_access_clocks by (simp add: case_prod_beta)
qed


section \<open>Retention of the ledger\<close>

lemma cleanup_loop_keeps:
  assumes "tx_contract (pe_pool repo)" "ev \<in> set (processed_events (db w))"
    and "p_consumer ev \<noteq> pe_consumer repo \<or> now_db w - 8 * Day \<le> p_processed_at ev"
  shows "ev \<in> set (processed_events (db (runProcessedEventsCleanup repo svcLog c signals w)))"
  using assms(2,3)
proof (induction signals arbitrary: w)
  case (Cons s signals)
  show ?case
  proof (cases s)
    case TickerC
    note tick = cleanup_tick_events [OF assms(1), of c w]
    then have "ev \<in> set (processed_events (db (cleanup_tick repo svcLog c w)))"
      using Cons(2,3) by (auto simp: delete_expired_events_def Let_def)
    with Cons(1) [of "cleanup_tick repo svcLog c w"] Cons(3) tick TickerC show ?thesis by simp
  qed (use Cons in simp)
qed simp

lemma cleanup_loop_entries:
  assumes "tx_contract (pe_pool repo)"
  shows "tender_acl_entries (db (runProcessedEventsCleanup repo svcLog c signals w)) = tender_acl_entries (db w) \<and>
    set (processed_events (db (runProcessedEventsCleanup repo svcLog c signals w))) \<subseteq> set (processed_events (db w))"
proof (induction signals arbitrary: w)
  case (Cons s signals)
  with cleanup_tick_events [OF assms, of c w] show ?case
    by (cases s) (fastforce simp: delete_expired_events_def Let_def)+
qed simp


definition demo_ledger_world :: "demo_redis world" where
  "demo_ledger_world = demo_world\<lparr>now_db := 9 * Day, db := empty_db\<lparr>processed_events :=
     [\<lparr>p_event_id = 1, p_consumer = offboardingConsumerName, p_processed_at = 0\<rparr>,
      \<lparr>p_event_id = 2, p_consumer = offboardingConsumerName, p_processed_at = 2 * Day\<rparr>,
      \<lparr>p_event_id = 3, p_consumer = memberRemovalConsumerName, p_processed_at = 0\<rparr>]\<rparr>\<rparr>"


end
