(* ===== verification/PgStartup.thy ===== *)
theory PgStartup
  imports Context
begin

text \<open>
  The parts of package postgres that only the start of the process uses: the embedded migrations
  (\<open>migrations_fs.go\<close>), their runner (\<open>migrate.go\<close>), and the tracer of the pool (\<open>otel_tracer.go\<close>).
  pgcommon's \<open>Runner.Up\<close> and OpenTelemetry's global provider are parameters.
\<close>

section \<open>migrations_fs.go\<close>

text \<open>A file system is a list of paths with their contents.\<close>

type_synonym file_system = "(string \<times> string) list"

text \<open>
  The pattern of the embed directive, \<open>migrations/*.sql\<close>: the star stands for any text without a
  slash.  The files of the package's directory are the argument.
\<close>

definition embed_pattern :: "string \<Rightarrow> bool" where
  "embed_pattern path \<longleftrightarrow>
     HasPrefix path ''migrations/'' \<and>
     (let name = TrimPrefix path ''migrations/'' in HasSuffix name ''.sql'' \<and> CHR ''/'' \<notin> set name)"

definition MigrationsFS :: "file_system \<Rightarrow> file_system" where
  "MigrationsFS files = filter (\<lambda>(path, _). embed_pattern path) files"

section \<open>migrate.go\<close>

text \<open>\<open>fs.Sub\<close>: the files below a directory, by their paths from there.\<close>

definition fs_Sub :: "file_system \<Rightarrow> string \<Rightarrow> file_system" where
  "fs_Sub fs dir =
     map (\<lambda>(path, content). (TrimPrefix path (dir @ ''/''), content)) (filter (\<lambda>(path, _). HasPrefix path (dir @ ''/'')) fs)"

text \<open>The fields of pgcommon's \<open>migrate.Runner\<close>; of the logger only whether there is one.\<close>

record migrate_Runner =
  mr_FS :: file_system
  mr_DSN :: string
  mr_Logger :: bool

definition RunMigrations ::
  "(migrate_Runner \<Rightarrow> go_error option) \<Rightarrow> file_system \<Rightarrow> string \<Rightarrow> bool \<Rightarrow> go_error option" where
  "RunMigrations Up files dsn logger =
     (let sub = fs_Sub (MigrationsFS files) ''migrations''
      in Up \<lparr>mr_FS = sub, mr_DSN = dsn, mr_Logger = logger\<rparr>)"

text \<open>
  The runner sees every migration, and nothing else: the SQL files that stand directly in the
  directory, by their bare names.
\<close>

lemma migrations_seen:
  "set (fs_Sub (MigrationsFS files) ''migrations'') =
     {(name, content). (''migrations/'' @ name, content) \<in> set files \<and> HasSuffix name ''.sql'' \<and> CHR ''/'' \<notin> set name}"
proof -
  define dir where "dir = ''migrations/''"
  have dir: "''migrations'' @ ''/'' = dir" by (simp add: dir_def)
  have "(name, content) \<in> set (fs_Sub (MigrationsFS files) ''migrations'') \<longleftrightarrow>
      (dir @ name, content) \<in> set files \<and> HasSuffix name ''.sql'' \<and> CHR ''/'' \<notin> set name" for name content
    unfolding fs_Sub_def MigrationsFS_def embed_pattern_def dir dir_def [symmetric] Let_def
    by (force simp: HasPrefix_iff TrimPrefix_append)
  then show ?thesis by (auto simp: dir_def)
qed

section \<open>otel_tracer.go\<close>

record otelTracer =
  ot_tracer :: Tracer

definition NewOTelTracer :: "(string \<Rightarrow> Tracer) \<Rightarrow> string \<Rightarrow> otelTracer" where
  "NewOTelTracer provider serviceName =
     (let serviceName = (if serviceName = [] then ''tender-acl'' else serviceName)
      in \<lparr>ot_tracer = provider serviceName\<rparr>)"

text \<open>The context of the new span; ending the span changes nothing that the program reads.\<close>

definition OTel_StartSpan :: "otelTracer \<Rightarrow> ctx \<Rightarrow> string \<Rightarrow> ctx" where
  "OTel_StartSpan tr c name = Start (ot_tracer tr) c name"

end
