(* ===== verification/Config.thy ===== *)
theory Config
  imports Wiring PgStartup
begin

text \<open>
  The configuration of the process: the DSN functions of \<open>postgres/db.go\<close> and
  \<open>cmd/tender-acl/config.go\<close>.  The environment is a function from names to values, the empty string
  for a variable that is not set, as \<open>os.Getenv\<close> reads it.
\<close>

type_synonym environment = "string \<Rightarrow> string"

section \<open>postgres/db.go: connection strings\<close>

text \<open>
  The fields of \<open>pgcommon.Config\<close> that this code writes; \<open>pc_rest\<close> stands for pool sizes, lifetimes and
  whatever else \<open>pgcommon.ConfigFromEnv\<close> reads and this code copies.
\<close>

datatype guc_provider = GUCSetFromContext

record pg_config =
  pc_DSN :: string
  pc_GUCProvider :: "guc_provider option"
  pc_PGBouncerMode :: bool
  pc_MinConns :: int
  pc_Tracer :: "otelTracer option"
  pc_Logger :: bool
  pc_rest :: "string \<Rightarrow> string"

record config_lib =
  cl_ConfigFromEnv :: "environment \<Rightarrow> pg_config"
  cl_ParseDuration :: "string \<Rightarrow> duration option"

definition statement_timeout_option :: "duration \<Rightarrow> string" where
  "statement_timeout_option d = ''&options=-c%20statement_timeout%3D'' @ Itoa (d div Millisecond)"

definition ApplyStatementTimeout :: "config_lib \<Rightarrow> environment \<Rightarrow> string \<Rightarrow> string" where
  "ApplyStatementTimeout lib env dsn =
     (if dsn = [] then dsn
      else
        (let t = env ''PG_STATEMENT_TIMEOUT'' in
         if t \<noteq> [] then
           (case cl_ParseDuration lib t of
              Some d \<Rightarrow>
                if 0 < d then
                  (if Contains dsn ''statement_timeout'' then dsn else dsn @ statement_timeout_option d)
                else dsn
            | None \<Rightarrow> dsn)
         else dsn))"

definition DSNFromEnv :: "config_lib \<Rightarrow> environment \<Rightarrow> string" where
  "DSNFromEnv lib env =
     (let cfg = cl_ConfigFromEnv lib env in
      if env ''DATABASE_URL'' \<noteq> [] then pc_DSN cfg else ApplyStatementTimeout lib env (pc_DSN cfg))"

definition LedgerPoolConfig :: "config_lib \<Rightarrow> environment \<Rightarrow> string \<Rightarrow> bool \<Rightarrow> pg_config" where
  "LedgerPoolConfig lib env dsn has_log =
     (cl_ConfigFromEnv lib env)
       \<lparr>pc_DSN := ApplyStatementTimeout lib env dsn, pc_GUCProvider := None, pc_PGBouncerMode := True,
        pc_MinConns := 0, pc_Tracer := None, pc_Logger := has_log\<rparr>"

definition MigrationDSNFromEnv :: "config_lib \<Rightarrow> environment \<Rightarrow> string" where
  "MigrationDSNFromEnv lib env =
     (let dsn = env ''MIGRATION_DATABASE_URL'' in
      if dsn \<noteq> [] then ApplyStatementTimeout lib env dsn else DSNFromEnv lib env)"

section \<open>cmd/tender-acl/config.go\<close>

record config =
  cfg_HTTPPort :: string
  cfg_MetricsPort :: string
  cfg_DatabaseURL :: string
  cfg_MigrationDatabaseURL :: string
  cfg_ValkeyAddr :: string
  cfg_ValkeyPassword :: string
  cfg_CoreInternalBaseURL :: string
  cfg_MembershipCheckTimeout :: duration
  cfg_MemberRemovalQueueURL :: string
  cfg_Environment :: string
  cfg_ProcessedEventsCleanupInterval :: duration
  cfg_DocsEnabled :: bool
  cfg_DocsAuthToken :: string

definition getEnv :: "environment \<Rightarrow> string \<Rightarrow> string \<Rightarrow> string" where
  "getEnv env name fallback = (if env name \<noteq> [] then env name else fallback)"

text \<open>The error of \<open>strconv.Atoi\<close>: a text of digits fails only because of its size.\<close>

definition Atoi_error :: "string \<Rightarrow> go_error" where
  "Atoi_error raw =
     (let ds = (case raw of c # cs \<Rightarrow> if c = CHR ''-'' \<or> c = CHR ''+'' then cs else raw | [] \<Rightarrow> [])
      in Plain (''strconv.Atoi: parsing '' @ Quote raw @ '': '' @
                (if ds \<noteq> [] \<and> list_all is_digit ds then ''value out of range'' else ''invalid syntax'')))"

definition getEnvInt :: "environment \<Rightarrow> string \<Rightarrow> int \<Rightarrow> go_error + int" where
  "getEnvInt env name fallback =
     (let raw = env name in
      if raw = [] then Inr fallback
      else (case Atoi raw of
              None \<Rightarrow> Inl (Wrapped (name @ '': invalid integer '' @ Quote raw @ '': '') (Atoi_error raw))
            | Some v \<Rightarrow> Inr v))"

text \<open>A product of \<open>time.Duration\<close>s, 64 bits wide.\<close>

definition mul_duration :: "int \<Rightarrow> int \<Rightarrow> duration" where
  "mul_duration a b = sint (word_of_int a * word_of_int b :: 64 word)"

definition loadConfig :: "config_lib \<Rightarrow> environment \<Rightarrow> go_error + config" where
  "loadConfig lib env =
     (case getEnvInt env ''MEMBERSHIP_CHECK_TIMEOUT_MS'' 300 of
        Inl err \<Rightarrow> Inl err
      | Inr membershipCheckTimeoutMS \<Rightarrow>
          (let cfg =
             \<lparr>cfg_HTTPPort = getEnv env ''HTTP_PORT'' ''8080'',
              cfg_MetricsPort = getEnv env ''METRICS_PORT'' ''9090'',
              cfg_DatabaseURL = DSNFromEnv lib env,
              cfg_MigrationDatabaseURL = MigrationDSNFromEnv lib env,
              cfg_ValkeyAddr = getEnv env ''VALKEY_ADDR'' ''localhost:6379'',
              cfg_ValkeyPassword = env ''VALKEY_PASSWORD'',
              cfg_CoreInternalBaseURL =
                getEnv env ''CORE_INTERNAL_BASE_URL'' ''http://org-membership.iam.svc.cluster.local'',
              cfg_MembershipCheckTimeout = mul_duration membershipCheckTimeoutMS Millisecond,
              cfg_MemberRemovalQueueURL = env ''MEMBER_REMOVAL_SQS_QUEUE_URL'',
              cfg_Environment = getEnv env ''ENVIRONMENT'' ''production'',
              cfg_ProcessedEventsCleanupInterval = Hour,
              cfg_DocsEnabled = EqualFold (getEnv env ''DOCS_ENABLED'' ''false'') ''true'',
              cfg_DocsAuthToken = env ''DOCS_AUTH_TOKEN''\<rparr>
           in if cfg_DatabaseURL cfg = [] then Inl (Plain ''DATABASE_URL is required'')
              else if cfg_MemberRemovalQueueURL cfg = []
              then Inl (Plain ''MEMBER_REMOVAL_SQS_QUEUE_URL is required'')
              else Inr cfg))"

section \<open>Connection strings\<close>

lemma statement_timeout_option_contains: "Contains (dsn @ statement_timeout_option d) ''statement_timeout''"
  unfolding Contains_iff statement_timeout_option_def
  by (rule exI [of _ "dsn @ ''&options=-c%20''"], rule exI [of _ "''%3D'' @ Itoa (d div Millisecond)"]) simp

lemma ApplyStatementTimeout_cases:
  "ApplyStatementTimeout lib env dsn = dsn \<or>
   (\<exists>d. 0 < d \<and> cl_ParseDuration lib (env ''PG_STATEMENT_TIMEOUT'') = Some d \<and> dsn \<noteq> [] \<and>
      \<not> Contains dsn ''statement_timeout'' \<and> ApplyStatementTimeout lib env dsn = dsn @ statement_timeout_option d)"
  by (auto simp: ApplyStatementTimeout_def Let_def split: option.splits)

lemma ApplyStatementTimeout_idem:
  "ApplyStatementTimeout lib env (ApplyStatementTimeout lib env dsn) = ApplyStatementTimeout lib env dsn"
proof -
  have fixed: "ApplyStatementTimeout lib env s = s" if "Contains s ''statement_timeout''" for s
    using that by (auto simp: ApplyStatementTimeout_def Let_def split: option.splits)
  from ApplyStatementTimeout_cases [of lib env dsn] show ?thesis
    by (auto simp: fixed statement_timeout_option_contains)
qed

end
