(* ===== verification/Metrics.thy ===== *)
theory Metrics
  imports World
begin

text \<open>
  The instruments of \<open>metrics/metrics.go\<close>: the nine counters that \<open>NewMetrics\<close> builds, registers and
  pre-initialises.  What a counter counts is in \<open>World\<close>; here are their names and labels, which the
  Prometheus client checks when a counter is registered and when a series is asked for.
\<close>

record counter_vec =
  cv_Name :: string
  cv_Help :: string
  cv_ConstLabels :: "(string \<times> string) list option"
  cv_labels :: "string list"

definition mk_counter :: "(string \<times> string) list option \<Rightarrow> string \<Rightarrow> string \<Rightarrow> string list \<Rightarrow> counter_vec" where
  "mk_counter ls name help labels = \<lparr>cv_Name = name, cv_Help = help, cv_ConstLabels = ls, cv_labels = labels\<rparr>"

text \<open>gincommon's constant labels, nil when there are none.\<close>

definition gincommonLabels :: "(string \<times> string) list \<Rightarrow> (string \<times> string) list option" where
  "gincommonLabels labels = (if labels = [] then None else Some labels)"

record Metrics =
  m_writesTotal :: counter_vec
  m_grantChecksTotal :: counter_vec
  m_checkCallsTotal :: counter_vec
  m_cacheHitsTotal :: counter_vec
  m_cacheMissesTotal :: counter_vec
  m_cascadeTotal :: counter_vec
  m_memberRemovalCascadeTotal :: counter_vec
  m_unexpectedEventTypeTotal :: counter_vec
  m_processedEventsDuplicatesTotal :: counter_vec

definition build_metrics :: "(string \<times> string) list option \<Rightarrow> Metrics" where
  "build_metrics labels =
     \<lparr>m_writesTotal = mk_counter labels ''tender_acl_writes_total''
        ''Total grant/revoke writes, by op and result'' [''op'', ''result''],
      m_grantChecksTotal = mk_counter labels ''tender_acl_grant_checks_total''
        ''Total TAC-2 grant-time membership checks, by status (active/not_active/unavailable)'' [''status''],
      m_checkCallsTotal = mk_counter labels ''tender_acl_check_calls_total''
        ''Total TAC-4 access checks, by status (has_access/no_access)'' [''status''],
      m_cacheHitsTotal = mk_counter labels ''tender_acl_cache_hits_total''
        ''Cache hits against this service's own tac:acl cache, labeled by key.'' [''key''],
      m_cacheMissesTotal = mk_counter labels ''tender_acl_cache_misses_total''
        ''Cache misses against this service's own tac:acl cache, labeled by key.'' [''key''],
      m_cascadeTotal = mk_counter labels ''tender_acl_tenant_offboarding_cascade_total''
        ''Total tenant offboarding cascade deletions, by result'' [''result''],
      m_memberRemovalCascadeTotal = mk_counter labels ''tender_acl_member_removal_cascade_total''
        ''Total per-user-removal ACL cascade soft-deletes, by result'' [''result''],
      m_unexpectedEventTypeTotal = mk_counter labels ''tender_acl_unexpected_event_type_total''
        (''Events acknowledged and dropped because event_type didn't match what '' @
         ''this queue's consumer expects, by queue and event_type.'') [''queue'', ''event_type''],
      m_processedEventsDuplicatesTotal = mk_counter labels ''tender_acl_processed_events_duplicates_total''
        (''SQS deliveries skipped because processed_events already recorded the '' @
         ''envelope id, by consumer.'') [''consumer'']\<rparr>"

definition collectors :: "Metrics \<Rightarrow> counter_vec list" where
  "collectors m =
     [m_writesTotal m, m_grantChecksTotal m, m_checkCallsTotal m, m_cacheHitsTotal m, m_cacheMissesTotal m,
      m_cascadeTotal m, m_memberRemovalCascadeTotal m, m_unexpectedEventTypeTotal m,
      m_processedEventsDuplicatesTotal m]"

text \<open>The loop over the collectors: it stops at the first that the registerer refuses.\<close>

fun register_all ::
  "(counter_vec \<Rightarrow> 'g \<Rightarrow> go_error option \<times> 'g) \<Rightarrow> counter_vec list \<Rightarrow> 'g \<Rightarrow> go_error option \<times> 'g" where
  "register_all register [] g = (None, g)"
| "register_all register (v # rest) g =
     (case register v g of
        (Some err, g) \<Rightarrow> (Some err, g)
      | (None, g) \<Rightarrow> register_all register rest g)"

text \<open>
  \<open>NewMetrics\<close> with a registerer: the instruments, and the series that exist from the start.
  \<open>default_reg\<close> is gincommon's registerer, \<open>reg\<close> the optional argument.
\<close>

definition NewMetrics ::
  "(counter_vec \<Rightarrow> 'g \<Rightarrow> go_error option \<times> 'g) \<Rightarrow> (counter_vec \<Rightarrow> 'g \<Rightarrow> go_error option \<times> 'g) option
    \<Rightarrow> (string \<times> string) list \<Rightarrow> 'g \<Rightarrow> (go_error + Metrics \<times> (string \<times> string list) list) \<times> 'g" where
  "NewMetrics default_reg reg constLabels g =
     (let registerer = (case reg of Some r \<Rightarrow> r | None \<Rightarrow> default_reg);
          m = build_metrics (gincommonLabels constLabels)
      in case register_all registerer (collectors m) g of
           (Some err, g) \<Rightarrow> (Inl err, g)
         | (None, g) \<Rightarrow>
             (Inr (m, [(cv_Name (m_cacheHitsTotal m), [cacheKeyLabel]),
                       (cv_Name (m_cacheMissesTotal m), [cacheKeyLabel])]), g))"

section \<open>Registration\<close>

text \<open>
  A registry of the Prometheus client: it refuses a collector whose name is taken and otherwise
  remembers it.
\<close>

definition registry :: "counter_vec \<Rightarrow> counter_vec list \<Rightarrow> go_error option \<times> counter_vec list" where
  "registry v g =
     (if cv_Name v \<in> cv_Name ` set g
      then (Some (Plain ''duplicate metrics collector registration attempted''), g)
      else (None, g @ [v]))"

lemma register_all_fresh:
  assumes "\<forall>v g. cv_Name v \<notin> names g \<longrightarrow> (\<exists>g'. register v g = (None, g') \<and> names g' = insert (cv_Name v) (names g))"
    and "distinct (map cv_Name vs)" "cv_Name ` set vs \<inter> names g = {}"
  shows "\<exists>g'. register_all register vs g = (None, g')"
  using assms(2,3)
proof (induction vs arbitrary: g)
  case (Cons v vs)
  then have "cv_Name v \<notin> names g" by simp
  with assms(1) obtain g' where g': "register v g = (None, g')" "names g' = insert (cv_Name v) (names g)" by blast
  have "\<exists>g''. register_all register vs g' = (None, g'')"
    by (rule Cons.IH) (use Cons.prems g'(2) in auto)
  with g'(1) show ?case by simp
qed simp

lemma metric_names:
  "map cv_Name (collectors (build_metrics ls)) =
     [''tender_acl_writes_total'', ''tender_acl_grant_checks_total'', ''tender_acl_check_calls_total'',
      ''tender_acl_cache_hits_total'', ''tender_acl_cache_misses_total'',
      ''tender_acl_tenant_offboarding_cascade_total'', ''tender_acl_member_removal_cascade_total'',
      ''tender_acl_unexpected_event_type_total'', ''tender_acl_processed_events_duplicates_total'']"
  by (simp add: collectors_def build_metrics_def mk_counter_def)

lemma metric_names_distinct: "distinct (map cv_Name (collectors (build_metrics ls)))"
  unfolding metric_names by simp

text \<open>
  The series that an instrument accepts: its own name, and one value per label (the client panics
  on any other number).
\<close>

definition accepts :: "Metrics \<Rightarrow> string \<times> string list \<Rightarrow> bool" where
  "accepts m s \<longleftrightarrow> (\<exists>v \<in> set (collectors m). cv_Name v = fst s \<and> length (cv_labels v) = length (snd s))"

definition moved :: "'r world \<Rightarrow> 'r world \<Rightarrow> (string \<times> string list) set" where
  "moved w w' = {s. counters w' s \<noteq> counters w s}"

lemma moved_inc: "moved w (inc name labels w) = {(name, labels)}"
  by (auto simp: moved_def inc_def)

lemma collectors_mem:
  "m_writesTotal m \<in> set (collectors m)" "m_grantChecksTotal m \<in> set (collectors m)"
  "m_checkCallsTotal m \<in> set (collectors m)" "m_cacheHitsTotal m \<in> set (collectors m)"
  "m_cacheMissesTotal m \<in> set (collectors m)" "m_cascadeTotal m \<in> set (collectors m)"
  "m_memberRemovalCascadeTotal m \<in> set (collectors m)" "m_unexpectedEventTypeTotal m \<in> set (collectors m)"
  "m_processedEventsDuplicatesTotal m \<in> set (collectors m)"
  by (simp_all add: collectors_def)

lemma metric_name:
  "cv_Name (m_cacheHitsTotal (build_metrics ls)) = ''tender_acl_cache_hits_total''"
  "cv_Name (m_cacheMissesTotal (build_metrics ls)) = ''tender_acl_cache_misses_total''"
  by (simp_all add: build_metrics_def mk_counter_def)

lemma acceptsI: "v \<in> set (collectors m) \<Longrightarrow> cv_Name v = name \<Longrightarrow> length (cv_labels v) = length xs \<Longrightarrow> accepts m (name, xs)"
  by (auto simp: accepts_def)

lemma accepts_series:
  "accepts (build_metrics ls) (''tender_acl_writes_total'', [x, y])"
  "accepts (build_metrics ls) (''tender_acl_grant_checks_total'', [x])"
  "accepts (build_metrics ls) (''tender_acl_check_calls_total'', [x])"
  "accepts (build_metrics ls) (''tender_acl_cache_hits_total'', [x])"
  "accepts (build_metrics ls) (''tender_acl_cache_misses_total'', [x])"
  "accepts (build_metrics ls) (''tender_acl_tenant_offboarding_cascade_total'', [x])"
  "accepts (build_metrics ls) (''tender_acl_member_removal_cascade_total'', [x])"
  "accepts (build_metrics ls) (''tender_acl_unexpected_event_type_total'', [x, y])"
  "accepts (build_metrics ls) (''tender_acl_processed_events_duplicates_total'', [x])"
  by (rule acceptsI, rule collectors_mem(1) collectors_mem(2) collectors_mem(3) collectors_mem(4) collectors_mem(5)
      collectors_mem(6) collectors_mem(7) collectors_mem(8) collectors_mem(9);
      simp add: build_metrics_def mk_counter_def; fail)+

text \<open>Every series that some call of the process moves.\<close>

definition recorded :: "ctx \<Rightarrow> string \<Rightarrow> string \<Rightarrow> 'r world \<Rightarrow> (string \<times> string list) set" where
  "recorded c x y w =
     moved w (RecordWrite c x y w) \<union> moved w (RecordGrantCheck c x w) \<union> moved w (RecordCheckCall c x w) \<union>
     moved w (RecordCacheHit c w) \<union> moved w (RecordCacheMiss c w) \<union> moved w (RecordCascade c x w) \<union>
     moved w (RecordMemberRemovalCascade c x w) \<union> moved w (RecordUnexpectedEventType c x y w) \<union>
     moved w (RecordProcessedEventsDuplicate c x w)"



end
