(* ===== verification/Startup.thy ===== *)
theory Startup
  imports Config Metrics
begin

text \<open>
  \<open>run\<close> of \<open>cmd/tender-acl/main.go\<close>: the order in which the process acquires what it needs, the first
  failure that ends it, and the deferred calls that release what was acquired, last first.  The
  functions of the platform packages are parameters that may fail.
\<close>

record sqs_env =
  sq_QueueURL :: string
  sq_Concurrency :: int
  sq_Warnings :: "string list"
  sq_rest :: "string \<Rightarrow> string"

datatype run_action =
    InitTracing string string string
  | ObservabilityMiddlewares
  | InitCollectors
  | NotifyContext
  | Migrated string
  | NewPool pg_config
  | NewClient string string
  | RegisterMetrics
  | NewSQSConsumer sqs_env
  | Serve config
  | ShutdownTracing
  | StopSignals
  | DrainAndClose
  | ClosePool
  | CloseClient

text \<open>
  The platform packages: \<open>rl_files\<close> are the files of package postgres, \<open>rl_registry\<close> is gincommon's
  metrics registry as its own collectors have left it.
\<close>

record 'g run_lib =
  rl_config :: config_lib
  rl_NewLogger :: "string \<Rightarrow> go_error option"
  rl_LoadSQS :: "environment \<Rightarrow> sqs_env"
  rl_Validate :: "sqs_env \<Rightarrow> go_error option"
  rl_Up :: "migrate_Runner \<Rightarrow> go_error option"
  rl_files :: file_system
  rl_Tracer :: "string \<Rightarrow> Tracer"
  rl_NewPool :: "pg_config \<Rightarrow> go_error option"
  rl_Register :: "counter_vec \<Rightarrow> 'g \<Rightarrow> go_error option \<times> 'g"
  rl_registry :: 'g
  rl_MetricsConstLabels :: "(string \<times> string) list"
  rl_NewSQSConsumer :: "sqs_env \<Rightarrow> go_error option"
  rl_Wait :: "config \<Rightarrow> go_error option"

definition serviceName :: string where
  "serviceName = ''tender-acl''"

text \<open>The migrations, logged through the adapter, and the metrics on gincommon's registry.\<close>

definition run_migrations :: "'g run_lib \<Rightarrow> config \<Rightarrow> go_error option" where
  "run_migrations lib cfg = RunMigrations (rl_Up lib) (rl_files lib) (cfg_MigrationDatabaseURL cfg) True"

definition run_metrics :: "'g run_lib \<Rightarrow> go_error + Metrics \<times> (string \<times> string list) list" where
  "run_metrics lib =
     fst (NewMetrics (rl_Register lib) (Some (rl_Register lib)) (rl_MetricsConstLabels lib) (rl_registry lib))"

text \<open>The configuration of the application pool.\<close>

definition app_pool_config :: "'g run_lib \<Rightarrow> environment \<Rightarrow> config \<Rightarrow> pg_config" where
  "app_pool_config lib env cfg =
     (cl_ConfigFromEnv (rl_config lib) env)
       \<lparr>pc_DSN := cfg_DatabaseURL cfg, pc_GUCProvider := Some GUCSetFromContext, pc_PGBouncerMode := True,
        pc_MinConns := 0, pc_Logger := True, pc_Tracer := Some (NewOTelTracer (rl_Tracer lib) serviceName)\<rparr>"

text \<open>The second queue: the first one's settings with its own URL and concurrency.\<close>

definition member_removal_sqs :: "environment \<Rightarrow> config \<Rightarrow> sqs_env \<Rightarrow> go_error + sqs_env" where
  "member_removal_sqs env cfg sqsEnv =
     (case getEnvInt env ''CONSUMER_CONCURRENCY'' 4 of
        Inl err \<Rightarrow> Inl err
      | Inr consumerConcurrency \<Rightarrow>
          (case getEnvInt env ''MEMBER_REMOVAL_SQS_CONCURRENCY'' consumerConcurrency of
             Inl err \<Rightarrow> Inl err
           | Inr n \<Rightarrow>
               Inr (sqsEnv\<lparr>sq_QueueURL := cfg_MemberRemovalQueueURL cfg, sq_Concurrency := n, sq_Warnings := []\<rparr>)))"

text \<open>The documentation settings and the router that serves them.\<close>

definition docs_config :: "config \<Rightarrow> DocsConfig" where
  "docs_config cfg =
     \<lparr>dc_Environment = cfg_Environment cfg, dc_Enabled = cfg_DocsEnabled cfg, dc_AuthToken = cfg_DocsAuthToken cfg\<rparr>"

definition run_engine :: "config \<Rightarrow> engine" where
  "run_engine cfg = NewRouter serviceName (docs_config cfg)"

text \<open>The last part: the metrics and the two consumers, and then the process serves until the group ends.\<close>

definition run_wired ::
  "'g run_lib \<Rightarrow> environment \<Rightarrow> config \<Rightarrow> sqs_env \<Rightarrow> run_action list \<Rightarrow> run_action list \<Rightarrow> go_error option \<times> run_action list" where
  "run_wired lib env cfg sqsEnv acts defers =
     (case run_metrics lib of
        Inl err \<Rightarrow> (Some (Wrapped ''build metrics: '' err), acts @ defers)
      | Inr svcMetrics \<Rightarrow>
     (let acts = acts @ [RegisterMetrics]
      in case rl_NewSQSConsumer lib sqsEnv of
           Some err \<Rightarrow> (Some (Wrapped ''build tenant-lifecycle-tenderacl-q consumer: '' err), acts @ defers)
         | None \<Rightarrow>
     (let acts = acts @ [NewSQSConsumer sqsEnv]
      in case member_removal_sqs env cfg sqsEnv of
           Inl err \<Rightarrow> (Some err, acts @ defers)
         | Inr memberRemovalSQS \<Rightarrow>
     (case rl_NewSQSConsumer lib memberRemovalSQS of
           Some err \<Rightarrow> (Some (Wrapped ''build member-removal-tenderacl-q consumer: '' err), acts @ defers)
         | None \<Rightarrow>
             (rl_Wait lib cfg, acts @ [NewSQSConsumer memberRemovalSQS, Serve cfg] @ defers)))))"

text \<open>
  \<open>run\<close>: the error it returns and everything it did, the deferred calls of a return included.
\<close>

definition run :: "'g run_lib \<Rightarrow> environment \<Rightarrow> string \<Rightarrow> go_error option \<times> run_action list" where
  "run lib env buildVersion =
     (case loadConfig (rl_config lib) env of
        Inl err \<Rightarrow> (Some (Wrapped ''load config: '' err), [])
      | Inr cfg \<Rightarrow>
     (case rl_NewLogger lib (cfg_Environment cfg) of
        Some err \<Rightarrow> (Some (Wrapped ''init logger: '' err), [])
      | None \<Rightarrow>
     (let acts = [InitTracing serviceName (getEnv env ''BUILD_VERSION'' buildVersion) (env ''OTEL_EXPORTER_OTLP_ENDPOINT'')];
          defers = [ShutdownTracing];
          acts = acts @ [ObservabilityMiddlewares, InitCollectors];
          sqsEnv = rl_LoadSQS lib env
      in case rl_Validate lib sqsEnv of
           Some err \<Rightarrow> (Some (Wrapped ''load SQS config: '' err), acts @ defers)
         | None \<Rightarrow>
     (let acts = acts @ [NotifyContext];
          defers = StopSignals # defers
      in case run_migrations lib cfg of
           Some err \<Rightarrow> (Some (Wrapped ''run migrations: '' err), acts @ defers)
         | None \<Rightarrow>
     (let acts = acts @ [Migrated (cfg_MigrationDatabaseURL cfg)];
          pgCfg = app_pool_config lib env cfg
      in case rl_NewPool lib pgCfg of
           Some err \<Rightarrow> (Some (Wrapped ''connect to postgres: '' err), acts @ defers)
         | None \<Rightarrow>
     (let acts = acts @ [NewPool pgCfg];
          defers = DrainAndClose # ClosePool # defers;
          acts = acts @ [NewClient (cfg_ValkeyAddr cfg) (cfg_ValkeyPassword cfg)];
          defers = CloseClient # defers
      in run_wired lib env cfg sqsEnv acts defers))))))"

text \<open>On a registry with none of the nine names the metrics do not stop the start.\<close>

lemma run_metrics_fresh:
  assumes "\<forall>v g. cv_Name v \<notin> names g \<longrightarrow> (\<exists>g'. rl_Register lib v g = (None, g') \<and> names g' = insert (cv_Name v) (names g))"
    and "set (map cv_Name (collectors (build_metrics None))) \<inter> names (rl_registry lib) = {}"
  shows "\<exists>m. run_metrics lib = Inr m"
proof -
  let ?m = "build_metrics (gincommonLabels (rl_MetricsConstLabels lib))"
  have "set (map cv_Name (collectors ?m)) \<inter> names (rl_registry lib) = {}" using assms(2) by (simp only: metric_names)
  with register_all_fresh [OF assms(1) metric_names_distinct]
  obtain g where "register_all (rl_Register lib) (collectors ?m) (rl_registry lib) = (None, g)" by (metis set_map)
  then show ?thesis by (simp add: run_metrics_def NewMetrics_def Let_def)
qed

section \<open>Resources\<close>

text \<open>What a resource needs at the end: the pool is drained and then closed.\<close>

fun release :: "run_action \<Rightarrow> run_action list" where
  "release (InitTracing s v e) = [ShutdownTracing]"
| "release NotifyContext = [StopSignals]"
| "release (NewPool cfg) = [DrainAndClose, ClosePool]"
| "release (NewClient addr pw) = [CloseClient]"
| "release _ = []"

fun is_release :: "run_action \<Rightarrow> bool" where
  "is_release ShutdownTracing = True"
| "is_release StopSignals = True"
| "is_release DrainAndClose = True"
| "is_release ClosePool = True"
| "is_release CloseClient = True"
| "is_release _ = False"

abbreviation work_of :: "run_action list \<Rightarrow> run_action list" where
  "work_of acts \<equiv> filter (\<lambda>a. \<not> is_release a) acts"

text \<open>The paths through \<open>run\<close>: how far it came, and what it returns.\<close>

lemma run_paths:
  assumes "run lib env v = (r, acts)"
  obtains (early) "r \<noteq> None" "acts = []"
  | (failed) "r \<noteq> None" "acts = work_of acts @ concat (map release (rev (work_of acts)))"
      "\<forall>cfg. Serve cfg \<notin> set acts"
      "\<forall>pg. NewPool pg \<in> set acts \<longrightarrow> (\<exists>cfg. loadConfig (rl_config lib) env = Inr cfg \<and>
         pg = app_pool_config lib env cfg \<and> Migrated (cfg_MigrationDatabaseURL cfg) \<in> set (takeWhile ((\<noteq>) (NewPool pg)) acts) \<and>
         run_migrations lib cfg = None)"
  | (served) cfg sqs where "loadConfig (rl_config lib) env = Inr cfg" "r = rl_Wait lib cfg"
      "member_removal_sqs env cfg (rl_LoadSQS lib env) = Inr sqs"
      "run_migrations lib cfg = None" "\<not> isl (run_metrics lib)"
      "acts = [InitTracing serviceName (getEnv env ''BUILD_VERSION'' v) (env ''OTEL_EXPORTER_OTLP_ENDPOINT''), ObservabilityMiddlewares, InitCollectors,
         NotifyContext, Migrated (cfg_MigrationDatabaseURL cfg), NewPool (app_pool_config lib env cfg),
         NewClient (cfg_ValkeyAddr cfg) (cfg_ValkeyPassword cfg), RegisterMetrics, NewSQSConsumer (rl_LoadSQS lib env),
         NewSQSConsumer sqs, Serve cfg, CloseClient, DrainAndClose, ClosePool, StopSignals, ShutdownTracing]"
proof (cases "loadConfig (rl_config lib) env")
  case (Inl err)
  with assms show thesis by (intro early) (auto simp: run_def)
next
  case cfg: (Inr cfg)
  show thesis
  proof (cases "rl_NewLogger lib (cfg_Environment cfg)")
    case (Some err)
    with assms cfg show thesis by (intro early) (auto simp: run_def)
  next
    case None
    note R = assms [unfolded run_def run_wired_def Let_def cfg None sum.case option.case]
    show thesis
    proof (cases "r \<noteq> None \<and> (\<forall>cfg. Serve cfg \<notin> set acts)")
      case True
      with R cfg show thesis
        by (intro failed) (auto split: option.splits sum.splits)
    next
      case False
      with R show thesis
        by (intro served [OF cfg, of "projr (member_removal_sqs env cfg (rl_LoadSQS lib env))"])
          (auto split: option.splits sum.splits)
    qed
  qed
qed

end
