(* ===== verification/ConfigTheorems.thy ===== *)
theory ConfigTheorems
  imports Startup "HOL-Library.Sublist"
begin

text \<open>
  The properties of the configuration and of the start of the process.
\<close>

section \<open>A concrete environment\<close>

definition demo_env :: environment where
  "demo_env v =
     (if v = ''MEMBER_REMOVAL_SQS_QUEUE_URL'' then ''https://sqs/q2''
      else if v = ''PG_STATEMENT_TIMEOUT'' then ''5s'' else [])"

definition demo_config_lib :: config_lib where
  "demo_config_lib =
     \<lparr>cl_ConfigFromEnv = (\<lambda>_. \<lparr>pc_DSN = ''postgres://h/db?sslmode=disable'', pc_GUCProvider = None,
        pc_PGBouncerMode = False, pc_MinConns = 2, pc_Tracer = None, pc_Logger = False, pc_rest = (\<lambda>_. [])\<rparr>),
      cl_ParseDuration = (\<lambda>s. if s = ''5s'' then Some (5 * Second) else None)\<rparr>"

definition demo_run_lib :: "counter_vec list run_lib" where
  "demo_run_lib =
     \<lparr>rl_config = demo_config_lib, rl_NewLogger = (\<lambda>_. None),
      rl_LoadSQS = (\<lambda>_. \<lparr>sq_QueueURL = ''https://sqs/q1'', sq_Concurrency = 1, sq_Warnings = [], sq_rest = (\<lambda>_. [])\<rparr>),
      rl_Validate = (\<lambda>_. None), rl_Up = (\<lambda>_. None), rl_files = [(''migrations/0001.up.sql'', []), (''db.go'', [])],
      rl_Tracer = (\<lambda>_ _ parent. parent), rl_NewPool = (\<lambda>_. None),
      rl_Register = registry, rl_registry = [], rl_MetricsConstLabels = [],
      rl_NewSQSConsumer = (\<lambda>_. None), rl_Wait = (\<lambda>_. None)\<rparr>"

section \<open>loadConfig\<close>

lemma loadConfig_loads:
  assumes "env ''MEMBERSHIP_CHECK_TIMEOUT_MS'' = [] \<or> Atoi (env ''MEMBERSHIP_CHECK_TIMEOUT_MS'') \<noteq> None"
    and "DSNFromEnv lib env \<noteq> []" "env ''MEMBER_REMOVAL_SQS_QUEUE_URL'' \<noteq> []"
  shows "loadConfig lib env = Inr (projr (loadConfig lib env))"
  using assms by (auto simp: loadConfig_def getEnvInt_def Let_def split: option.splits)

lemma demo_DSN: "DSNFromEnv demo_config_lib env \<noteq> []"
  using ApplyStatementTimeout_cases [of demo_config_lib env "''postgres://h/db?sslmode=disable''"]
  by (auto simp: DSNFromEnv_def Let_def demo_config_lib_def)

definition demo_cfg :: config where
  "demo_cfg = projr (loadConfig demo_config_lib demo_env)"

lemma demo_loads: "loadConfig demo_config_lib demo_env = Inr demo_cfg"
  unfolding demo_cfg_def by (rule loadConfig_loads) (simp_all add: demo_DSN, simp_all add: demo_env_def)

lemma loadConfig_Inr:
  assumes "loadConfig lib env = Inr cfg"
  shows "\<exists>ms. (if env ''MEMBERSHIP_CHECK_TIMEOUT_MS'' = [] then ms = 300
      else Atoi (env ''MEMBERSHIP_CHECK_TIMEOUT_MS'') = Some ms) \<and>
    cfg_MembershipCheckTimeout cfg = mul_duration ms Millisecond"
    "cfg_Environment cfg = getEnv env ''ENVIRONMENT'' ''production''"
    "cfg_DocsEnabled cfg = EqualFold (getEnv env ''DOCS_ENABLED'' ''false'') ''true''"
    "cfg_DocsAuthToken cfg = env ''DOCS_AUTH_TOKEN''"
  using assms by (auto simp: loadConfig_def getEnvInt_def Let_def split: option.splits if_splits sum.splits)


text \<open>The multiplication is exact for up to about 292 years; beyond that it wraps around.\<close>

lemma sint_int64: "int64_range v \<Longrightarrow> sint (word_of_int v :: 64 word) = v"
  unfolding int64_range_def MinInt64_def MaxInt64_def
  by (simp add: signed_of_int signed_take_bit_int_eq_self_iff)

lemma mul_duration_exact: "int64_range (a * b) \<Longrightarrow> mul_duration a b = a * b"
  using sint_int64 [of "a * b"] by (simp add: mul_duration_def)

lemma mul_duration_range: "int64_range (mul_duration a b)"
  using sint_range_size [of "word_of_int a * word_of_int b :: 64 word"]
  by (simp add: mul_duration_def int64_range_def MinInt64_def MaxInt64_def word_size)

text \<open>C32. The membership check always has a deadline: whatever \<open>MEMBERSHIP_CHECK_TIMEOUT_MS\<close> holds --
  nothing, zero, a negative number, or one whose product with a millisecond wraps around 64 bits -- a
  process that starts gives the HTTP client a positive timeout; and for a value between one millisecond
  and 9223372036854 it is exactly that many milliseconds.\<close>

theorem membership_timeout_positive:
  assumes "loadConfig lib env = Inr cfg"
  shows "\<exists>d. 0 < d \<and> d \<le> MaxInt64 \<and>
    NewHTTPChecker mk url None (cfg_MembershipCheckTimeout cfg) newreq str parse =
      NewHTTPChecker mk url (Some (mk d)) 0 newreq str parse \<and>
    (\<forall>ms. Atoi (env ''MEMBERSHIP_CHECK_TIMEOUT_MS'') = Some ms \<and> 1 \<le> ms \<and> ms \<le> 9223372036854 \<longrightarrow> d = ms * 1000000)"
proof -
  let ?t = "cfg_MembershipCheckTimeout cfg"
  let ?d = "if ?t \<le> 0 then defaultTimeout else ?t"
  have unit: "Millisecond = 1000000" by (simp add: Millisecond_def Nanosecond_def)
  obtain ms where ms: "if env ''MEMBERSHIP_CHECK_TIMEOUT_MS'' = [] then ms = 300
      else Atoi (env ''MEMBERSHIP_CHECK_TIMEOUT_MS'') = Some ms" and t: "?t = mul_duration ms Millisecond"
    using loadConfig_Inr(1) [OF assms] by blast
  have "?d = ms' * 1000000" if "Atoi (env ''MEMBERSHIP_CHECK_TIMEOUT_MS'') = Some ms'" "1 \<le> ms'" "ms' \<le> 9223372036854" for ms'
  proof -
    have "ms' = ms" using ms that(1) by (auto split: if_splits)
    moreover have "int64_range (ms' * 1000000)"
      using that by (simp add: int64_range_def MinInt64_def MaxInt64_def)
    ultimately show ?thesis using that(2) by (simp add: t unit mul_duration_exact)
  qed
  moreover have "0 < ?d \<and> ?d \<le> MaxInt64"
    using mul_duration_range [of ms Millisecond]
    by (simp add: t int64_range_def defaultTimeout_def unit MaxInt64_def)
  ultimately show ?thesis
    by (intro exI [of _ ?d]) (auto simp: NewHTTPChecker_def)
qed

theorem membership_timeout_positive_witness:
  "\<exists>d > 0. NewHTTPChecker (\<lambda>t _ _ (w :: unit world). Inl (Plain (Itoa t))) ''http://o'' None
      (cfg_MembershipCheckTimeout (projr (loadConfig demo_config_lib (demo_env(''MEMBERSHIP_CHECK_TIMEOUT_MS'' := ''-9'')))))
      (\<lambda>_. None) (\<lambda>_. []) (\<lambda>_. Inr 0) =
    NewHTTPChecker (\<lambda>t _ _ w. Inl (Plain (Itoa t))) ''http://o'' (Some (\<lambda>_ _ w. Inl (Plain (Itoa d)))) 0
      (\<lambda>_. None) (\<lambda>_. []) (\<lambda>_. Inr 0)"
proof -
  let ?env = "demo_env(''MEMBERSHIP_CHECK_TIMEOUT_MS'' := ''-9'')"
  have "Atoi ''-9'' \<noteq> None" by code_simp
  then have "loadConfig demo_config_lib ?env = Inr (projr (loadConfig demo_config_lib ?env))"
    by (intro loadConfig_loads) (simp_all add: demo_DSN, simp add: demo_env_def)
  from membership_timeout_positive [OF this, of "\<lambda>t _ _ w. Inl (Plain (Itoa t))" "''http://o''" "\<lambda>_. None" "\<lambda>_. []" "\<lambda>_. Inr 0"]
  show ?thesis by blast
qed

section \<open>Connection strings\<close>

text \<open>Applying the statement timeout twice is applying it once, so a DSN that the first helper has
  processed passes through the others unchanged; the pool, the ledger and the migration DSN never carry
  the option twice.\<close>

theorem statement_timeout_idempotent:
  "ApplyStatementTimeout lib env (ApplyStatementTimeout lib env dsn) = ApplyStatementTimeout lib env dsn \<and>
   pc_DSN (LedgerPoolConfig lib env (ApplyStatementTimeout lib env dsn) b) = pc_DSN (LedgerPoolConfig lib env dsn b) \<and>
   (\<exists>suffix. ApplyStatementTimeout lib env dsn = dsn @ suffix)"
  using ApplyStatementTimeout_cases [of lib env dsn]
  by (auto simp: ApplyStatementTimeout_idem LedgerPoolConfig_def)

text \<open>On a DSN without a query string the timeout is lost: the option is appended after an ampersand
  although nothing opened a query, so the result still has no query string and the option becomes part of
  what stands last, the database name.\<close>

theorem statement_timeout_needs_query:
  assumes "cl_ParseDuration lib (env ''PG_STATEMENT_TIMEOUT'') = Some d" "0 < d" "env ''PG_STATEMENT_TIMEOUT'' \<noteq> []"
    and "dsn \<noteq> []" "CHR ''?'' \<notin> set dsn" "\<not> Contains dsn ''statement_timeout''"
  shows "ApplyStatementTimeout lib env dsn = dsn @ ''&options=-c%20statement_timeout%3D'' @ Itoa (d div Millisecond) \<and>
    CHR ''?'' \<notin> set (ApplyStatementTimeout lib env dsn)"
proof -
  have "CHR ''?'' \<notin> set (Itoa v)" for v
  proof -
    have "\<not> is_digit (CHR ''?'')" by code_simp
    then show ?thesis
      using nat_digits_all_digits [of "nat v"] nat_digits_all_digits [of "nat (- v)"] by (auto simp: Itoa_def)
  qed
  then show ?thesis
    using assms by (simp add: ApplyStatementTimeout_def statement_timeout_option_def Let_def)
qed

lemma Itoa_5000: "Itoa 5000 = ''5000''"
proof -
  have "Itoa 5000 = map digit_char [5, 0, 0, 0]"
    by (simp add: Itoa_def nat_digits.simps [of 5000] nat_digits.simps [of 500] nat_digits.simps [of 50] nat_digits.simps [of 5])
  moreover have "map digit_char [5, 0, 0, 0] = ''5000''" by code_simp
  ultimately show ?thesis by (rule trans)
qed

theorem statement_timeout_needs_query_witness:
  "ApplyStatementTimeout demo_config_lib demo_env ''postgres://h/db'' = ''postgres://h/db&options=-c%20statement_timeout%3D5000''"
proof -
  have "(5 * Second) div Millisecond = 5000" by (simp add: Second_def Millisecond_def Nanosecond_def)
  moreover have "\<not> Contains ''postgres://h/db'' ''statement_timeout''" by code_simp
  ultimately have "Itoa (5 * Second div Millisecond) = ''5000''" "\<not> Contains ''postgres://h/db'' ''statement_timeout''" using Itoa_5000 by simp_all
  then show ?thesis
    using statement_timeout_needs_query [of demo_config_lib demo_env "5 * Second" "''postgres://h/db''"]
    by (simp add: demo_config_lib_def demo_env_def Second_def Millisecond_def Nanosecond_def)
qed

section \<open>The start of the process\<close>

text \<open>C31. What \<open>run\<close> acquires it releases: on every path, a failed start or the end of serving, the
  deferred calls release tracing, signals, pool and cache client exactly when they were acquired, the
  last acquired first, the pool drained before it is closed; and nothing is released twice.\<close>

theorem run_releases_everything:
  "snd (run lib env v) = work_of (snd (run lib env v)) @ concat (map release (rev (work_of (snd (run lib env v)))))"
proof -
  obtain r acts where run: "run lib env v = (r, acts)" by fastforce
  then show ?thesis
  proof (cases rule: run_paths)
    case failed
    with run show ?thesis by simp
  qed (use run in simp_all)
qed

text \<open>C30. Requests are served only on a migrated schema and with the tenant binding in place: a process
  that serves had a valid configuration and opened its pool after the migrations succeeded; that pool
  takes the tenant of each transaction from the context, runs in transaction pooling mode and keeps no
  idle connection, whatever the environment says.\<close>

theorem run_serves_only_migrated:
  assumes "run lib env v = (r, acts)" "Serve cfg \<in> set acts"
  shows "loadConfig (rl_config lib) env = Inr cfg \<and> run_migrations lib cfg = None \<and>
    (\<exists>before pg. sublist (before @ [NewPool pg]) acts \<and> Migrated (cfg_MigrationDatabaseURL cfg) \<in> set before \<and>
       pc_DSN pg = cfg_DatabaseURL cfg \<and> pc_GUCProvider pg = Some GUCSetFromContext \<and> pc_PGBouncerMode pg \<and> pc_MinConns pg = 0)"
  using assms(1)
proof (cases rule: run_paths)
  case early
  with assms(2) show ?thesis by simp
next
  case failed
  with assms(2) show ?thesis by simp
next
  case (served cfg' sqs)
  let ?pg = "app_pool_config lib env cfg'"
  from served(6) assms(2) have "cfg' = cfg" by simp
  moreover have "sublist ([Migrated (cfg_MigrationDatabaseURL cfg')] @ [NewPool ?pg]) acts"
    unfolding served(6) sublist_def
    by (rule exI [of _ "take 4 acts"], rule exI [of _ "drop 6 acts"]) (simp add: served(6))
  ultimately show ?thesis
    using served(1,4) by (intro conjI exI [of _ "[Migrated (cfg_MigrationDatabaseURL cfg')]"] exI [of _ ?pg])
      (simp_all add: app_pool_config_def)
qed

lemma demo_start:
  "run_migrations demo_run_lib cfg = None" "\<exists>m. run_metrics demo_run_lib = Inr m"
  by (simp add: run_migrations_def RunMigrations_def demo_run_lib_def Let_def)
    (rule run_metrics_fresh [where names = "\<lambda>g. cv_Name ` set g"]; simp add: demo_run_lib_def registry_def)

lemma demo_run_lib_sel [simp]:
  "rl_config demo_run_lib = demo_config_lib" "rl_NewLogger demo_run_lib e = None" "rl_Validate demo_run_lib q = None"
  "rl_NewPool demo_run_lib pg = None" "rl_NewSQSConsumer demo_run_lib q = None" "rl_Wait demo_run_lib cfg = None"
  by (simp_all add: demo_run_lib_def)

lemma demo_serves: "Serve demo_cfg \<in> set (snd (run demo_run_lib demo_env ''dev''))"
proof -
  obtain m where "run_metrics demo_run_lib = Inr m" using demo_start(2) by blast
  moreover have "\<exists>sqs. member_removal_sqs demo_env cfg q = Inr sqs" for cfg q
    by (simp add: member_removal_sqs_def getEnvInt_def demo_env_def)
  then obtain sqs where "member_removal_sqs demo_env demo_cfg (rl_LoadSQS demo_run_lib demo_env) = Inr sqs" by blast
  ultimately show ?thesis by (simp add: run_def run_wired_def demo_loads demo_start(1) Let_def)
qed

theorem run_serves_only_migrated_witness:
  "loadConfig demo_config_lib demo_env = Inr demo_cfg"
  using run_serves_only_migrated [OF prod.collapse [symmetric] demo_serves] by (simp add: demo_run_lib_def)

text \<open>The documentation is closed by default: when neither \<open>ENVIRONMENT\<close> nor \<open>DOCS_ENABLED\<close> is set, the
  router of a process that starts has exactly the six routes of the API and of the health checks.\<close>

theorem docs_closed_by_default:
  assumes "loadConfig lib env = Inr cfg" "env ''ENVIRONMENT'' = []" "env ''DOCS_ENABLED'' = []"
  shows "map rt_handler (eng_routes (run_engine cfg)) = [EList, EGrant, ERevoke, ECheckAccess, EHealthz, EReadyz]"
proof -
  have "\<not> EqualFold ''false'' ''true''" by code_simp
  then have "\<not> docs_active (docs_config cfg)"
    using loadConfig_Inr(2,3) [OF assms(1)] assms(2,3) by (simp add: docs_active_def docs_config_def getEnv_def)
  then show ?thesis
    by (simp add: run_engine_def NewRouter_def registerDocsRoutes_def mk_route_def Let_def)
qed

theorem docs_closed_by_default_witness:
  "map rt_handler (eng_routes (run_engine demo_cfg)) = [EList, EGrant, ERevoke, ECheckAccess, EHealthz, EReadyz]"
  by (rule docs_closed_by_default [OF demo_loads]) (simp_all add: demo_env_def)

end
