(* ===== verification/Lifecycle.thy ===== *)
theory Lifecycle
  imports Startup
begin

text \<open>
  The serving process of \<open>run\<close>: the two HTTP servers, and the seven goroutines of the error group
  with the end of all of them.  A step is what one goroutine does between two points where another
  can run.  The servers and the SQS consumers belong to other packages: they may return when their
  documentation says so, with any result.
\<close>

section \<open>The servers\<close>

record http_Server =
  sv_Addr :: string
  sv_ReadTimeout :: duration
  sv_WriteTimeout :: duration
  sv_IdleTimeout :: duration
  sv_ReadHeaderTimeout :: duration

definition httpServer :: "config \<Rightarrow> http_Server" where
  "httpServer cfg =
     \<lparr>sv_Addr = '':'' @ cfg_HTTPPort cfg, sv_ReadTimeout = 15 * Second, sv_WriteTimeout = 35 * Second,
      sv_IdleTimeout = 60 * Second, sv_ReadHeaderTimeout = 5 * Second\<rparr>"

definition metricsServer :: "config \<Rightarrow> http_Server" where
  "metricsServer cfg =
     \<lparr>sv_Addr = '':'' @ cfg_MetricsPort cfg, sv_ReadTimeout = 0, sv_WriteTimeout = 0, sv_IdleTimeout = 0,
      sv_ReadHeaderTimeout = 5 * Second\<rparr>"

section \<open>The error group\<close>

datatype goroutine = ServeHTTP | ServeMetrics | ConsumeEvents | ConsumeMemberRemovals
  | CleanOffboarding | CleanMemberRemoval | AwaitShutdown

datatype shutdown_call = ShutdownHTTP | ShutdownMetrics | StopEvents | StopMemberRemovals

definition shutdown_sequence :: "shutdown_call list" where
  "shutdown_sequence = [ShutdownHTTP, ShutdownMetrics, StopEvents, StopMemberRemovals]"

fun shutdown_failed :: "shutdown_call \<Rightarrow> string" where
  "shutdown_failed ShutdownHTTP = ''http server shutdown failed''"
| "shutdown_failed ShutdownMetrics = ''metrics server shutdown failed''"
| "shutdown_failed StopEvents = ''events consumer stop failed''"
| "shutdown_failed StopMemberRemovals = ''member removal events consumer stop failed''"

text \<open>
  The group: who still runs, the first error (kept by the group), whether the context is cancelled,
  which calls of the shutdown have been made, the failures it logged, and every result returned so far.
\<close>

record group =
  gr_running :: "goroutine set"
  gr_err :: "go_error option"
  gr_done :: bool
  gr_calls :: "shutdown_call list"
  gr_log :: "string list"
  gr_results :: "(goroutine \<times> go_error option) list"

definition group_start :: group where
  "group_start = \<lparr>gr_running = UNIV, gr_err = None, gr_done = False, gr_calls = [], gr_log = [], gr_results = []\<rparr>"

text \<open>What a goroutine returns when the call it makes has returned \<open>r\<close>.\<close>

definition listen_result :: "string \<Rightarrow> go_error option \<Rightarrow> go_error option" where
  "listen_result prefix r =
     (case r of None \<Rightarrow> None | Some err \<Rightarrow> if errors_Is err ErrServerClosed then None else Some (Wrapped prefix err))"

fun goroutine_result :: "goroutine \<Rightarrow> go_error option \<Rightarrow> go_error option" where
  "goroutine_result ServeHTTP r = listen_result ''http server: '' r"
| "goroutine_result ServeMetrics r = listen_result ''metrics server: '' r"
| "goroutine_result ConsumeEvents r = r"
| "goroutine_result ConsumeMemberRemovals r = r"
| "goroutine_result CleanOffboarding r = None"
| "goroutine_result CleanMemberRemoval r = None"
| "goroutine_result AwaitShutdown r = None"

text \<open>
  When the call of a goroutine may return: \<open>ListenAndServe\<close> always with an error, with
  \<open>ErrServerClosed\<close> only once its server is shut down; a consumer's \<open>Start\<close> at any time; the cleanup
  loop when the context is cancelled; the last goroutine when it has made its calls.
\<close>

fun may_return :: "group \<Rightarrow> goroutine \<Rightarrow> go_error option \<Rightarrow> bool" where
  "may_return g ServeHTTP r = (case r of None \<Rightarrow> False | Some err \<Rightarrow> errors_Is err ErrServerClosed \<longrightarrow> ShutdownHTTP \<in> set (gr_calls g))"
| "may_return g ServeMetrics r = (case r of None \<Rightarrow> False | Some err \<Rightarrow> errors_Is err ErrServerClosed \<longrightarrow> ShutdownMetrics \<in> set (gr_calls g))"
| "may_return g ConsumeEvents r = True"
| "may_return g ConsumeMemberRemovals r = True"
| "may_return g CleanOffboarding r = gr_done g"
| "may_return g CleanMemberRemoval r = gr_done g"
| "may_return g AwaitShutdown r = (gr_calls g = shutdown_sequence)"

text \<open>The group takes a result: the first error is kept and cancels the context.\<close>

definition group_return :: "goroutine \<Rightarrow> go_error option \<Rightarrow> group \<Rightarrow> group" where
  "group_return t res g =
     (let g = g\<lparr>gr_running := gr_running g - {t}, gr_results := gr_results g @ [(t, res)]\<rparr>
      in if res \<noteq> None \<and> gr_err g = None then g\<lparr>gr_err := res, gr_done := True\<rparr> else g)"

inductive group_step :: "group \<Rightarrow> group \<Rightarrow> bool" where
  signalled: "\<not> gr_done g \<Longrightarrow> group_step g (g\<lparr>gr_done := True\<rparr>)"
| returned: "t \<in> gr_running g \<Longrightarrow> may_return g t r \<Longrightarrow> group_step g (group_return t (goroutine_result t r) g)"
| shut: "AwaitShutdown \<in> gr_running g \<Longrightarrow> gr_done g \<Longrightarrow> length (gr_calls g) < length shutdown_sequence \<Longrightarrow>
    k = shutdown_sequence ! length (gr_calls g) \<Longrightarrow> failures \<in> {[], [shutdown_failed k]} \<Longrightarrow>
    group_step g (g\<lparr>gr_calls := gr_calls g @ [k], gr_log := gr_log g @ failures\<rparr>)"

inductive_cases group_stepE: "group_step g g'"

text \<open>\<open>group.Wait()\<close> returns once every goroutine has, with the first error.\<close>

definition group_Wait :: "group \<Rightarrow> go_error option option" where
  "group_Wait g = (if gr_running g = {} then Some (gr_err g) else None)"

section \<open>Invariant and measure\<close>

definition first_error :: "(goroutine \<times> go_error option) list \<Rightarrow> go_error option" where
  "first_error rs = (case List.map_filter snd rs of [] \<Rightarrow> None | e # _ \<Rightarrow> Some e)"

definition group_inv :: "group \<Rightarrow> bool" where
  "group_inv g \<longleftrightarrow>
     (\<exists>k. gr_calls g = take k shutdown_sequence) \<and>
     (gr_calls g \<noteq> [] \<longrightarrow> gr_done g) \<and>
     (AwaitShutdown \<notin> gr_running g \<longrightarrow> gr_calls g = shutdown_sequence) \<and>
     gr_err g = first_error (gr_results g) \<and> (gr_err g \<noteq> None \<longrightarrow> gr_done g) \<and>
     distinct (map fst (gr_results g)) \<and> set (map fst (gr_results g)) = UNIV - gr_running g"

definition group_measure :: "group \<Rightarrow> nat" where
  "group_measure g = card (gr_running g) + (length shutdown_sequence - length (gr_calls g)) + (if gr_done g then 0 else 1)"

lemma UNIV_goroutine: "(UNIV :: goroutine set) =
    {ServeHTTP, ServeMetrics, ConsumeEvents, ConsumeMemberRemovals, CleanOffboarding, CleanMemberRemoval, AwaitShutdown}"
proof -
  have "t \<in> {ServeHTTP, ServeMetrics, ConsumeEvents, ConsumeMemberRemovals, CleanOffboarding, CleanMemberRemoval, AwaitShutdown}" for t
    by (cases t) simp_all
  then show ?thesis by blast
qed

instance goroutine :: finite
  by standard (simp add: UNIV_goroutine)

lemma first_error_snoc: "first_error (rs @ [(t, r)]) = (if first_error rs = None then r else first_error rs)"
  by (cases r) (auto simp: first_error_def List.map_filter_def split: list.splits)

lemma group_inv_start: "group_inv group_start"
  by (simp add: group_inv_def group_start_def first_error_def List.map_filter_def exI [of _ 0])

lemma group_step_inv:
  assumes "group_step g g'" "group_inv g"
  shows "group_inv g'"
  using assms(1)
proof (cases rule: group_step.cases)
  case signalled
  with assms(2) show ?thesis by (auto simp: group_inv_def)
next
  case (returned t r)
  have "may_return g AwaitShutdown r \<Longrightarrow> gr_calls g = shutdown_sequence" by simp
  with returned assms(2) show ?thesis
    by (auto simp: group_inv_def group_return_def Let_def first_error_snoc)
next
  case (shut k failures)
  obtain i where i: "gr_calls g = take i shutdown_sequence" using assms(2) by (auto simp: group_inv_def)
  with shut(4) have "i = length (gr_calls g)" by (simp add: min_def split: if_splits)
  with i shut(4,5) have "gr_calls g @ [k] = take (Suc i) shutdown_sequence"
    by (simp add: take_Suc_conv_app_nth)
  moreover have "AwaitShutdown \<in> gr_running g'" using shut by simp
  ultimately show ?thesis using shut assms(2) by (auto simp: group_inv_def)
qed

lemma group_step_measure:
  assumes "group_step g g'"
  shows "group_measure g' < group_measure g"
  using assms
proof (cases rule: group_step.cases)
  case (returned t r)
  have "card (gr_running g - {t}) < card (gr_running g)" using returned(2) by (intro psubset_card_mono finite) auto
  then show ?thesis unfolding returned(1) by (simp add: group_measure_def group_return_def Let_def)
qed (auto simp: group_measure_def)

lemma group_run_inv: "group_step\<^sup>*\<^sup>* group_start g \<Longrightarrow> group_inv g"
  by (induction rule: rtranclp_induct) (use group_inv_start group_step_inv in auto)

lemma group_progress:
  assumes "group_inv g" "gr_done g" "gr_running g \<noteq> {}"
  shows "\<exists>g'. group_step g g' \<and> gr_done g' \<and> gr_err g' = gr_err g"
proof (cases "AwaitShutdown \<in> gr_running g \<and> gr_calls g \<noteq> shutdown_sequence")
  case True
  obtain i where i: "gr_calls g = take i shutdown_sequence" using assms(1) by (auto simp: group_inv_def)
  with True have "length (gr_calls g) < length shutdown_sequence" by (auto simp: min_def split: if_splits)
  from group_step.shut [OF _ assms(2) this refl, of "[]"] True assms(2) show ?thesis by fastforce
next
  case False
  then have calls: "gr_calls g = shutdown_sequence" using assms(1) by (auto simp: group_inv_def)
  from assms(3) obtain t where t: "t \<in> gr_running g" by blast
  let ?r = "if t \<in> {ServeHTTP, ServeMetrics} then Some (Sentinel ErrServerClosed ''http: Server closed'') else None"
  have "may_return g t ?r" "goroutine_result t ?r = None"
    using assms(2) calls by (cases t; simp add: shutdown_sequence_def listen_result_def)+
  with group_step.returned [OF t, of ?r] assms(2) show ?thesis by (intro exI [of _ "group_return t None g"]) (simp add: group_return_def Let_def)
qed

text \<open>So a cancelled group can always finish, and without a further error.\<close>

lemma group_finishes:
  assumes "group_inv g" "gr_done g"
  shows "\<exists>n g'. (group_step ^^ n) g g' \<and> group_Wait g' = Some (gr_err g)"
  using assms
proof (induction "group_measure g" arbitrary: g rule: less_induct)
  case less
  show ?case
  proof (cases "gr_running g = {}")
    case True
    then have "(group_step ^^ 0) g g \<and> group_Wait g = Some (gr_err g)" by (simp add: group_Wait_def)
    then show ?thesis by blast
  next
    case False
    then obtain h where h: "group_step g h" "gr_done h" "gr_err h = gr_err g" using group_progress less.prems by blast
    from less.hyps [OF group_step_measure [OF h(1)] group_step_inv [OF h(1) less.prems(1)] h(2)]
    obtain n g' where "(group_step ^^ n) h g'" "group_Wait g' = Some (gr_err g)" using h(3) by auto
    with relpowp_Suc_I2 [of group_step, OF h(1)] show ?thesis by blast
  qed
qed

section \<open>The end of the process\<close>



end
