(* ===== verification/ProcessMain.thy ===== *)
theory ProcessMain
  imports ConfigTheorems Lifecycle
begin

text \<open>
  \<open>main\<close> of \<open>cmd/tender-acl/main.go\<close>: the exit status of the process, from the start (\<open>Startup\<close>) and
  the end of its error group (\<open>Lifecycle\<close>).
\<close>

text \<open>The exit status, what \<open>main\<close> writes to standard error, and what \<open>run\<close> did.\<close>

definition main_process :: "'g run_lib \<Rightarrow> environment \<Rightarrow> string \<Rightarrow> int \<times> string \<times> run_action list" where
  "main_process lib env buildVersion =
     (case run lib env buildVersion of
        (Some err, acts) \<Rightarrow> (1, ''tender-acl exited with error: '' @ Error_text err @ [CHR 0x0A], acts)
      | (None, acts) \<Rightarrow> (0, [], acts))"

lemma first_error_None: "first_error rs = None \<longleftrightarrow> (\<forall>t r. (t, r) \<in> set rs \<longrightarrow> r = None)"
proof -
  have "List.map_filter snd rs = [] \<longleftrightarrow> (\<forall>t r. (t, r) \<in> set rs \<longrightarrow> r = None)"
    by (force simp: List.map_filter_def filter_empty_conv)
  then show ?thesis by (auto simp: first_error_def split: list.splits)
qed

lemma group_ended:
  assumes "group_step\<^sup>*\<^sup>* group_start g" "group_Wait g = Some res"
  shows "res = first_error (gr_results g)" "gr_calls g = shutdown_sequence" "set (map fst (gr_results g)) = UNIV"
  using group_run_inv [OF assms(1)] assms(2) by (auto simp: group_inv_def group_Wait_def split: if_splits)

text \<open>A run that did not serve ended in an error; one that did released everything afterwards.\<close>

lemma run_served:
  assumes "run lib env v = (r, acts)"
  shows "(\<forall>cfg. Serve cfg \<notin> set acts) \<and> r \<noteq> None \<or>
    (\<exists>cfg start. loadConfig (rl_config lib) env = Inr cfg \<and> r = rl_Wait lib cfg \<and>
       (\<forall>cfg'. Serve cfg' \<in> set acts \<longleftrightarrow> cfg' = cfg) \<and>
       acts = start @ [Serve cfg, CloseClient, DrainAndClose, ClosePool, StopSignals, ShutdownTracing])"
  using assms by (cases rule: run_paths) auto



end
