(* ===== verification/Refinement.thy ===== *)
theory Refinement
  imports SystemTheorems ConsumerTheorems
begin

text \<open>
  The abstract access-control machine that the process implements: a list of entries with five
  operations.  Every step of the process, seen through \<open>entries_of\<close>, is one of its steps or none, so
  what holds of the machine holds of every run.
\<close>

section \<open>The machine\<close>

inductive acl_machine :: "TenderACLEntry list \<Rightarrow> TenderACLEntry list \<Rightarrow> bool" where
  idle: "acl_machine es es"
| granted: "Valid (e_AccessLevel y) \<Longrightarrow> e_TenantMembershipID y \<noteq> 0 \<Longrightarrow> e_RecordVersion y = 1 \<Longrightarrow>
    e_DeletedAt y = None \<Longrightarrow> \<forall>e \<in> set es. \<not> live (e_TenantID y) (e_TenderID y) (e_UserID y) e \<Longrightarrow>
    acl_machine es (es @ [y])"
| revoked: "acl_machine es (spec_revoke now t n u v es)"
| offboarded: "acl_machine es (spec_offboard t es)"
| removed: "acl_machine es (spec_remove_user now t u es)"

inductive_simps acl_machine_Nil: "acl_machine [] es"

section \<open>Its invariants\<close>

text \<open>
  The life of an entry: it is created with version one, and revoking it, which happens once, makes
  that two.  Only valid levels and confirmed memberships are ever stored.
\<close>

definition entry_ok :: "TenderACLEntry \<Rightarrow> bool" where
  "entry_ok e \<longleftrightarrow>
     Valid (e_AccessLevel e) \<and> e_TenantMembershipID e \<noteq> 0 \<and>
     e_RecordVersion e = (if e_DeletedAt e = None then 1 else 2)"

lemma delete_entry_ok:
  assumes "entry_ok e" "e_DeletedAt e = None"
  shows "entry_ok (delete_entry now e)"
  using assms by (simp add: entry_ok_def delete_entry_def)

lemma acl_machine_entry_ok:
  assumes "acl_machine es es'" "\<forall>e \<in> set es. entry_ok e"
  shows "\<forall>e \<in> set es'. entry_ok e"
  using assms
proof cases
  case (granted y)
  then show ?thesis using assms(2) by (auto simp: entry_ok_def)
next
  case (revoked now t n u v)
  then show ?thesis using assms(2) delete_entry_ok by (auto simp: spec_revoke_def live_def)
next
  case (offboarded t)
  then show ?thesis using assms(2) by (auto simp: spec_offboard_def)
next
  case (removed now t u)
  then show ?thesis using assms(2) delete_entry_ok by (auto simp: spec_remove_user_def)
qed simp

section \<open>The process implements it\<close>

lemma entries_db: "db w' = db w \<Longrightarrow> entries_of w' = entries_of w"
  by (simp add: entries_of_def)

lemma machine_grant:
  assumes "grant_valid now l re x" "m \<noteq> 0" "es' = es @ [y]" "granted_as (grant_entry t n u m g l re x) y"
    "\<forall>d \<in> set es. \<not> live t n u d"
  shows "acl_machine es es'"
  unfolding assms(3) by (rule acl_machine.granted) (use assms in \<open>auto simp: granted_as_def grant_valid_def\<close>)

lemma handlers_refine:
  assumes ok: "deps_ok d" and notx: "ctx_tx (rq_Context rq) = None"
    and run: "handle lib dl (service d tr) health e rq w = (resp, w')"
  shows "acl_machine (entries_of w) (entries_of w')"
proof -
  have bound: "bound (d_pg d) (rq_Context rq) t" for t using notx by simp
  from run show ?thesis
  proof (cases rule: handle_paths)
    case List
    from List(2) show ?thesis
    proof (cases rule: Handler_List_paths)
      case (called t n limit offset r)
      from service_any(1) [OF ok bound called(5)] show ?thesis by (simp add: acl_machine.idle)
    qed (simp add: acl_machine.idle)
  next
    case Grant
    from Grant(2) show ?thesis
    proof (cases rule: Handler_Grant_paths)
      case (called t n u g req r)
      from service_any(2) [OF ok bound called(7)] show ?thesis
        by (elim disjE exE conjE) (simp add: acl_machine.idle, (erule (4) machine_grant)+)
    qed (simp add: acl_machine.idle)
  next
    case Revoke
    from Revoke(2) show ?thesis
    proof (cases rule: Handler_Revoke_paths)
      case (called t n u req r)
      from service_any(3) [OF ok bound called(6)] show ?thesis
        by (elim disjE conjE) (simp_all add: acl_machine.idle acl_machine.revoked)
    qed (simp add: acl_machine.idle)
  next
    case CheckAccess
    from CheckAccess(2) show ?thesis
    proof (cases rule: Handler_CheckAccess_paths)
      case (called t n u r)
      from service_any(4) [OF ok bound called(4), THEN conjunct1] show ?thesis by (simp add: acl_machine.idle)
    qed (simp add: acl_machine.idle)
  next
    case Readyz
    then have "db w' = db w" by (auto simp: readyz_def Let_def split: prod.splits dest: cache_db(4))
    from entries_db [OF this] show ?thesis by (simp add: acl_machine.idle)
  qed (simp add: acl_machine.idle)
qed

lemma offboarding_refines:
  assumes pg: "pg_ok pg" and run: "OffboardingConsumer_Handle (pg_lib pg) (offboarding_consumer pg tr) c env w = (r, w')"
  shows "acl_machine (entries_of w) (entries_of w')"
proof (cases "env_Type env \<noteq> [] \<and> env_Type env \<noteq> tenantMembershipsPurgedEventType")
  case True
  with ack_unknown_pg(1) [OF pg _ _ run] show ?thesis by (simp add: acl_machine.idle)
next
  case False
  show ?thesis
  proof (cases "uuid_Parse pg (env_ID env)"; cases "uuid_Parse pg (env_TenantID env)")
    fix ev t
    assume "uuid_Parse pg (env_ID env) = Inr ev" "uuid_Parse pg (env_TenantID env) = Inr t"
    from offboarding_known_pg [OF pg _ this run] False show ?thesis
      by (auto simp: acl_machine.idle acl_machine.offboarded)
  qed (use False run in \<open>auto simp: OffboardingConsumer_Handle_def pg_lib_def acl_machine.idle\<close>)
qed

lemma member_removal_refines:
  assumes pg: "pg_ok pg" and run: "MemberRemovalConsumer_Handle (pg_lib pg) (member_removal_consumer pg tr) c env w = (r, w')"
  shows "acl_machine (entries_of w) (entries_of w')"
proof (cases "env_Type env \<noteq> [] \<and> env_Type env \<noteq> membershipRevokedEventType")
  case True
  with ack_unknown_pg(2) [OF pg _ _ run] show ?thesis by (simp add: acl_machine.idle)
next
  case False
  show ?thesis
  proof (cases "uuid_Parse pg (env_ID env)"; cases "uuid_Parse pg (env_TenantID env)"; cases "uuid_Parse pg (env_Subject env)")
    fix ev t u
    assume "uuid_Parse pg (env_ID env) = Inr ev" "uuid_Parse pg (env_TenantID env) = Inr t"
      "uuid_Parse pg (env_Subject env) = Inr u"
    from member_removal_known_pg [OF pg _ this run] False show ?thesis
      by (auto simp: acl_machine.idle acl_machine.removed)
  qed (use False run in \<open>auto simp: MemberRemovalConsumer_Handle_def pg_lib_def acl_machine.idle\<close>)
qed

lemma sys_step_refines:
  assumes ok: "deps_ok (pr_deps p)" and step: "sys_step p w w'"
  shows "acl_machine (entries_of w) (entries_of w')"
proof -
  have pg: "pg_ok (d_pg (pr_deps p))" using ok by (simp add: deps_ok_def)
  from step show ?thesis
  proof cases
    case (request rt rq resp)
    from request(3) [unfolded process_serve_def] show ?thesis
    proof (cases rule: serve_paths)
      case stopped
      then show ?thesis by (simp add: acl_machine.idle)
    next
      case (handled hs rq' resp0)
      have "ctx_tx (rq_Context rq') = None" using handled(2) request(2) by (simp add: same_request_def)
      from handlers_refine [OF ok this handled(3)] show ?thesis .
    qed
  next
    case (purged c env r)
    from offboarding_refines [OF pg purged [unfolded process_offboarding_def]] show ?thesis .
  next
    case (removed c env r)
    from member_removal_refines [OF pg removed [unfolded process_member_removal_def]] show ?thesis .
  next
    case (cleaned ledger c signals)
    have "tx_contract (pe_pool ledger)" using cleaned pg by (auto simp: NewProcessedEvents_def pg_ok_def)
    from cleanup_loop_entries [OF this, of c signals w] show ?thesis
      by (simp add: cleaned entries_of_def acl_machine.idle)
  qed (simp_all add: entries_of_def acl_machine.idle)
qed

lemma sys_run_machine:
  assumes ok: "deps_ok (pr_deps p)" and "sys_run p (w # ws)"
  shows "acl_machine\<^sup>*\<^sup>* (entries_of (last (w # ws))) (entries_of w)"
  using assms(2)
proof (induction "w # ws" arbitrary: w ws)
  case (more w0 ws w')
  from more(2) sys_step_refines [OF ok more(3)] show ?case by (simp add: rtranclp.rtrancl_into_rtrancl)
qed simp

text \<open>C28. The process implements the access-control machine: seen as a list of entries, every run is a
  sequence of grants of a valid level to a confirmed membership on a triple without a live entry,
  revocations, removals of a user's entries in a tenant, and removals of a tenant; failed commits,
  retries, duplicates, evictions and clocks are invisible in it.\<close>

theorem process_refines_acl_machine:
  assumes "deps_ok (pr_deps p)" "sys_run p (w # ws)"
  shows "acl_machine\<^sup>*\<^sup>* (entries_of (last (w # ws))) (entries_of w)"
  using assms by (rule sys_run_machine)

theorem process_refines_acl_machine_witness:
  "acl_machine\<^sup>*\<^sup>* (entries_of demo_world) (entries_of (snd demo_purged))"
  using process_refines_acl_machine [OF _ demo_run(1)] demo_deps_ok by simp



end
