(* ===== verification/Interleaving.thy ===== *)
theory Interleaving
  imports SystemTheorems
begin

text \<open>
  Requests that overlap.  An access check that misses the cache reads the store and later fills the
  cache; in between anything may happen, the commit and the invalidation of a revoke included.  The
  steps below are those of the code between two calls to another machine, and readers in flight are
  part of the state.
\<close>

section \<open>CheckAccess between its calls\<close>

text \<open>From the repository read to the answer, and from the answer to the end of the fill.\<close>

definition check_read ::
  "'w ACLService \<Rightarrow> ctx \<Rightarrow> uuid \<Rightarrow> uuid \<Rightarrow> uuid \<Rightarrow> 'w \<Rightarrow> (go_error + CachedAccess) \<times> 'w" where
  "check_read s c tenantID tenderID userID w =
     (case repo_FindActive (sv_repo s) c tenantID tenderID userID w of
        (Inl err, w) \<Rightarrow> (Inl (Wrapped ''acl: check access: '' err), w)
      | (Inr entry, w) \<Rightarrow>
          (Inr (answer_of entry),
           am_RecordCheckCall (sv_metrics s) c (statusFor (ca_HasAccess (answer_of entry))) w))"

definition check_fill ::
  "'w ACLService \<Rightarrow> ctx \<Rightarrow> uuid \<Rightarrow> uuid \<Rightarrow> uuid \<Rightarrow> CachedAccess \<Rightarrow> 'w \<Rightarrow> 'w" where
  "check_fill s c tenantID tenderID userID result w =
     (case cache_Set (sv_cache s) c tenantID tenderID userID result w of
        (Some err, w) \<Rightarrow>
          WarnContext (sv_logger s) c ''acl check cache populate failed''
            [AString ''error'', AString (Error_text err)] w
      | (None, w) \<Rightarrow> w)"

text \<open>Without interference the two halves are the code's second half.\<close>

lemma check_uncached_halves:
  "check_uncached s c t n u w =
     (case check_read s c t n u w of
        (Inl err, w) \<Rightarrow> (Inl err, w)
      | (Inr v, w) \<Rightarrow> (Inr v, check_fill s c t n u v w))"
  by (auto simp: check_uncached_def check_read_def check_fill_def answer_of_def Let_def
      split: prod.splits sum.splits option.splits)

section \<open>Configurations\<close>

text \<open>A reader in flight: its triple, the answer it read, and the world in which it read it.\<close>

record 'r reader =
  rd_tenant :: uuid
  rd_tender :: uuid
  rd_user :: uuid
  rd_answer :: CachedAccess
  rd_world :: "'r world"

record 'r conf =
  cf_world :: "'r world"
  cf_readers :: "'r reader list"
  cf_past :: "'r world list"

definition advance :: "'r conf \<Rightarrow> 'r world \<Rightarrow> 'r reader list \<Rightarrow> 'r conf" where
  "advance cf w rs = \<lparr>cf_world = w, cf_readers = rs, cf_past = cf_world cf # cf_past cf\<rparr>"

text \<open>
  A step is a reader's read, its fill at most \<open>D\<close> later on the cache's clock, its end without a fill,
  the write of a grant or a revoke, an invalidation, or any whole step of the process.
\<close>

inductive race_step :: "'r process \<Rightarrow> duration \<Rightarrow> 'r conf \<Rightarrow> 'r conf \<Rightarrow> bool" for p D where
  read: "ctx_tx c = None \<Longrightarrow>
    check_read (service (pr_deps p) (pr_tracer p)) c t n u (cf_world cf) = (Inr v, w') \<Longrightarrow>
    race_step p D cf (advance cf w'
      (\<lparr>rd_tenant = t, rd_tender = n, rd_user = u, rd_answer = v, rd_world = cf_world cf\<rparr> # cf_readers cf))"
| fill: "r \<in> set (cf_readers cf) \<Longrightarrow> now_cache (cf_world cf) - now_cache (rd_world r) \<le> D \<Longrightarrow>
    race_step p D cf (advance cf
      (check_fill (service (pr_deps p) (pr_tracer p)) c (rd_tenant r) (rd_tender r) (rd_user r) (rd_answer r) (cf_world cf))
      (remove1 r (cf_readers cf)))"
| abandon: "race_step p D cf (advance cf (cf_world cf) (remove1 r (cf_readers cf)))"
| write_grant: "ctx_tx c = None \<Longrightarrow> Repo_Grant (d_pg (pr_deps p)) c x (cf_world cf) = (res, w') \<Longrightarrow>
    race_step p D cf (advance cf w' (cf_readers cf))"
| write_revoke: "ctx_tx c = None \<Longrightarrow> Repo_Revoke (d_pg (pr_deps p)) c t n u v (cf_world cf) = (er, w') \<Longrightarrow>
    race_step p D cf (advance cf w' (cf_readers cf))"
| invalidate: "Cache_Delete (d_vk (pr_deps p)) c t n u (cf_world cf) = (er, w') \<Longrightarrow>
    race_step p D cf (advance cf w' (cf_readers cf))"
| process: "sys_step p (cf_world cf) w' \<Longrightarrow> race_step p D cf (advance cf w' (cf_readers cf))"

text \<open>A configuration from which runs start: an empty cache, nobody in flight.\<close>

definition race_start :: "'r process \<Rightarrow> 'r conf \<Rightarrow> bool" where
  "race_start p cf \<longleftrightarrow>
     rd_stored (vk_client (d_vk (pr_deps p))) (rds (cf_world cf)) = Map.empty \<and> cf_readers cf = [] \<and> cf_past cf = []"

section \<open>The invariant\<close>

abbreviation worlds :: "'r conf \<Rightarrow> 'r world set" where
  "worlds cf \<equiv> insert (cf_world cf) (set (cf_past cf))"

text \<open>What was true in a world that the run has visited.\<close>

definition was_true :: "'r conf \<Rightarrow> uuid \<Rightarrow> uuid \<Rightarrow> uuid \<Rightarrow> CachedAccess \<Rightarrow> 'r world \<Rightarrow> bool" where
  "was_true cf t n u v w0 \<longleftrightarrow> w0 \<in> worlds cf \<and> access_answer (now_db w0) t n u (entries_of w0) v"

definition race_inv :: "'r process \<Rightarrow> duration \<Rightarrow> 'r conf \<Rightarrow> bool" where
  "race_inv p D cf \<longleftrightarrow>
     (\<forall>r \<in> set (cf_readers cf). was_true cf (rd_tenant r) (rd_tender r) (rd_user r) (rd_answer r) (rd_world r)) \<and>
     (\<forall>t n u v until. cached (d_vk (pr_deps p)) (cf_world cf) (t, n, u) = Some (v, until) \<longrightarrow>
        (\<exists>w0. was_true cf t n u v w0 \<and> until \<le> now_cache w0 + D + 30 * Second))"

lemma was_true_advance: "was_true cf t n u v w0 \<Longrightarrow> was_true (advance cf w rs) t n u v w0"
  by (auto simp: was_true_def advance_def)

lemma race_inv_advance:
  assumes inv: "race_inv p D cf"
    and readers: "\<forall>r \<in> set rs. r \<in> set (cf_readers cf) \<or>
      was_true (advance cf w rs) (rd_tenant r) (rd_tender r) (rd_user r) (rd_answer r) (rd_world r)"
    and held: "\<forall>t n u v until. cached (d_vk (pr_deps p)) w (t, n, u) = Some (v, until) \<longrightarrow>
      cached (d_vk (pr_deps p)) (cf_world cf) (t, n, u) = Some (v, until) \<or>
      (\<exists>w0. was_true cf t n u v w0 \<and> until \<le> now_cache w0 + D + 30 * Second)"
  shows "race_inv p D (advance cf w rs)"
  unfolding race_inv_def
proof (intro conjI ballI allI impI)
  fix r
  assume "r \<in> set (cf_readers (advance cf w rs))"
  with readers inv show "was_true (advance cf w rs) (rd_tenant r) (rd_tender r) (rd_user r) (rd_answer r) (rd_world r)"
    by (auto simp: advance_def race_inv_def was_true_def)
next
  fix t n u v until
  assume "cached (d_vk (pr_deps p)) (cf_world (advance cf w rs)) (t, n, u) = Some (v, until)"
  then have "cached (d_vk (pr_deps p)) w (t, n, u) = Some (v, until)" by (simp add: advance_def)
  with held [rule_format, OF this] inv obtain w0 where "was_true cf t n u v w0" "until \<le> now_cache w0 + D + 30 * Second"
    unfolding race_inv_def by blast
  then show "\<exists>w0. was_true (advance cf w rs) t n u v w0 \<and> until \<le> now_cache w0 + D + 30 * Second"
    using was_true_advance by blast
qed

lemma race_inv_quiet:
  assumes "race_inv p D cf" "lineage (d_vk (pr_deps p)) (cf_world cf) (cached (d_vk (pr_deps p)) w)" "0 \<le> D"
    and "set rs \<subseteq> set (cf_readers cf)"
  shows "race_inv p D (advance cf w rs)"
proof (rule race_inv_advance [OF assms(1)])
  show "\<forall>t n u v until. cached (d_vk (pr_deps p)) w (t, n, u) = Some (v, until) \<longrightarrow>
      cached (d_vk (pr_deps p)) (cf_world cf) (t, n, u) = Some (v, until) \<or>
      (\<exists>w0. was_true cf t n u v w0 \<and> until \<le> now_cache w0 + D + 30 * Second)"
  proof (intro allI impI)
    fix t n u v until
    assume "cached (d_vk (pr_deps p)) w (t, n, u) = Some (v, until)"
    from lineageD [OF assms(2) this] assms(3)
    show "cached (d_vk (pr_deps p)) (cf_world cf) (t, n, u) = Some (v, until) \<or>
      (\<exists>w0. was_true cf t n u v w0 \<and> until \<le> now_cache w0 + D + 30 * Second)"
      by (auto simp: was_true_def)
  qed
qed (use assms(4) in auto)

lemma only_entries_lineage: "only_entries w w' \<Longrightarrow> lineage vk w (cached vk w')"
  by (intro lineage_rds) (auto simp: only_entries_def)

lemma check_read_true:
  assumes ok: "deps_ok d" and notx: "ctx_tx c = None"
    and run: "check_read (service d tr) c t n u w = (Inr v, w')"
  shows "access_answer (now_db w) t n u (entries_of w) v \<and> rds w' = rds w"
proof -
  have pg: "pg_ok (d_pg d)" using ok by (simp add: deps_ok_def)
  have B: "bound (d_pg d) c t" using notx by simp
  obtain x w1 where find: "repo_FindActive (NewTenderACLRepository (d_pg d)) c t n u w = (x, w1)" by fastforce
  with run obtain en where en: "x = Inr en" "v = answer_of en"
      "w' = am_RecordCheckCall service_metrics c (statusFor (ca_HasAccess v)) w1"
    by (cases x) (auto simp: check_read_def)
  from pg_repo.find_done [OF pg B find [unfolded en(1)]] en(2,3) show ?thesis
    by (cases en) (auto simp: access_answer_def answer_of_def service_metrics_def record_defs frame_simps)
qed

lemma check_fill_view:
  assumes ok: "deps_ok d"
  shows "cached (d_vk d) (check_fill (service d tr) c t n u v w) = cached (d_vk d) w \<or>
    cached (d_vk d) (check_fill (service d tr) c t n u v w) =
      (cached (d_vk d) w)((t, n, u) \<mapsto> (v, now_cache w + 30 * Second))"
proof -
  have vk: "valkey_ok (d_vk d)" using ok by (simp add: deps_ok_def)
  obtain er w1 where set: "Cache_Set (d_vk d) c t n u v w = (er, w1)" by fastforce
  have "rds (check_fill (service d tr) c t n u v w) = rds w1"
    using set by (cases er) (simp_all add: check_fill_def NewCache_def log_defs frame_simps)
  with Cache_Set_cases [OF vk set] cached_same [of "d_vk d" "check_fill (service d tr) c t n u v w" w1]
  show ?thesis by (auto simp: ttl_def)
qed

lemma race_fill_inv:
  assumes ok: "deps_ok (pr_deps p)" and inv: "race_inv p D cf" and r: "r \<in> set (cf_readers cf)"
    and late: "now_cache (cf_world cf) - now_cache (rd_world r) \<le> D"
  shows "race_inv p D (advance cf
    (check_fill (service (pr_deps p) (pr_tracer p)) c (rd_tenant r) (rd_tender r) (rd_user r) (rd_answer r) (cf_world cf))
    (remove1 r (cf_readers cf)))"
    (is "race_inv p D (advance cf ?w _)")
proof -
  have true: "was_true cf (rd_tenant r) (rd_tender r) (rd_user r) (rd_answer r) (rd_world r)"
    using inv r by (simp add: race_inv_def)
  have until: "now_cache (cf_world cf) + 30 * Second \<le> now_cache (rd_world r) + D + 30 * Second" using late by simp
  have "\<forall>t n u v until. cached (d_vk (pr_deps p)) ?w (t, n, u) = Some (v, until) \<longrightarrow>
      cached (d_vk (pr_deps p)) (cf_world cf) (t, n, u) = Some (v, until) \<or>
      (\<exists>w0. was_true cf t n u v w0 \<and> until \<le> now_cache w0 + D + 30 * Second)"
    using check_fill_view [OF ok, of "pr_tracer p" c "rd_tenant r" "rd_tender r" "rd_user r" "rd_answer r" "cf_world cf"]
  proof
    assume "cached (d_vk (pr_deps p)) ?w = cached (d_vk (pr_deps p)) (cf_world cf)"
    then show ?thesis by simp
  next
    assume "cached (d_vk (pr_deps p)) ?w = (cached (d_vk (pr_deps p)) (cf_world cf))
      ((rd_tenant r, rd_tender r, rd_user r) \<mapsto> (rd_answer r, now_cache (cf_world cf) + 30 * Second))"
    with true until show ?thesis by (auto split: if_splits)
  qed
  then show ?thesis by (intro race_inv_advance [OF inv]) (auto dest: set_remove1_subset [THEN subsetD])
qed

lemma repo_writes_only_entries:
  assumes pg: "pg_ok pg" and notx: "ctx_tx c = None"
  shows "Repo_Grant pg c x w = (res, w') \<Longrightarrow> only_entries w w'"
    and "Repo_Revoke pg c t n u v w = (er, w') \<Longrightarrow> only_entries w w'"
proof -
  have b: "bound pg c t" for t using notx by simp
  show "only_entries w w'" if "Repo_Grant pg c x w = (res, w')"
    using that pg_repo.grant_failed [OF pg b, of x w] pg_repo.grant_done [OF pg b, of x w]
    by (cases res) (auto simp: NewTenderACLRepository_def)
  show "only_entries w w'" if "Repo_Revoke pg c t n u v w = (er, w')"
    using that pg_repo.revoke_failed [OF pg b, of t n u v w] pg_repo.revoke_done [OF pg b, of t n u v w]
    by (cases er) (auto simp: NewTenderACLRepository_def)
qed

lemma race_step_inv:
  assumes ok: "deps_ok (pr_deps p)" and D: "0 \<le> D" and step: "race_step p D cf cf'" and inv: "race_inv p D cf"
  shows "race_inv p D cf'"
proof -
  have pg: "pg_ok (d_pg (pr_deps p))" and vk: "valkey_ok (d_vk (pr_deps p))" using ok by (simp_all add: deps_ok_def)
  note quiet = race_inv_quiet [OF inv _ D]
  from step show ?thesis
  proof cases
    case (read c t n u v w')
    note truth = check_read_true [OF ok read(2,3)]
    have "cached (d_vk (pr_deps p)) w' = cached (d_vk (pr_deps p)) (cf_world cf)"
      using truth by (intro cached_same) simp
    with inv truth show ?thesis
      unfolding read(1) by (intro race_inv_advance) (auto simp: was_true_def advance_def)
  next
    case (fill r c)
    then show ?thesis using race_fill_inv [OF ok inv fill(2,3)] by simp
  next
    case (abandon r)
    show ?thesis unfolding abandon by (rule quiet) (auto dest: set_remove1_subset [THEN subsetD])
  next
    case (write_grant c x res w')
    from repo_writes_only_entries(1) [OF pg write_grant(2,3)] show ?thesis
      unfolding write_grant(1) by (intro quiet only_entries_lineage) auto
  next
    case (write_revoke c t n u v er w')
    from repo_writes_only_entries(2) [OF pg write_revoke(2,3)] show ?thesis
      unfolding write_revoke(1) by (intro quiet only_entries_lineage) auto
  next
    case (invalidate c t n u er w')
    from Cache_Delete_cases [OF vk invalidate(2)] have "lineage (d_vk (pr_deps p)) (cf_world cf) (cached (d_vk (pr_deps p)) w')"
      by (elim conjE disjE) simp_all
    then show ?thesis unfolding invalidate(1) by (intro quiet) auto
  next
    case (process w')
    from sys_step_lineage [OF ok process(2)] show ?thesis unfolding process(1) by (intro quiet) auto
  qed
qed

lemma race_run_inv:
  assumes "deps_ok (pr_deps p)" "0 \<le> D" "race_start p cf0" "(race_step p D)\<^sup>*\<^sup>* cf0 cf"
  shows "race_inv p D cf"
  using assms(4)
proof (induction rule: rtranclp_induct)
  case base
  from assms(3) show ?case by (simp add: race_start_def race_inv_def cached_def)
next
  case (step cf cf')
  then show ?case using race_step_inv [OF assms(1,2)] by blast
qed

text \<open>C27. Staleness under concurrency: when access checks overlap with each other and with grants,
  revokes, invalidations and everything else the process does, and each check fills the cache at most \<open>D\<close>
  after it read the store, then whatever a check answers was true less than thirty seconds plus \<open>D\<close> ago on
  the cache server's clock.  With the thirty-second deadline of a request that is one minute.\<close>

theorem concurrent_staleness_bounded:
  assumes "deps_ok (pr_deps p)" "0 \<le> D" "race_start p cf0" "(race_step p D)\<^sup>*\<^sup>* cf0 cf" "ctx_tx c = None"
    and "Svc_CheckAccess (service (pr_deps p) (pr_tracer p)) c t n u (cf_world cf) = (Inr v, w')"
  shows "\<exists>w0 \<in> insert (cf_world cf) (set (cf_past cf)). access_answer (now_db w0) t n u (entries_of w0) v \<and>
    now_cache (cf_world cf) - now_cache w0 < D + 30 * Second"
proof -
  have sec: "0 < 30 * Second" by (simp add: Second_def Millisecond_def Nanosecond_def)
  have "bound (d_pg (pr_deps p)) c t" using assms(5) by simp
  from service_any(4) [OF assms(1) this assms(6)]
  consider "access_answer (now_db (cf_world cf)) t n u (entries_of (cf_world cf)) v"
    | until where "cached (d_vk (pr_deps p)) (cf_world cf) (t, n, u) = Some (v, until)" "now_cache (cf_world cf) < until"
    by blast
  then show ?thesis
  proof cases
    case 1
    then show ?thesis using assms(2) sec by auto
  next
    case 2
    from race_run_inv [OF assms(1-4)] 2(1) obtain w0 where "was_true cf t n u v w0" "until \<le> now_cache w0 + D + 30 * Second"
      unfolding race_inv_def by blast
    with 2(2) show ?thesis by (intro bexI [of _ w0]) (auto simp: was_true_def)
  qed
qed

section \<open>The race that remains\<close>

text \<open>
  An access was granted.  A check reads the store; a revoke commits and its invalidation succeeds; the
  check fills the cache; a second check is answered from the cache.
\<close>

definition race0 :: "demo_redis conf" where
  "race0 = \<lparr>cf_world = demo_world, cf_readers = [], cf_past = []\<rparr>"

definition race1 :: "demo_redis conf" where
  "race1 = advance race0 (snd demo_post) []"

definition race_reader :: "demo_redis reader" where
  "race_reader = \<lparr>rd_tenant = 1, rd_tender = 2, rd_user = 3,
     rd_answer = \<lparr>ca_HasAccess = True, ca_AccessLevel = Some ''edit'', ca_ExpiresAt = None\<rparr>, rd_world = snd demo_post\<rparr>"

definition race_read :: "(go_error + CachedAccess) \<times> demo_redis world" where
  "race_read = check_read (service demo_deps demo_tracer) Background 1 2 3 (snd demo_post)"

definition race2 :: "demo_redis conf" where
  "race2 = advance race1 (snd race_read) [race_reader]"

definition race_revoke :: "response \<times> demo_redis world" where
  "race_revoke = process_serve demo_process (eng_routes (NewRouter [] demo_docs) ! 2)
     (demo_request ''1'' ''tender_admin'' ''1'') (snd race_read)"

definition race3 :: "demo_redis conf" where
  "race3 = advance race2 (snd race_revoke) [race_reader]"

definition race_filled :: "demo_redis world" where
  "race_filled = check_fill (service demo_deps demo_tracer) Background 1 2 3 (rd_answer race_reader) (snd race_revoke)"

definition race4 :: "demo_redis conf" where
  "race4 = advance race3 race_filled []"

definition race_check :: "(go_error + CachedAccess) \<times> demo_redis world" where
  "race_check = Svc_CheckAccess (service demo_deps demo_tracer) Background 1 2 3 race_filled"

lemma race_read_facts: "fst race_read = Inr may_edit"
  by code_simp

lemma race_revoke_run:
  "case race_revoke of (resp, w) \<Rightarrow> rs_status resp = 204 \<and> now_cache w = 1000 \<and> cached demo_vk w (1, 2, 3) = None"
  by code_simp

lemma race_revoke_facts:
  "rs_status (fst race_revoke) = 204" "now_cache (snd race_revoke) = 1000" "cached demo_vk (snd race_revoke) (1, 2, 3) = None"
  using race_revoke_run by (simp_all add: case_prod_beta)

lemma race_check_hit: "fst race_check = Inr may_edit"
proof -
  have ok: "fst (Cache_Set demo_vk Background 1 2 3 may_edit (snd race_revoke)) = None" by (rule demo_cache(1))
  have set: "Cache_Set demo_vk Background 1 2 3 may_edit (snd race_revoke) = (None, race_filled)"
  proof (cases "Cache_Set demo_vk Background 1 2 3 may_edit (snd race_revoke)")
    case (Pair err w)
    with ok show ?thesis by (simp add: race_filled_def check_fill_def race_reader_def NewCache_def demo_deps_def)
  qed
  from Cache_Set_cases [OF demo_vk_ok set] obtain r where "race_filled = (snd race_revoke)\<lparr>rds := r\<rparr>"
    and "cached demo_vk race_filled (1, 2, 3) = Some (may_edit, now_cache (snd race_revoke) + ttl)"
    by (auto simp: only_rds_def)
  moreover from this(1) have "now_cache race_filled = now_cache (snd race_revoke)" by (rule ssubst) simp
  ultimately show ?thesis
    unfolding race_check_def by (intro demo_hit) (auto simp: ttl_def Second_def Millisecond_def Nanosecond_def)
qed

lemma race_run: "(race_step demo_process 0)\<^sup>*\<^sup>* race0 race4"
proof -
  have rt: "eng_routes (NewRouter [] demo_docs) ! 2 \<in> set (eng_routes (pr_engine demo_process))"
    by (simp add: demo_process_def NewRouter_def Let_def)
  have "sys_step demo_process demo_world (snd demo_post)" using demo_run(2) by (cases rule: sys_run_ConsE) auto
  then have s1: "race_step demo_process 0 race0 race1"
    using race_step.process [of demo_process race0 "snd demo_post" 0] by (simp add: race1_def race0_def)
  have at1: "cf_world race1 = snd demo_post" "cf_readers race1 = []" by (simp_all add: race1_def advance_def)
  have notx: "ctx_tx Background = None" by (simp add: Background_def)
  have "check_read (service (pr_deps demo_process) (pr_tracer demo_process)) Background 1 2 3 (cf_world race1) =
      (Inr may_edit, snd race_read)"
    using prod.collapse [of race_read, symmetric] unfolding race_read_facts by (simp add: race_read_def at1)
  from race_step.read [OF notx this, of 0] have s2: "race_step demo_process 0 race1 race2"
    by (simp add: race2_def race_reader_def at1)
  have "sys_step demo_process (snd race_read) (snd race_revoke)"
    by (rule sys_step.request [OF rt demo_routes(3), where resp = "fst race_revoke"]) (simp_all add: race_revoke_def)
  then have s3: "race_step demo_process 0 race2 race3"
    using race_step.process [of demo_process race2 "snd race_revoke" 0] by (simp add: race3_def race2_def advance_def)
  have at3: "cf_world race3 = snd race_revoke" "cf_readers race3 = [race_reader]" by (simp_all add: race3_def advance_def)
  have "race_reader \<in> set (cf_readers race3)" "now_cache (cf_world race3) - now_cache (rd_world race_reader) \<le> 0"
    by (simp_all add: at3 race_revoke_facts, simp add: race_reader_def demo_post_created)
  from race_step.fill [OF this, of demo_process Background] have s4: "race_step demo_process 0 race3 race4"
    by (simp add: race4_def race_filled_def at3) (simp add: race_reader_def)
  from s1 s2 s3 s4 show ?thesis by (meson rtranclp.rtrancl_into_rtrancl rtranclp.rtrancl_refl)
qed

theorem concurrent_staleness_bounded_witness:
  "fst race_check = Inr may_edit \<and>
   (\<exists>w0 \<in> insert (cf_world race4) (set (cf_past race4)).
      access_answer (now_db w0) 1 2 3 (entries_of w0) may_edit \<and>
      now_cache (cf_world race4) - now_cache w0 < 0 + 30 * Second)"
proof -
  have run: "Svc_CheckAccess (service (pr_deps demo_process) (pr_tracer demo_process)) Background 1 2 3 (cf_world race4) =
      (Inr may_edit, snd race_check)"
    using prod.collapse [of race_check, symmetric] unfolding race_check_hit by (simp add: race_check_def race4_def advance_def)
  have start: "race_start demo_process race0"
    by (simp add: race_start_def race0_def demo_vk_def demo_client_def demo_world_def)
  have "deps_ok (pr_deps demo_process)" "ctx_tx Background = None" by (simp_all add: demo_deps_ok Background_def)
  from concurrent_staleness_bounded [OF this(1) _ start race_run this(2) run] race_check_hit show ?thesis by simp
qed

text \<open>
  The invalidation of a successful revoke does not keep a check that read the store before it from
  caching, and serving, the revoked access afterwards.
\<close>

theorem revoke_race:
  "(race_step demo_process 0)\<^sup>*\<^sup>* race0 race4 \<and> rs_status (fst race_revoke) = 204 \<and>
   cached demo_vk (snd race_revoke) (1, 2, 3) = None \<and>
   fst race_check = Inr may_edit"
  using race_run race_revoke_facts race_check_hit by blast

end
