(* ===== verification/AsyncApi.thy ===== *)
theory AsyncApi
  imports Router Json "HOL-Library.List_Lexorder" "HOL-Library.Char_ord"
begin

text \<open>
  The event catalog of \<open>internal/adapter/inbound/http/asyncapi.go\<close>: the parsed specification, the
  resolution of schemas, and the page that is rendered from them.  Two things in it are more than
  text.  \<open>resolveSchema\<close> follows references and need not end; it is a partial function here, and a
  rendering that does not return is \<open>None\<close>.  And a table sorts the property order of its schema in
  place, in an array that the cached specification shares; the components are therefore threaded
  through the rendering.  Package yaml, the Unicode case tables and the text of JSON are parameters;
  the style sheet and the script of the page are arguments.
\<close>

section \<open>The specification\<close>

datatype yaml_kind = ZeroKind | DocumentNode | SequenceNode | MappingNode | ScalarNode | AliasNode

datatype yaml_Node = YNode (yn_Kind: yaml_kind) (yn_Value: string) (yn_Content: "yaml_Node list")

record asyncInfo =
  ai_Title :: string
  ai_Version :: string
  ai_Desc :: string

record asyncRef =
  ar_Ref :: string

record asyncMessage =
  am_Name :: string
  am_Title :: string
  am_Summary :: string
  am_ContentType :: string
  am_Tags :: "asyncRef list"
  am_Payload :: asyncRef
  am_Bindings :: yaml_Node

datatype asyncProp = AsyncProp (ap_Type: string) (ap_Format: string) (ap_Desc: string)
  (ap_Example: "json option") (ap_Enum: "string list") (ap_Ref: string) (ap_Items: "asyncProp option")

text \<open>A Go map is an association list of which the first entry of a key counts.\<close>

datatype asyncSchema = AsyncSchema (as_Type: string) (as_Required: "string list")
  (as_Properties: "(string \<times> asyncProp) list") (as_PropertyOrder: "string list")
  (as_AllOf: "asyncSchema list") (as_Ref: string)

record asyncComponents =
  ac_Messages :: "(string \<times> asyncMessage) list"
  ac_Schemas :: "(string \<times> asyncSchema) list"

record asyncSpec =
  sp_AsyncAPI :: string
  sp_Info :: asyncInfo
  sp_Servers :: yaml_Node
  sp_Channels :: yaml_Node
  sp_Ops :: yaml_Node
  sp_Comps :: asyncComponents

definition isConsumed :: "asyncMessage \<Rightarrow> bool" where
  "isConsumed msg = list_ex (\<lambda>t. HasSuffix (ar_Ref t) ''/consumed'') (am_Tags msg)"

text \<open>The loops over the content of a mapping node take it two by two.\<close>

fun content_pairs :: "'a list \<Rightarrow> ('a \<times> 'a) list" where
  "content_pairs (x # y # r) = (x, y) # content_pairs r"
| "content_pairs _ = []"

fun with_order :: "string list \<Rightarrow> asyncSchema \<Rightarrow> asyncSchema" where
  "with_order ks (AsyncSchema t req ps ord subs ref) = AsyncSchema t req ps ks subs ref"

text \<open>Decoding a schema records the order in which the document declares its properties.\<close>

definition UnmarshalYAML :: "(yaml_Node \<Rightarrow> go_error + asyncSchema) \<Rightarrow> yaml_Node \<Rightarrow> go_error + asyncSchema" where
  "UnmarshalYAML decode value =
     (case decode value of
        Inl err \<Rightarrow> Inl err
      | Inr s \<Rightarrow>
          (case find (\<lambda>(k, _). yn_Value k = ''properties'') (content_pairs (yn_Content value)) of
             None \<Rightarrow> Inr s
           | Some (_, propsNode) \<Rightarrow>
               if yn_Kind propsNode = MappingNode
               then Inr (with_order (map (\<lambda>(k, _). yn_Value k) (content_pairs (yn_Content propsNode))) s)
               else Inr s))"

section \<open>Helpers\<close>

definition sortedKeys :: "(string \<times> 'v) list \<Rightarrow> string list" where
  "sortedKeys m = sort (remdups (map fst m))"

definition splitMessagesByDirection :: "(string \<times> asyncMessage) list \<Rightarrow> string list \<times> string list" where
  "splitMessagesByDirection messages =
     (let consumed = (\<lambda>name. isConsumed (the (map_of messages name)))
      in (filter (\<lambda>n. \<not> consumed n) (sortedKeys messages), filter consumed (sortedKeys messages)))"

definition schemaPrefix :: string where
  "schemaPrefix = ''#/components/schemas/''"

fun walkYAML :: "yaml_Node \<Rightarrow> string list \<Rightarrow> string" where
  "walkYAML node [] = []"
| "walkYAML node (target # rest) =
     (let n = if yn_Kind node = DocumentNode \<and> yn_Content node \<noteq> [] then hd (yn_Content node) else node
      in if yn_Kind n = MappingNode
         then (case find (\<lambda>(k, _). yn_Value k = target) (content_pairs (yn_Content n)) of
                 None \<Rightarrow> []
               | Some (_, v) \<Rightarrow> if rest = [] then yn_Value v else walkYAML v rest)
         else [])"

definition snsEventType :: "yaml_Node \<Rightarrow> string" where
  "snsEventType node =
     (if yn_Kind node = ZeroKind then []
      else let v = walkYAML node [''sns'', ''messageAttributes'', ''EventType'', ''value'']
           in if v \<noteq> [] then v else walkYAML node [''sns'', ''messageAttributes'', ''event_type'', ''value''])"

text \<open>\<open>html.EscapeString\<close>, and \<open>strings.TrimSpace\<close> on the UTF-8 forms of the Unicode spaces.\<close>

definition escape_char :: "char \<Rightarrow> string" where
  "escape_char c =
     (if c = CHR ''&'' then ''&amp;'' else if c = CHR 0x27 then ''&#39;'' else if c = CHR ''<'' then ''&lt;''
      else if c = CHR ''>'' then ''&gt;'' else if c = CHR 0x22 then ''&#34;'' else [c])"

definition EscapeString :: "string \<Rightarrow> string" where
  "EscapeString s = concat (map escape_char s)"

definition space_runes :: "string list" where
  "space_runes =
     [[CHR 0x09], [CHR 0x0A], [CHR 0x0B], [CHR 0x0C], [CHR 0x0D], [CHR 0x20], [CHR 0xC2, CHR 0x85], [CHR 0xC2, CHR 0xA0],
      [CHR 0xE1, CHR 0x9A, CHR 0x80], [CHR 0xE2, CHR 0x80, CHR 0x80], [CHR 0xE2, CHR 0x80, CHR 0x81],
      [CHR 0xE2, CHR 0x80, CHR 0x82], [CHR 0xE2, CHR 0x80, CHR 0x83], [CHR 0xE2, CHR 0x80, CHR 0x84],
      [CHR 0xE2, CHR 0x80, CHR 0x85], [CHR 0xE2, CHR 0x80, CHR 0x86], [CHR 0xE2, CHR 0x80, CHR 0x87],
      [CHR 0xE2, CHR 0x80, CHR 0x88], [CHR 0xE2, CHR 0x80, CHR 0x89], [CHR 0xE2, CHR 0x80, CHR 0x8A],
      [CHR 0xE2, CHR 0x80, CHR 0xA8], [CHR 0xE2, CHR 0x80, CHR 0xA9], [CHR 0xE2, CHR 0x80, CHR 0xAF],
      [CHR 0xE2, CHR 0x81, CHR 0x9F], [CHR 0xE3, CHR 0x80, CHR 0x80]]"

function trim_left :: "string list \<Rightarrow> string \<Rightarrow> string" where
  "trim_left runes s =
     (case find (\<lambda>r. r \<noteq> [] \<and> HasPrefix s r) runes of None \<Rightarrow> s | Some r \<Rightarrow> trim_left runes (drop (length r) s))"
  by pat_completeness auto
termination
proof (relation "measure (\<lambda>(_, s). length s)")
  fix runes s r
  assume "find (\<lambda>r. r \<noteq> [] \<and> HasPrefix s r) runes = Some r"
  then have "r \<noteq> []" "HasPrefix s r" by (auto simp: find_Some_iff)
  then show "((runes, drop (length r) s), (runes, s)) \<in> measure (\<lambda>(_, s). length s)"
    by (auto simp: HasPrefix_iff)
qed simp

declare trim_left.simps [simp del]

definition TrimSpace :: "string \<Rightarrow> string" where
  "TrimSpace s = rev (trim_left (map rev space_runes) (rev (trim_left space_runes s)))"

text \<open>\<open>desc[:200]\<close> cuts bytes.\<close>

definition ellipsis :: string where
  "ellipsis = [CHR 0xE2, CHR 0x80, CHR 0xA6]"

definition shorten :: "string \<Rightarrow> string" where
  "shorten desc = (if length desc > 200 then take 200 desc @ ellipsis else desc)"

section \<open>Resolving a schema\<close>

fun mapM_option :: "('a \<Rightarrow> 'b option) \<Rightarrow> 'a list \<Rightarrow> 'b list option" where
  "mapM_option f [] = Some []"
| "mapM_option f (x # xs) = Option.bind (f x) (\<lambda>y. Option.bind (mapM_option f xs) (\<lambda>ys. Some (y # ys)))"

lemma mapM_option_mono [partial_function_mono]:
  assumes "\<And>x. mono_option (\<lambda>F. B F x)"
  shows "mono_option (\<lambda>F. mapM_option (B F) xs)"
  by (induction xs) (auto intro!: partial_function_mono assms option.const_mono bind_mono)

text \<open>
  The merge of the sub-schemas: required names are collected, the order keeps the first occurrence
  of a name, the map the last definition.
\<close>

fun merge_order :: "string list \<Rightarrow> string list \<Rightarrow> string list" where
  "merge_order seen [] = seen"
| "merge_order seen (k # ks) = merge_order (if k \<in> set seen then seen else seen @ [k]) ks"

fun merge_into :: "asyncSchema \<Rightarrow> asyncSchema \<Rightarrow> asyncSchema" where
  "merge_into (AsyncSchema t req ps ord subs ref) resolved =
     AsyncSchema t (req @ as_Required resolved) (as_Properties resolved @ ps)
       (merge_order ord (as_PropertyOrder resolved)) subs ref"

definition empty_schema :: asyncSchema where
  "empty_schema = AsyncSchema [] [] [] [] [] []"

text \<open>
  The result comes with the name of the component whose property order it shares: a component
  reached through references is returned with its own array, a merged schema has a new one.
\<close>

partial_function (option) resolveSchema ::
  "asyncComponents \<Rightarrow> string option \<Rightarrow> asyncSchema \<Rightarrow> (string option \<times> asyncSchema) option" where
  "resolveSchema comps owner sc =
     (if as_AllOf sc = [] then
        (if as_Ref sc \<noteq> [] then
           (case map_of (ac_Schemas comps) (TrimPrefix (as_Ref sc) schemaPrefix) of
              Some sub \<Rightarrow> resolveSchema comps (Some (TrimPrefix (as_Ref sc) schemaPrefix)) sub
            | None \<Rightarrow> Some (owner, sc))
         else Some (owner, sc))
      else Option.bind (mapM_option (\<lambda>sub. resolveSchema comps None sub) (as_AllOf sc))
             (\<lambda>rs. Some (None, fold (\<lambda>(_, r) merged. merge_into merged r) rs empty_schema)))"

section \<open>Rendering\<close>

record async_lib =
  al_Unmarshal :: "string \<Rightarrow> go_error + asyncSpec"
  al_ToUpper :: "string \<Rightarrow> string"
  al_ToLower :: "string \<Rightarrow> string"
  al_MarshalIndent :: "json \<Rightarrow> go_error + string"

text \<open>The style sheet and the script of the page, and the search box of its side bar.\<close>

record page_texts =
  pt_head :: string
  pt_search :: string
  pt_tail :: string

definition nl :: string where
  "nl = [CHR 0x0A]"

definition apostrophe :: string where
  "apostrophe = [CHR 0x27]"

definition propType :: "asyncProp \<Rightarrow> string" where
  "propType p =
     (if ap_Ref p \<noteq> [] then TrimPrefix (ap_Ref p) schemaPrefix
      else let t = (if ap_Format p \<noteq> [] then ap_Type p @ ''('' @ ap_Format p @ '')'' else ap_Type p)
           in case ap_Items p of
                None \<Rightarrow> t
              | Some items \<Rightarrow>
                  if ap_Type p = ''array'' then
                    if ap_Type items \<noteq> [] then ''array<'' @ ap_Type items @ ''>''
                    else if ap_Ref items \<noteq> [] then ''array<'' @ TrimPrefix (ap_Ref items) schemaPrefix @ ''>''
                    else t
                  else t)"

definition typeHTML :: "asyncProp \<Rightarrow> string" where
  \<open>typeHTML p =
     (if ap_Ref p \<noteq> [] then
        let name = TrimPrefix (ap_Ref p) schemaPrefix
        in ''<a href="#schema-'' @ EscapeString name @ ''" class="prop-type schema-link">'' @ EscapeString name @ ''</a>''
      else case ap_Items p of
        Some items \<Rightarrow>
          if ap_Type p = ''array'' \<and> ap_Ref items \<noteq> [] then
            let name = TrimPrefix (ap_Ref items) schemaPrefix
            in ''<span class="prop-type">array&lt;<a href="#schema-'' @ EscapeString name @
                 ''" class="prop-type schema-link">'' @ EscapeString name @ ''</a>&gt;</span>''
          else ''<span class="prop-type">'' @ EscapeString (propType p) @ ''</span>''
      | None \<Rightarrow> ''<span class="prop-type">'' @ EscapeString (propType p) @ ''</span>'')\<close>

definition enum_html :: "string \<Rightarrow> string list \<Rightarrow> string" where
  \<open>enum_html opening vs =
     (if vs = [] then []
      else opening @ concat (map (\<lambda>ev. ''<span class="enum-val">'' @ EscapeString ev @ ''</span>'') vs) @ ''</div>'')\<close>

definition example_html :: "async_lib \<Rightarrow> json option \<Rightarrow> string" where
  \<open>example_html lib ex =
     (case ex of
        None \<Rightarrow> []
      | Some e \<Rightarrow>
          (case al_MarshalIndent lib e of
             Inl _ \<Rightarrow> []
           | Inr b \<Rightarrow> ''<pre style="background:#0d0d0d;border:1px solid rgba(132,38,176,.25);padding:6px 8px;border-radius:6px;font-size:.72rem;margin-top:6px;color:#e879f9;overflow-x:auto;white-space:pre-wrap">'' @
               EscapeString b @ ''</pre>''))\<close>

definition row_id :: "string \<Rightarrow> string \<Rightarrow> string" where
  \<open>row_id schemaID k =
     (if schemaID \<noteq> [] then '' id="field--'' @ EscapeString schemaID @ ''--'' @ EscapeString k @ ''"'' else [])\<close>

definition prop_row :: "async_lib \<Rightarrow> string \<Rightarrow> bool \<Rightarrow> string \<Rightarrow> asyncProp \<Rightarrow> string" where
  \<open>prop_row lib schemaID required k v =
     (let typeStr = typeHTML v;
          req = (if required then ''<span class="prop-req">required</span>'' else []);
          descHTML = EscapeString (shorten (TrimSpace (ap_Desc v)));
          enumHTML = enum_html ''<div class="enum-list">'' (ap_Enum v);
          itemEnumHTML = enum_html ''<div style="margin-top:4px;font-size:.72rem;color:var(--muted)">values:</div><div class="enum-list">''
            (case ap_Items v of None \<Rightarrow> [] | Some items \<Rightarrow> ap_Enum items);
          exampleHTML = example_html lib (ap_Example v);
          rowID = row_id schemaID k
      in ''<tr'' @
       rowID @
       ''>'' @ nl @ ''<td onclick="copyText('' @ apostrophe @
       EscapeString k @
       apostrophe @ '')" title="Click to copy" style="cursor:pointer"><span class="prop-name">'' @
       EscapeString k @
       ''</span></td>'' @ nl @ ''<td>'' @
       typeStr @
       ''</td>'' @ nl @ ''<td>'' @
       req @
       ''</td>'' @ nl @ ''<td><span class="prop-desc">'' @
       descHTML @
       ''</span>'' @
       enumHTML @
       itemEnumHTML @
       exampleHTML @
       ''</td>'' @ nl @ ''</tr>'')\<close>

text \<open>The order of the rows: the declared order, then what it misses, required properties first.\<close>

definition base_keys :: "asyncSchema \<Rightarrow> string list" where
  "base_keys sc =
     (let keys = (if as_PropertyOrder sc = [] then sortedKeys (as_Properties sc) else as_PropertyOrder sc)
      in keys @ filter (\<lambda>k. k \<notin> set keys) (sortedKeys (as_Properties sc)))"

definition table_keys :: "asyncSchema \<Rightarrow> string list" where
  "table_keys sc = sort_key (\<lambda>k. if k \<in> set (as_Required sc) then 0 else 1 :: nat) (base_keys sc)"

definition zero_prop :: asyncProp where
  "zero_prop = AsyncProp [] [] [] None [] [] None"

definition prop_at :: "asyncSchema \<Rightarrow> string \<Rightarrow> asyncProp" where
  "prop_at sc k = (case map_of (as_Properties sc) k of Some v \<Rightarrow> v | None \<Rightarrow> zero_prop)"

definition no_properties :: string where
  \<open>no_properties = ''<p style="color:var(--muted);font-size:.8rem">No properties.</p>''\<close>

definition table_open :: string where
  \<open>table_open = ''<table class="prop-table"><thead><tr>'' @ nl @ ''<th>Field</th><th>Type</th><th>Required</th><th>Description</th>'' @ nl @ ''</tr></thead><tbody>''\<close>

definition table_close :: string where
  "table_close = ''</tbody></table>''"

text \<open>
  The table, and the new content of the schema's property order: the sort is in place unless
  appending a missing key, or sorting the keys of the map, made a new array.
\<close>

definition renderPropsTable :: "async_lib \<Rightarrow> asyncSchema \<Rightarrow> string \<Rightarrow> string \<times> string list option" where
  \<open>renderPropsTable lib sc schemaID =
     (if as_Properties sc = [] then (no_properties, None)
      else
        (table_open @
           concat (map (\<lambda>k. prop_row lib schemaID (k \<in> set (as_Required sc)) k (prop_at sc k)) (table_keys sc)) @
           table_close,
         if as_PropertyOrder sc \<noteq> [] \<and> set (map fst (as_Properties sc)) \<subseteq> set (as_PropertyOrder sc)
         then Some (table_keys sc) else None))\<close>

definition set_order :: "string option \<Rightarrow> string list option \<Rightarrow> asyncComponents \<Rightarrow> asyncComponents" where
  "set_order owner order comps =
     (case (owner, order) of
        (Some n, Some ks) \<Rightarrow>
          comps\<lparr>ac_Schemas := map (\<lambda>(m, sc). (m, if m = n then with_order ks sc else sc)) (ac_Schemas comps)\<rparr>
      | _ \<Rightarrow> comps)"

definition render_schema_table ::
  "async_lib \<Rightarrow> asyncComponents \<Rightarrow> string \<Rightarrow> asyncSchema \<Rightarrow> (string \<times> asyncComponents) option" where
  "render_schema_table lib comps name sc =
     Option.bind (resolveSchema comps (Some name) sc)
       (\<lambda>(owner, resolved).
          let (text, order) = renderPropsTable lib resolved name in Some (text, set_order owner order comps))"

definition server_fields :: "yaml_Node \<Rightarrow> string \<times> string \<times> string" where
  "server_fields val =
     fold (\<lambda>(k, v) (host, proto, desc).
        if yn_Value k = ''host'' then (yn_Value v, proto, desc)
        else if yn_Value k = ''protocol'' then (host, yn_Value v, desc)
        else if yn_Value k = ''description'' then (host, proto, shorten (yn_Value v))
        else (host, proto, desc))
      (content_pairs (yn_Content val)) ([], [], [])"

definition renderServers :: "async_lib \<Rightarrow> yaml_Node \<Rightarrow> string" where
  \<open>renderServers lib node =
     (if yn_Kind node = ZeroKind then []
      else ''<div class="section" id="servers"><div class="section-title">Servers</div>'' @ ''<div class="card">'' @
        (if yn_Kind node = MappingNode
         then concat (map (\<lambda>(k, val).
                let name = yn_Value k; (host, proto, desc) = server_fields val
                in ''<div class="server-item">'' @ nl @ ''  <div><span class="server-name">'' @
       EscapeString name @
       ''</span></div>'' @ nl @ ''  <div><span class="server-proto">'' @
       EscapeString (al_ToUpper lib proto) @
       ''</span> <span class="server-host">'' @
       EscapeString host @
       ''</span></div>'' @ nl @ ''  <div class="server-desc">'' @
       EscapeString (TrimSpace desc) @
       ''</div>'' @ nl @ ''</div>'')
              (content_pairs (yn_Content node)))
         else []) @
        ''</div></div>'')\<close>

definition renderMessage ::
  "async_lib \<Rightarrow> asyncComponents \<Rightarrow> string \<Rightarrow> asyncMessage \<Rightarrow> (string \<times> asyncComponents) option" where
  \<open>renderMessage lib comps name msg =
     (let title = (if am_Title msg = [] then name else am_Title msg);
          summary = TrimSpace (am_Summary msg);
          eventType = snsEventType (am_Bindings msg);
          (badgeClass, badgeLabel) = (if isConsumed msg then (''m-recv'', ''RECEIVE'') else (''m-send'', ''SEND''));
          attr = (if eventType \<noteq> [] then ''<span class="sns-attr">event_type: '' @ EscapeString eventType @ ''</span>'' else []);
          front = ''<div class="card" id="msg-'' @
       name @
       ''">'' @ nl @ ''<div class="card-header">'' @ nl @ ''  <span class="badge '' @
       badgeClass @
       ''">'' @
       badgeLabel @
       ''</span>'' @ nl @ ''  <span class="card-title">'' @
       EscapeString title @
       ''</span>'' @ nl @ ''  '' @
       attr @
       nl @ ''  <button class="toggle-btn" type="button" tabindex="-1" aria-hidden="true">'' @ [CHR 0xE2, CHR 0x96, CHR 0xB8] @ ''</button>'' @ nl @ ''</div>'' @ nl @ ''<div class="card-body" style="display:none">'' @ nl;
          lead = (if summary \<noteq> [] then ''<p class="card-summary" style="margin-bottom:.75rem">'' @ EscapeString summary @ ''</p>'' else []);
          payloadRef = TrimPrefix (ar_Ref (am_Payload msg)) schemaPrefix
      in case (if payloadRef \<noteq> [] then map_of (ac_Schemas comps) payloadRef else None) of
           None \<Rightarrow> Some (front @ lead @ ''</div></div>'', comps)
         | Some sc \<Rightarrow>
             Option.bind (render_schema_table lib comps payloadRef sc)
               (\<lambda>(table, comps).
                  Some (front @ lead @
                    ''<div style="font-size:.78rem;color:var(--muted);margin-bottom:.5rem">Payload: <span style="color:var(--code);font-family:monospace">'' @
       EscapeString payloadRef @
       ''</span></div>'' @
                    table @ ''</div></div>'', comps)))\<close>

definition renderSchema ::
  "async_lib \<Rightarrow> asyncComponents \<Rightarrow> string \<Rightarrow> asyncSchema \<Rightarrow> (string \<times> asyncComponents) option" where
  \<open>renderSchema lib comps name sc =
     Option.bind (render_schema_table lib comps name sc)
       (\<lambda>(table, comps).
          Some (''<div class="card" id="schema-'' @
       name @
       ''">'' @ nl @ ''<div class="card-header"><span class="card-title" style="font-family:monospace">'' @
       EscapeString name @
       ''</span><button class="toggle-btn" type="button" tabindex="-1" aria-hidden="true">'' @ [CHR 0xE2, CHR 0x96, CHR 0xB8] @ ''</button></div>'' @ nl @ ''<div class="card-body" style="display:none">'' @
            table @ ''</div></div>'', comps))\<close>

text \<open>A loop that renders one card after the other.\<close>

fun render_each ::
  "(asyncComponents \<Rightarrow> string \<Rightarrow> (string \<times> asyncComponents) option) \<Rightarrow> asyncComponents \<Rightarrow> string list
    \<Rightarrow> (string \<times> asyncComponents) option" where
  "render_each draw comps [] = Some ([], comps)"
| "render_each draw comps (name # names) =
     Option.bind (draw comps name)
       (\<lambda>(text, comps). Option.bind (render_each draw comps names) (\<lambda>(texts, comps). Some (text @ texts, comps)))"

definition message_section ::
  "async_lib \<Rightarrow> string \<Rightarrow> asyncComponents \<Rightarrow> string list \<Rightarrow> (string \<times> asyncComponents) option" where
  "message_section lib opening comps names =
     (if names = [] then Some ([], comps)
      else Option.bind (render_each (\<lambda>comps name. renderMessage lib comps name (the (map_of (ac_Messages comps) name))) comps names)
             (\<lambda>(cards, comps). Some (opening @ cards @ ''</div>'', comps)))"

definition nav_links :: "string \<Rightarrow> string list \<Rightarrow> string" where
  \<open>nav_links anchor names =
     concat (map (\<lambda>name. ''<a href="#'' @ anchor @ ''-'' @ name @ ''">'' @ EscapeString name @ ''</a>'') names)\<close>

definition env_color :: "async_lib \<Rightarrow> string \<Rightarrow> string" where
  "env_color lib env =
     (if al_ToLower lib env \<in> {''prod'', ''production''} then ''#ec4b3c''
      else if al_ToLower lib env \<in> {''staging'', ''stage''} then ''#f59e0b'' else ''#22c55e'')"

definition page_header :: "async_lib \<Rightarrow> asyncSpec \<Rightarrow> string \<Rightarrow> string" where
  \<open>page_header lib s env =
     (let envLabel = (if al_ToUpper lib env = [] then ''DEV'' else al_ToUpper lib env)
      in ''<div class="header">'' @ nl @ ''  <div>'' @ nl @ ''    <h1>'' @
       EscapeString (ai_Title (sp_Info s)) @
       ''</h1>'' @ nl @ ''    <p>Event contract browser '' @ [CHR 0xE2, CHR 0x80, CHR 0x94] @ '' this service publishes zero events (TAC-EVT-1); every message below is inbound</p>'' @ nl @ ''  </div>'' @ nl @ ''  <span class="badge badge-version">v'' @
       EscapeString (ai_Version (sp_Info s)) @
       ''</span>'' @ nl @ ''  <span class="badge" style="background:linear-gradient(to right,#bd0283,#ec4b3c);color:#fff">AsyncAPI '' @
       EscapeString (sp_AsyncAPI s) @
       ''</span>'' @ nl @ ''  <span class="badge" style="background:'' @
       env_color lib env @
       '';color:#fff;margin-left:auto">'' @
       EscapeString envLabel @
       ''</span>'' @ nl @ ''  <button id="theme-btn" class="theme-toggle" onclick="toggleTheme()" title="Toggle light/dark mode">'' @ [CHR 0xF0, CHR 0x9F, CHR 0x8C, CHR 0x99] @ ''</button>'' @ nl @ ''</div>'' @ nl)\<close>

definition page_sidebar :: "page_texts \<Rightarrow> asyncSpec \<Rightarrow> string" where
  \<open>page_sidebar texts s =
     (let (publishedNames, consumedNames) = splitMessagesByDirection (ac_Messages (sp_Comps s))
      in ''<div class="layout"><nav class="sidebar">'' @ pt_search texts @
         ''<div class="sidebar-group"><div class="sidebar-label">Overview</div>'' @
         ''<a href="#info">Info</a><a href="#servers">Servers</a></div>'' @
         (if publishedNames \<noteq> [] then
            ''<div class="sidebar-group"><div class="sidebar-label">Published Messages</div>'' @ nav_links ''msg'' publishedNames @ ''</div>''
          else []) @
         (if consumedNames \<noteq> [] then
            ''<div class="sidebar-group"><div class="sidebar-label">Consumed Messages</div>'' @ nav_links ''msg'' consumedNames @ ''</div>''
          else []) @
         ''<div class="sidebar-group"><div class="sidebar-label">Schemas</div>'' @
         nav_links ''schema'' (sortedKeys (ac_Schemas (sp_Comps s))) @ ''</div></nav>'')\<close>

definition page_info :: "asyncSpec \<Rightarrow> string" where
  \<open>page_info s =
     ''<main class="content">'' @ ''<div class="section" id="info">'' @ ''<div class="section-title">Info</div>'' @
     (let desc = ai_Desc (sp_Info s);
          short = (if length desc > 800
                   then take 800 desc @ nl @ nl @ ''[truncated '' @ [CHR 0xE2, CHR 0x80, CHR 0x94] @ '' see api/asyncapi.yaml for full description]'' else desc)
      in if desc \<noteq> [] then ''<div class="info-desc">'' @ EscapeString short @ ''</div>'' else []) @
     ''</div>''\<close>

definition renderPage ::
  "page_texts \<Rightarrow> async_lib \<Rightarrow> asyncSpec \<Rightarrow> string \<Rightarrow> (string \<times> asyncSpec) option" where
  \<open>renderPage texts lib s env =
     (let (publishedNames, consumedNames) = splitMessagesByDirection (ac_Messages (sp_Comps s));
          top =
            ''<!DOCTYPE html>'' @ nl @ ''<html lang="en" data-theme="dark">'' @ nl @ ''<head>'' @ nl @ ''<meta charset="UTF-8">'' @ nl @ ''<meta name="viewport" content="width=device-width,initial-scale=1">'' @ nl @ ''<title>'' @
            EscapeString (ai_Title (sp_Info s)) @ pt_head texts @ page_header lib s env @ page_sidebar texts s @
            page_info s @ renderServers lib (sp_Servers s)
      in Option.bind
           (message_section lib ''<div class="section" id="messages-published"><div class="section-title">Published Messages</div>''
             (sp_Comps s) publishedNames)
           (\<lambda>(published, comps).
         Option.bind
           (message_section lib ''<div class="section" id="messages-consumed"><div class="section-title">Consumed Messages</div>''
             comps consumedNames)
           (\<lambda>(consumed, comps).
         Option.bind
           (render_each (\<lambda>comps name. renderSchema lib comps name (the (map_of (ac_Schemas comps) name))) comps
             (sortedKeys (ac_Schemas comps)))
           (\<lambda>(schemas, comps).
              Some (top @ published @ consumed @
                ''<div class="section" id="schemas"><div class="section-title">Schemas</div>'' @ schemas @ ''</div>'' @ pt_tail texts,
                s\<lparr>sp_Comps := comps\<rparr>)))))\<close>

section \<open>The handler\<close>

definition parseAsyncSpec :: "async_lib \<Rightarrow> string \<Rightarrow> go_error + asyncSpec" where
  "parseAsyncSpec lib raw =
     (case al_Unmarshal lib raw of Inl err \<Rightarrow> Inl (Wrapped ''parse AsyncAPI spec: '' err) | Inr s \<Rightarrow> Inr s)"

text \<open>The specification is parsed once; the result of that, an error included, stays.\<close>

type_synonym async_cache = "(go_error + asyncSpec) option"

definition loadAsyncSpec :: "async_lib \<Rightarrow> string \<Rightarrow> async_cache \<Rightarrow> (go_error + asyncSpec) \<times> async_cache" where
  "loadAsyncSpec lib raw cache =
     (case cache of Some r \<Rightarrow> (r, cache) | None \<Rightarrow> (parseAsyncSpec lib raw, Some (parseAsyncSpec lib raw)))"

definition AsyncAPIHandler ::
  "page_texts \<Rightarrow> async_lib \<Rightarrow> string \<Rightarrow> http_req \<Rightarrow> async_cache \<Rightarrow> (response \<times> async_cache) option" where
  "AsyncAPIHandler texts lib raw rq cache =
     (case loadAsyncSpec lib raw cache of
        (Inl err, cache) \<Rightarrow> Some (writeError rq 500 ''internal_server_error'', cache)
      | (Inr spec, cache) \<Rightarrow>
          Option.bind (renderPage texts lib spec (envLabelFromGin rq))
            (\<lambda>(page, spec).
               Some (add_headers [(''Content-Type'', ''text/html; charset=utf-8'')] (respond 200 (BText page)), Some (Inr spec))))"

end
