(* ===== verification/AsyncTheorems.thy ===== *)
theory AsyncTheorems
  imports AsyncApi
begin

text \<open>
  The properties of the event catalog: references that form no cycle are resolved and every request
  is answered; rendering changes the shared specification in the order of properties only; a table
  has every property once, required ones first; and no text of the specification becomes markup in
  a table.
\<close>

section \<open>Resolution ends\<close>

text \<open>The names that the resolution of a schema looks up.\<close>

fun schema_refs :: "asyncSchema \<Rightarrow> string list" where
  "schema_refs (AsyncSchema t req ps ord subs ref) =
     (if subs = [] then if ref = [] then [] else [TrimPrefix ref schemaPrefix]
      else concat (map schema_refs subs))"

definition refs_ranked :: "(string \<Rightarrow> nat) \<Rightarrow> asyncComponents \<Rightarrow> bool" where
  "refs_ranked rank comps \<longleftrightarrow>
     (\<forall>n sc. map_of (ac_Schemas comps) n = Some sc \<longrightarrow>
        (\<forall>m \<in> set (schema_refs sc). m \<in> dom (map_of (ac_Schemas comps)) \<longrightarrow> rank m < rank n))"

lemma mapM_option_total:
  "(\<And>x. x \<in> set xs \<Longrightarrow> \<exists>y. f x = Some y) \<Longrightarrow> \<exists>ys. mapM_option f xs = Some ys"
proof (induction xs)
  case (Cons x xs)
  then obtain y ys where "f x = Some y" "mapM_option f xs = Some ys" by (meson list.set_intros)
  then show ?case by simp
qed simp

lemma resolveSchema_below:
  assumes ranked: "refs_ranked rank comps"
  shows "\<forall>m \<in> set (schema_refs sc). m \<in> dom (map_of (ac_Schemas comps)) \<longrightarrow> rank m < N \<Longrightarrow>
    \<exists>r. resolveSchema comps owner sc = Some r"
proof (induction N arbitrary: sc owner rule: less_induct)
  case (less N)
  from less(2) show ?case
  proof (induction sc arbitrary: owner)
    case (AsyncSchema t req ps ord subs ref)
    let ?sc = "AsyncSchema t req ps ord subs ref"
    let ?name = "TrimPrefix ref schemaPrefix"
    show ?case
    proof (cases "subs = []")
      case True
      show ?thesis
      proof (cases "ref = [] \<or> map_of (ac_Schemas comps) ?name = None")
        case True
        with \<open>subs = []\<close> show ?thesis by (subst resolveSchema.simps) auto
      next
        case False
        then obtain sub where sub: "ref \<noteq> []" "map_of (ac_Schemas comps) ?name = Some sub" by auto
        with AsyncSchema(2) \<open>subs = []\<close> have "rank ?name < N" by auto
        moreover have "\<forall>m \<in> set (schema_refs sub). m \<in> dom (map_of (ac_Schemas comps)) \<longrightarrow> rank m < rank ?name"
          using ranked sub(2) unfolding refs_ranked_def by blast
        ultimately have "\<exists>r. resolveSchema comps (Some ?name) sub = Some r" by (rule less.IH)
        with sub \<open>subs = []\<close> show ?thesis by (subst resolveSchema.simps) simp
      qed
    next
      case False
      have "\<exists>r. resolveSchema comps None sub = Some r" if "sub \<in> set subs" for sub
        using AsyncSchema(1) [OF that] AsyncSchema(2) that False by auto
      then obtain rs where "mapM_option (\<lambda>sub. resolveSchema comps None sub) subs = Some rs"
        using mapM_option_total by metis
      with False show ?thesis by (subst resolveSchema.simps) simp
    qed
  qed
qed

lemma resolveSchema_total:
  assumes "refs_ranked rank comps" "map_of (ac_Schemas comps) n = Some sc"
  shows "\<exists>r. resolveSchema comps owner sc = Some r"
  by (rule resolveSchema_below [OF assms(1), where N = "rank n"]) (use assms in \<open>auto simp: refs_ranked_def\<close>)

text \<open>A schema that is returned with the array of a component is that component.\<close>

lemma resolveSchema_owner:
  assumes "resolveSchema comps owner sc = Some (Some n, sc')" "\<And>m. owner = Some m \<Longrightarrow> map_of (ac_Schemas comps) m = Some sc"
  shows "map_of (ac_Schemas comps) n = Some sc'"
proof -
  let ?P = "\<lambda>comps owner sc r. \<forall>n sc'. r = (Some n, sc') \<longrightarrow>
      (\<forall>m. owner = Some m \<longrightarrow> map_of (ac_Schemas comps) m = Some sc) \<longrightarrow> map_of (ac_Schemas comps) n = Some sc'"
  have "?P comps owner sc (Some n, sc')"
  proof (rule resolveSchema.raw_induct [where P = ?P, OF _ assms(1)])
    fix rec :: "asyncComponents \<Rightarrow> string option \<Rightarrow> asyncSchema \<Rightarrow> (string option \<times> asyncSchema) option"
    fix comps owner sc r
    assume "\<And>comps owner sc r. rec comps owner sc = Some r \<Longrightarrow> ?P comps owner sc r"
    then have IH: "map_of (ac_Schemas comps) m = Some sub \<Longrightarrow> rec comps (Some m) sub = Some (Some n, sc') \<Longrightarrow>
        map_of (ac_Schemas comps) n = Some sc'" for m sub n sc' by blast
    show "?P comps owner sc r" if "(if as_AllOf sc = [] then
        (if as_Ref sc \<noteq> [] then
           (case map_of (ac_Schemas comps) (TrimPrefix (as_Ref sc) schemaPrefix) of
              Some sub \<Rightarrow> rec comps (Some (TrimPrefix (as_Ref sc) schemaPrefix)) sub
            | None \<Rightarrow> Some (owner, sc))
         else Some (owner, sc))
      else Option.bind (mapM_option (\<lambda>sub. rec comps None sub) (as_AllOf sc))
             (\<lambda>rs. Some (None, fold (\<lambda>(_, r) merged. merge_into merged r) rs empty_schema))) = Some r"
      using that by (auto split: if_splits option.splits Option.bind_splits dest: IH)
  qed
  with assms(2) show ?thesis by blast
qed

section \<open>The rows of a table\<close>

lemma insort_key_partition:
  fixes f :: "'a \<Rightarrow> nat"
  assumes "\<forall>y \<in> set xs. f y = 0" "\<forall>y \<in> set ys. f y = 1" "f x \<le> 1"
  shows "insort_key f x (xs @ ys) = (if f x = 0 then x # xs @ ys else xs @ x # ys)"
  using assms
proof (induction xs)
  case Nil
  then show ?case by (cases ys) auto
qed auto

lemma sort_key_partition:
  "sort_key (\<lambda>k. if P k then 0 else 1 :: nat) xs = filter P xs @ filter (\<lambda>k. \<not> P k) xs"
  by (induction xs) (simp_all add: insort_key_partition)

lemma sortedKeys_set: "set (sortedKeys m) = fst ` set m" "distinct (sortedKeys m)"
  by (simp_all add: sortedKeys_def)

lemma base_keys_set: "set (base_keys sc) = set (as_PropertyOrder sc) \<union> fst ` set (as_Properties sc)"
  by (auto simp: base_keys_def Let_def sortedKeys_set)

lemma base_keys_distinct: "distinct (as_PropertyOrder sc) \<Longrightarrow> distinct (base_keys sc)"
  by (auto simp: base_keys_def Let_def sortedKeys_set)

lemma table_keys_eq:
  "table_keys sc = filter (\<lambda>k. k \<in> set (as_Required sc)) (base_keys sc) @ filter (\<lambda>k. k \<notin> set (as_Required sc)) (base_keys sc)"
  by (simp add: table_keys_def sort_key_partition)

lemma mset_table_keys: "mset (table_keys sc) = mset (base_keys sc)"
  by (simp add: table_keys_def)

lemma in_place_order:
  assumes "snd (renderPropsTable lib sc name) = Some ks"
  shows "mset ks = mset (as_PropertyOrder sc) \<and> ks = table_keys sc"
proof -
  have "as_PropertyOrder sc \<noteq> []" "fst ` set (as_Properties sc) \<subseteq> set (as_PropertyOrder sc)" "ks = table_keys sc"
    using assms by (auto simp: renderPropsTable_def split: if_splits)
  moreover from this have "base_keys sc = as_PropertyOrder sc"
    by (auto simp: base_keys_def Let_def filter_empty_conv sortedKeys_set)
  ultimately show ?thesis by (simp add: mset_table_keys)
qed



section \<open>What rendering changes\<close>

text \<open>Two components that differ at most in the order of the properties of their schemas.\<close>

definition reordered :: "asyncSchema \<Rightarrow> asyncSchema \<Rightarrow> bool" where
  "reordered a b \<longleftrightarrow> (\<exists>ks. b = with_order ks a \<and> mset ks = mset (as_PropertyOrder a))"

definition same_but_order :: "asyncComponents \<Rightarrow> asyncComponents \<Rightarrow> bool" where
  "same_but_order c c' \<longleftrightarrow>
     ac_Messages c' = ac_Messages c \<and> map fst (ac_Schemas c') = map fst (ac_Schemas c) \<and>
     (\<forall>n. rel_option reordered (map_of (ac_Schemas c) n) (map_of (ac_Schemas c') n))"

lemma with_order_sel [simp]:
  "as_Type (with_order ks sc) = as_Type sc" "as_Required (with_order ks sc) = as_Required sc"
  "as_Properties (with_order ks sc) = as_Properties sc" "as_PropertyOrder (with_order ks sc) = ks"
  "as_AllOf (with_order ks sc) = as_AllOf sc" "as_Ref (with_order ks sc) = as_Ref sc"
  "with_order ks (with_order ls sc) = with_order ks sc" "with_order (as_PropertyOrder sc) sc = sc"
  "schema_refs (with_order ks sc) = schema_refs sc"
  by (cases sc; simp)+

lemma reordered_refl [simp]: "reordered a a"
  unfolding reordered_def by (rule exI [of _ "as_PropertyOrder a"]) simp

lemma reordered_trans: "reordered a b \<Longrightarrow> reordered b c \<Longrightarrow> reordered a c"
  by (auto simp: reordered_def)

lemma same_but_order_refl [simp]: "same_but_order c c"
  by (simp add: same_but_order_def option.rel_refl)

lemma same_but_order_trans:
  assumes "same_but_order a b" "same_but_order b c"
  shows "same_but_order a c"
proof -
  have "rel_option reordered x z" if "rel_option reordered x y" "rel_option reordered y z" for x y z
    using that by (cases x; cases y; cases z) (auto intro: reordered_trans)
  with assms show ?thesis unfolding same_but_order_def by (metis (no_types, lifting))
qed

lemma map_of_update:
  "map_of (map (\<lambda>(m, v). (m, if m = n then f v else v)) xs) k =
     (if k = n then map_option f (map_of xs k) else map_of xs k)"
  by (induction xs) (auto split: prod.splits)

lemma map_fst_update: "map fst (map (\<lambda>(m, v). (m, if m = n then f v else v)) xs) = map fst xs"
  by (induction xs) auto

lemma set_order_same:
  assumes "snd (renderPropsTable lib sc name) = order" "\<And>n. owner = Some n \<Longrightarrow> map_of (ac_Schemas comps) n = Some sc"
  shows "same_but_order comps (set_order owner order comps)"
proof (cases "owner = None \<or> order = None")
  case True
  then show ?thesis by (auto simp: set_order_def split: option.splits)
next
  case False
  then obtain n ks where o: "owner = Some n" "order = Some ks" by auto
  have "reordered sc (with_order ks sc)"
    using in_place_order [of lib sc name ks] assms(1) o(2) by (auto simp: reordered_def)
  with assms(2) [OF o(1)] show ?thesis
    by (simp add: same_but_order_def set_order_def o map_of_update map_fst_update option.rel_refl del: map_map)
qed

lemma refs_ranked_same:
  assumes "refs_ranked rank c" "same_but_order c c'"
  shows "refs_ranked rank c'"
proof -
  have dom: "dom (map_of (ac_Schemas c')) = dom (map_of (ac_Schemas c))"
    using assms(2) unfolding same_but_order_def dom_map_of_conv_image_fst by (metis list.set_map)
  have "\<exists>sc. map_of (ac_Schemas c) n = Some sc \<and> schema_refs sc' = schema_refs sc"
    if "map_of (ac_Schemas c') n = Some sc'" for n sc'
  proof -
    from assms(2) have "rel_option reordered (map_of (ac_Schemas c) n) (Some sc')"
      unfolding same_but_order_def by (metis that)
    then show ?thesis by (cases "map_of (ac_Schemas c) n") (auto simp: reordered_def)
  qed
  with assms(1) show ?thesis unfolding refs_ranked_def dom by (metis)
qed

section \<open>Every request is answered\<close>

text \<open>What a step of the rendering that starts from \<open>comps\<close> may do.\<close>

definition drawn :: "asyncComponents \<Rightarrow> (string \<times> asyncComponents) option \<Rightarrow> bool" where
  "drawn comps r \<longleftrightarrow> (\<exists>text comps'. r = Some (text, comps') \<and> same_but_order comps comps')"

lemma drawn_Some [simp]: "drawn comps (Some (text, comps')) \<longleftrightarrow> same_but_order comps comps'"
  by (auto simp: drawn_def)

lemma drawnE:
  assumes "drawn comps r"
  obtains t comps' where "r = Some (t, comps')" "same_but_order comps comps'"
  using assms unfolding drawn_def by blast

lemma drawn_bind:
  assumes "drawn comps r" "\<And>text comps'. same_but_order comps comps' \<Longrightarrow> drawn comps' (g (text, comps'))"
  shows "drawn comps (Option.bind r g)"
proof -
  obtain t c where r: "r = Some (t, c)" "same_but_order comps c" using assms(1) by (rule drawnE)
  obtain t' c' where "g (t, c) = Some (t', c')" "same_but_order c c'" using assms(2) [OF r(2)] by (rule drawnE)
  with r show ?thesis by (simp add: same_but_order_trans)
qed

lemma render_schema_table_drawn:
  assumes "refs_ranked rank comps" "map_of (ac_Schemas comps) name = Some sc"
  shows "drawn comps (render_schema_table lib comps name sc)"
proof -
  obtain owner r where r: "resolveSchema comps (Some name) sc = Some (owner, r)"
    using resolveSchema_total [OF assms, of "Some name"] by auto
  moreover have "map_of (ac_Schemas comps) n = Some r" if "owner = Some n" for n
    using resolveSchema_owner [of comps "Some name" sc n r] r that assms(2) by auto
  ultimately show ?thesis
    by (auto simp: render_schema_table_def split: prod.splits intro: set_order_same [of lib r name])
qed

lemma renderMessage_drawn: "refs_ranked rank comps \<Longrightarrow> drawn comps (renderMessage lib comps name msg)"
  unfolding renderMessage_def Let_def
  by (auto simp del: append.simps split: option.splits prod.splits if_splits intro!: drawn_bind render_schema_table_drawn)

lemma renderSchema_drawn:
  "refs_ranked rank comps \<Longrightarrow> map_of (ac_Schemas comps) name = Some sc \<Longrightarrow> drawn comps (renderSchema lib comps name sc)"
  unfolding renderSchema_def by (auto intro!: drawn_bind render_schema_table_drawn)

lemma render_each_drawn:
  assumes "\<And>comps' name. same_but_order comps comps' \<Longrightarrow> name \<in> set names \<Longrightarrow> drawn comps' (draw comps' name)"
  shows "drawn comps (render_each draw comps names)"
  using assms
proof (induction names arbitrary: comps)
  case (Cons name names)
  have "drawn comps (draw comps name)" by (rule Cons.prems) simp_all
  moreover have "drawn comps' (render_each draw comps' names)" if "same_but_order comps comps'" for comps'
    using Cons.prems same_but_order_trans [OF that] by (intro Cons.IH) auto
  ultimately show ?case by (auto intro!: drawn_bind)
qed simp

lemma renderPage_answers:
  assumes "refs_ranked rank (sp_Comps s)"
  shows "\<exists>page comps. renderPage texts lib s env = Some (page, s\<lparr>sp_Comps := comps\<rparr>) \<and> same_but_order (sp_Comps s) comps"
proof -
  have sect: "drawn comps (message_section lib start comps names)" if "refs_ranked rank comps" for start comps names
    unfolding message_section_def
    by (auto intro!: drawn_bind render_each_drawn renderMessage_drawn [where rank = rank] refs_ranked_same [OF that])
  have schemas: "drawn comps (render_each (\<lambda>comps name. renderSchema lib comps name (the (map_of (ac_Schemas comps) name))) comps
      (sortedKeys (ac_Schemas comps)))" if "refs_ranked rank comps" for comps
  proof (rule render_each_drawn)
    fix comps' name
    assume same: "same_but_order comps comps'" and "name \<in> set (sortedKeys (ac_Schemas comps))"
    then have "name \<in> set (map fst (ac_Schemas comps'))" by (simp add: same_but_order_def sortedKeys_set)
    then have "name \<in> dom (map_of (ac_Schemas comps'))" by (simp add: dom_map_of_conv_image_fst)
    then obtain sc where "map_of (ac_Schemas comps') name = Some sc" by blast
    then show "drawn comps' (renderSchema lib comps' name (the (map_of (ac_Schemas comps') name)))"
      using renderSchema_drawn [OF refs_ranked_same [OF that same]] by simp
  qed
  obtain pub con where split: "splitMessagesByDirection (ac_Messages (sp_Comps s)) = (pub, con)" by fastforce
  obtain t1 c1 where 1: "message_section lib ''<div class=\"section\" id=\"messages-published\"><div class=\"section-title\">Published Messages</div>''
      (sp_Comps s) pub = Some (t1, c1)" "same_but_order (sp_Comps s) c1"
    using sect [OF assms] by (rule drawnE)
  note r1 = refs_ranked_same [OF assms 1(2)]
  obtain t2 c2 where 2: "message_section lib ''<div class=\"section\" id=\"messages-consumed\"><div class=\"section-title\">Consumed Messages</div>''
      c1 con = Some (t2, c2)" "same_but_order c1 c2"
    using sect [OF r1] by (rule drawnE)
  obtain t3 c3 where 3: "render_each (\<lambda>comps name. renderSchema lib comps name (the (map_of (ac_Schemas comps) name))) c2
      (sortedKeys (ac_Schemas c2)) = Some (t3, c3)" "same_but_order c2 c3"
    using schemas [OF refs_ranked_same [OF r1 2(2)]] by (rule drawnE)
  have "same_but_order (sp_Comps s) c3"
    using same_but_order_trans [OF same_but_order_trans [OF 1(2) 2(2)] 3(2)] .
  then show ?thesis
    unfolding renderPage_def Let_def by (simp only: split prod.case 1(1) 2(1) 3(1) bind.simps) blast
qed

text \<open>A sequence of requests to the catalog; the parsed specification is kept between them.\<close>

fun catalog_requests ::
  "page_texts \<Rightarrow> async_lib \<Rightarrow> string \<Rightarrow> http_req list \<Rightarrow> async_cache \<Rightarrow> (response list \<times> async_cache) option" where
  "catalog_requests texts lib raw [] cache = Some ([], cache)"
| "catalog_requests texts lib raw (rq # rqs) cache =
     Option.bind (AsyncAPIHandler texts lib raw rq cache)
       (\<lambda>(resp, cache). Option.bind (catalog_requests texts lib raw rqs cache) (\<lambda>(resps, cache). Some (resp # resps, cache)))"

text \<open>What the cache may hold between requests.\<close>

definition catalog_inv :: "async_lib \<Rightarrow> string \<Rightarrow> async_cache \<Rightarrow> bool" where
  "catalog_inv lib raw cache \<longleftrightarrow>
     (case cache of
        None \<Rightarrow> True
      | Some (Inl err) \<Rightarrow> parseAsyncSpec lib raw = Inl err
      | Some (Inr s) \<Rightarrow> \<exists>s0. al_Unmarshal lib raw = Inr s0 \<and> s = s0\<lparr>sp_Comps := sp_Comps s\<rparr> \<and> same_but_order (sp_Comps s0) (sp_Comps s))"

lemma AsyncAPIHandler_step:
  assumes "\<And>s. al_Unmarshal lib raw = Inr s \<Longrightarrow> refs_ranked rank (sp_Comps s)" "catalog_inv lib raw cache"
  shows "\<exists>resp cache'. AsyncAPIHandler texts lib raw rq cache = Some (resp, cache') \<and> catalog_inv lib raw cache' \<and>
    cache' \<noteq> None \<and> rs_status resp = (if isl (al_Unmarshal lib raw) then 500 else 200)"
proof (cases "fst (loadAsyncSpec lib raw cache)")
  case (Inl err)
  with assms(2) have "loadAsyncSpec lib raw cache = (Inl err, Some (Inl err))" "isl (al_Unmarshal lib raw)"
      "parseAsyncSpec lib raw = Inl err"
    by (auto simp: loadAsyncSpec_def catalog_inv_def parseAsyncSpec_def split: option.splits sum.splits)
  then show ?thesis by (simp add: AsyncAPIHandler_def catalog_inv_def writeError_def)
next
  case (Inr s)
  with assms(2) obtain s0 where s0: "loadAsyncSpec lib raw cache = (Inr s, Some (Inr s))" "al_Unmarshal lib raw = Inr s0"
      "s = s0\<lparr>sp_Comps := sp_Comps s\<rparr>" "same_but_order (sp_Comps s0) (sp_Comps s)"
    by (auto simp: loadAsyncSpec_def catalog_inv_def parseAsyncSpec_def split: option.splits sum.splits)
  from renderPage_answers [OF refs_ranked_same [OF assms(1) [OF s0(2)] s0(4)], of texts lib "envLabelFromGin rq"]
  obtain page comps where "renderPage texts lib s (envLabelFromGin rq) = Some (page, s\<lparr>sp_Comps := comps\<rparr>)"
    "same_but_order (sp_Comps s) comps" by blast
  moreover have "s\<lparr>sp_Comps := comps\<rparr> = s0\<lparr>sp_Comps := comps\<rparr>" by (subst s0(3)) simp
  ultimately show ?thesis
    using s0(1,2) same_but_order_trans [OF s0(4)] by (simp add: AsyncAPIHandler_def catalog_inv_def)
qed

lemma catalog_requests_answered:
  assumes "\<And>s. al_Unmarshal lib raw = Inr s \<Longrightarrow> refs_ranked rank (sp_Comps s)" "catalog_inv lib raw cache"
  shows "\<exists>resps cache'. catalog_requests texts lib raw rqs cache = Some (resps, cache') \<and> catalog_inv lib raw cache' \<and>
    map rs_status resps = map (\<lambda>_. if isl (al_Unmarshal lib raw) then 500 else 200) rqs"
  using assms(2)
proof (induction rqs arbitrary: cache)
  case (Cons rq rqs)
  from AsyncAPIHandler_step [OF assms(1) Cons.prems]
  obtain resp c1 where 1: "AsyncAPIHandler texts lib raw rq cache = Some (resp, c1)" "catalog_inv lib raw c1"
    "rs_status resp = (if isl (al_Unmarshal lib raw) then 500 else 200)" by blast
  from Cons.IH [OF 1(2)] obtain resps c2 where "catalog_requests texts lib raw rqs c1 = Some (resps, c2)" "catalog_inv lib raw c2"
    "map rs_status resps = map (\<lambda>_. if isl (al_Unmarshal lib raw) then 500 else 200) rqs" by blast
  with 1 show ?case by simp
qed simp

text \<open>C38. The event catalog always answers: when the references between the schemas of the embedded
  specification form no cycle -- some rank falls along every reference -- each request of any sequence is
  answered, with 200 when the specification parses and 500 when it does not, however often the pages
  before it have reordered the cached specification; and that order is all that they ever change.\<close>

theorem catalog_always_answers:
  assumes "\<And>s. al_Unmarshal lib raw = Inr s \<Longrightarrow> refs_ranked rank (sp_Comps s)"
  shows "\<exists>resps cache. catalog_requests texts lib raw rqs None = Some (resps, cache) \<and>
    map rs_status resps = map (\<lambda>_. if isl (al_Unmarshal lib raw) then 500 else 200) rqs \<and>
    (\<forall>s s'. al_Unmarshal lib raw = Inr s \<and> cache = Some (Inr s') \<longrightarrow>
       s' = s\<lparr>sp_Comps := sp_Comps s'\<rparr> \<and> same_but_order (sp_Comps s) (sp_Comps s'))"
proof -
  have "catalog_inv lib raw None" by (simp add: catalog_inv_def)
  from catalog_requests_answered [OF assms this, of texts rqs]
  obtain resps cache where run: "catalog_requests texts lib raw rqs None = Some (resps, cache)" "catalog_inv lib raw cache"
    "map rs_status resps = map (\<lambda>_. if isl (al_Unmarshal lib raw) then 500 else 200) rqs" by blast
  from run(2) have "\<forall>s s'. al_Unmarshal lib raw = Inr s \<and> cache = Some (Inr s') \<longrightarrow>
       s' = s\<lparr>sp_Comps := sp_Comps s'\<rparr> \<and> same_but_order (sp_Comps s) (sp_Comps s')"
    unfolding catalog_inv_def by auto
  with run(1,3) show ?thesis by blast
qed

text \<open>A message whose payload merges a component with further requirements.\<close>

definition demo_message :: asyncMessage where
  "demo_message =
     \<lparr>am_Name = ''m'', am_Title = [], am_Summary = [], am_ContentType = [], am_Tags = [\<lparr>ar_Ref = ''#/components/tags/consumed''\<rparr>],
      am_Payload = \<lparr>ar_Ref = ''#/components/schemas/M''\<rparr>, am_Bindings = YNode ZeroKind [] []\<rparr>"

definition demo_comps :: asyncComponents where
  "demo_comps =
     \<lparr>ac_Messages = [(''m'', demo_message)],
      ac_Schemas =
        [(''M'', AsyncSchema [] [] [] [] [AsyncSchema [] [] [] [] [] ''#/components/schemas/A'',
            AsyncSchema [] [''a'', ''b''] [] [] [] []] []),
         (''A'', AsyncSchema ''object'' [''b''] [(''a'', zero_prop), (''b'', zero_prop)] [''a'', ''b''] [] [])]\<rparr>"

definition demo_spec :: asyncSpec where
  "demo_spec =
     \<lparr>sp_AsyncAPI = ''3.0.0'', sp_Info = \<lparr>ai_Title = [], ai_Version = [], ai_Desc = []\<rparr>, sp_Servers = YNode ZeroKind [] [],
      sp_Channels = YNode ZeroKind [] [], sp_Ops = YNode ZeroKind [] [], sp_Comps = demo_comps\<rparr>"

definition demo_async :: async_lib where
  "demo_async = \<lparr>al_Unmarshal = (\<lambda>_. Inr demo_spec), al_ToUpper = id, al_ToLower = id, al_MarshalIndent = (\<lambda>_. Inl (Plain ''unsupported''))\<rparr>"

lemma demo_ranked: "refs_ranked (\<lambda>n. if n = ''A'' then 0 else 1) demo_comps"
  by (auto simp: refs_ranked_def demo_comps_def TrimPrefix_def schemaPrefix_def split: if_splits)

theorem catalog_always_answers_witness:
  "\<forall>texts rq1 rq2. \<exists>resps cache. catalog_requests texts demo_async [] [rq1, rq2] None = Some (resps, cache) \<and> map rs_status resps = [200, 200]"
proof (intro allI)
  fix texts rq1 rq2
  have ranked: "refs_ranked (\<lambda>n. if n = ''A'' then 0 else 1) (sp_Comps s)" if "al_Unmarshal demo_async [] = Inr s" for s
    using that demo_ranked by (auto simp: demo_async_def demo_spec_def)
  obtain resps cache where "catalog_requests texts demo_async [] [rq1, rq2] None = Some (resps, cache)"
    "map rs_status resps = map (\<lambda>_. if isl (al_Unmarshal demo_async []) then 500 else 200) [rq1, rq2]"
    using catalog_always_answers [of demo_async "[]" "\<lambda>n. if n = ''A'' then 0 else 1" texts "[rq1, rq2]"] ranked by blast
  then show "\<exists>resps cache. catalog_requests texts demo_async [] [rq1, rq2] None = Some (resps, cache) \<and> map rs_status resps = [200, 200]"
    by (intro exI conjI) (assumption, simp add: demo_async_def)
qed

lemma schemaPrefix_nonempty: "schemaPrefix \<noteq> []"
  by (simp add: schemaPrefix_def)

text \<open>A component that refers to itself is never resolved.\<close>

theorem self_reference_diverges:
  assumes "as_AllOf sc = []" "as_Ref sc = schemaPrefix @ n" "map_of (ac_Schemas comps) n = Some sc"
  shows "resolveSchema comps owner sc = None"
proof (rule ccontr)
  let ?P = "\<lambda>c (owner :: string option) s (r :: string option \<times> asyncSchema). c = comps \<longrightarrow> s \<noteq> sc"
  assume "resolveSchema comps owner sc \<noteq> None"
  then obtain r where r: "resolveSchema comps owner sc = Some r" by blast
  have "?P comps owner sc r"
  proof (rule resolveSchema.raw_induct [where P = ?P, OF _ r])
    fix rec :: "asyncComponents \<Rightarrow> string option \<Rightarrow> asyncSchema \<Rightarrow> (string option \<times> asyncSchema) option"
    fix c owner s r
    assume IH: "\<And>c owner s r. rec c owner s = Some r \<Longrightarrow> ?P c owner s r"
    assume "(if as_AllOf s = [] then
        (if as_Ref s \<noteq> [] then
           (case map_of (ac_Schemas c) (TrimPrefix (as_Ref s) schemaPrefix) of
              Some sub \<Rightarrow> rec c (Some (TrimPrefix (as_Ref s) schemaPrefix)) sub
            | None \<Rightarrow> Some (owner, s))
         else Some (owner, s))
      else Option.bind (mapM_option (\<lambda>sub. rec c None sub) (as_AllOf s))
             (\<lambda>rs. Some (None, fold (\<lambda>(_, r) merged. merge_into merged r) rs empty_schema))) = Some r"
    then show "?P c owner s r" using assms IH [of comps "Some n" sc r] by (auto simp: schemaPrefix_nonempty)
  qed
  then show False by simp
qed

declare resolveSchema.simps [code]

text \<open>
  The first page orders the rows of the message's payload as the component declares them; rendering
  the component sorts its order in place, and from then on the same table has another order.
\<close>

definition demo_page_comps :: asyncComponents where
  "demo_page_comps = snd (the (render_schema_table demo_async demo_comps ''A'' (the (map_of (ac_Schemas demo_comps) ''A''))))"

theorem page_depends_on_earlier_pages:
  "map_option (table_keys \<circ> snd) (resolveSchema demo_comps (Some ''M'') (the (map_of (ac_Schemas demo_comps) ''M''))) = Some [''a'', ''b''] \<and>
   map_option (table_keys \<circ> snd) (resolveSchema demo_page_comps (Some ''M'') (the (map_of (ac_Schemas demo_page_comps) ''M''))) =
     Some [''b'', ''a'']"
  by code_simp

text \<open>Cutting a description at 200 bytes can cut a character in two.\<close>

theorem shorten_splits_character:
  "shorten (replicate 199 (CHR ''a'') @ [CHR 0xC3, CHR 0xA9]) = replicate 199 (CHR ''a'') @ [CHR 0xC3] @ ellipsis"
  by (simp add: shorten_def)

section \<open>No text becomes markup\<close>

text \<open>The characters that open and close tags and attributes.\<close>

definition skeleton :: "string \<Rightarrow> string" where
  "skeleton s = filter (\<lambda>c. c \<in> {CHR ''<'', CHR ''>'', CHR 0x22, CHR 0x27}) s"

lemma skeleton_append [simp]: "skeleton (a @ b) = skeleton a @ skeleton b"
  by (simp add: skeleton_def)

lemma skeleton_Nil [simp]: "skeleton [] = []"
  by (simp add: skeleton_def)

lemma skeleton_escape [simp]: "skeleton (EscapeString s) = []"
  by (induction s) (auto simp: EscapeString_def escape_char_def skeleton_def)

text \<open>A property of which only the structure is left.\<close>

definition blank_text :: "string \<Rightarrow> string" where
  "blank_text s = (if s = [] then [] else ''x'')"

definition blank_item :: "asyncProp \<Rightarrow> asyncProp" where
  "blank_item i = AsyncProp [] [] [] None (map (\<lambda>_. []) (ap_Enum i)) (blank_text (ap_Ref i)) None"

definition blank :: "asyncProp \<Rightarrow> asyncProp" where
  "blank p = AsyncProp (if ap_Type p = ''array'' then ''array'' else []) [] [] (ap_Example p) (map (\<lambda>_. []) (ap_Enum p))
     (blank_text (ap_Ref p)) (map_option blank_item (ap_Items p))"

lemma skeleton_enum: "skeleton (enum_html start vs) = skeleton (enum_html start (map (\<lambda>_. []) vs))"
proof -
  have "skeleton (concat (map (\<lambda>ev. a @ EscapeString ev @ b) ws)) = concat (replicate (length ws) (skeleton a @ skeleton b))" for a b ws
    by (induction ws) simp_all
  then show ?thesis by (simp only: enum_html_def map_is_Nil_conv skeleton_append length_map if_distrib [of skeleton])
qed

lemma skeleton_type: "skeleton (typeHTML v) = skeleton (typeHTML (blank v))"
  unfolding typeHTML_def Let_def
  by (cases "ap_Items v") (auto simp: blank_def blank_item_def blank_text_def simp del: append.simps)

lemma skeleton_row:
  "skeleton (prop_row lib schemaID required k v) = skeleton (prop_row lib (blank_text schemaID) required [] (blank v))"
proof -
  have items: "skeleton (enum_html start (case ap_Items v of None \<Rightarrow> [] | Some items \<Rightarrow> ap_Enum items)) =
      skeleton (enum_html start (case ap_Items (blank v) of None \<Rightarrow> [] | Some items \<Rightarrow> ap_Enum items))" for start
    using skeleton_enum by (cases "ap_Items v") (auto simp: blank_def blank_item_def)
  have own: "skeleton (enum_html start (ap_Enum v)) = skeleton (enum_html start (ap_Enum (blank v)))" for start
    using skeleton_enum by (simp add: blank_def)
  have "ap_Example (blank v) = ap_Example v" by (simp add: blank_def)
  moreover have "skeleton (row_id schemaID k) = skeleton (row_id (blank_text schemaID) [])"
    by (cases "schemaID = []") (simp_all add: row_id_def blank_text_def del: append.simps)
  ultimately show ?thesis
    unfolding prop_row_def Let_def by (simp only: skeleton_append skeleton_escape skeleton_type [of v] items own)
qed


text \<open>The names of messages and schemas, on the other hand, are written into attributes as they are.\<close>

theorem schema_name_not_escaped:
  \<open>Contains (fst (the (renderSchema demo_async demo_comps ''"><script>'' empty_schema))) ''id="schema-"><script>"''\<close>
  by code_simp

end
