(* ===== verification/DocsSite.thy ===== *)
theory DocsSite
  imports AsyncTheorems SystemTheorems
begin

text \<open>
  The router with its real event catalog: \<open>AsyncAPIHandler\<close> behind the middleware of
  \<open>registerDocsRoutes\<close>, and the specification that it keeps between requests next to the state of the
  process.  Every run of this process is, on its world, a run of the process of \<open>SystemTheorems\<close>, in
  which the catalog's page was a parameter.
\<close>

section \<open>Serving with the catalog\<close>

definition site_serve ::
  "page_texts \<Rightarrow> async_lib \<Rightarrow> 'r process \<Rightarrow> route \<Rightarrow> http_req \<Rightarrow> 'r world \<times> async_cache
    \<Rightarrow> (response \<times> 'r world \<times> async_cache) option" where
  "site_serve texts alib p rt rq st =
     (case st of (w, cache) \<Rightarrow>
        (case run_chain (pr_http p) (rt_chain rt) [] rq of
           Inl resp \<Rightarrow> Some (resp, w, cache)
         | Inr (hs, rq) \<Rightarrow>
             if rt_handler rt = EAsyncAPI then
               Option.bind (AsyncAPIHandler texts alib (dl_AsyncAPISpec (pr_docs_lib p)) rq cache)
                 (\<lambda>(resp, cache). Some (add_headers hs resp, w, cache))
             else
               (case handle (pr_http p) (pr_docs_lib p) (service (pr_deps p) (pr_tracer p)) (pr_health p)
                       (rt_handler rt) rq w of
                  (resp, w) \<Rightarrow> Some (add_headers hs resp, w, cache))))"

text \<open>A request, or any other step of the process, which leaves the specification alone.\<close>

inductive site_step ::
  "page_texts \<Rightarrow> async_lib \<Rightarrow> 'r process \<Rightarrow> 'r world \<times> async_cache \<Rightarrow> 'r world \<times> async_cache \<Rightarrow> bool"
  for texts alib p where
  requested: "rt \<in> set (eng_routes (pr_engine p)) \<Longrightarrow> ctx_tx (rq_Context rq) = None \<Longrightarrow>
    site_serve texts alib p rt rq st = Some (resp, st') \<Longrightarrow> site_step texts alib p st st'"
| other: "sys_step p w w' \<Longrightarrow> site_step texts alib p (w, cache) (w', cache)"

section \<open>The catalog behind the routes\<close>

text \<open>An answer is the one of the parameterised router, for the page that the catalog gives now.\<close>

lemma site_serve_serves:
  assumes "site_serve texts alib p rt rq (w, cache) = Some (resp, w', cache')"
  shows "\<exists>page. serve (pr_http p) ((pr_docs_lib p)\<lparr>dl_AsyncAPIHandler := page\<rparr>) (service (pr_deps p) (pr_tracer p))
    (pr_health p) rt rq w = (resp, w')"
proof (cases "rt_handler rt = EAsyncAPI")
  case True
  with assms show ?thesis
    by (intro exI [of _ "\<lambda>rq. fst (the (AsyncAPIHandler texts alib (dl_AsyncAPISpec (pr_docs_lib p)) rq cache))"])
      (auto simp: site_serve_def serve_def handle_def bind_eq_Some_conv split: sum.splits)
next
  case False
  then have "handle lib (dl\<lparr>dl_AsyncAPIHandler := page\<rparr>) svc health (rt_handler rt) rq w =
      handle lib dl svc health (rt_handler rt) rq w" for lib dl page rq w and svc :: "'a world ACLService" and health
    by (cases "rt_handler rt") (simp_all add: handle_def swagger_dispatch_def)
  with assms False show ?thesis
    by (auto simp: site_serve_def serve_def split: sum.splits prod.splits)
qed

text \<open>What a request does to the world does not depend on that page.\<close>

lemma serve_world:
  "snd (serve lib (dl\<lparr>dl_AsyncAPIHandler := page\<rparr>) svc health rt rq w) = snd (serve lib dl svc health rt rq w)"
proof -
  have "snd (handle lib (dl\<lparr>dl_AsyncAPIHandler := page\<rparr>) svc health e rq w) = snd (handle lib dl svc health e rq w)" for e rq
    by (cases e) (simp_all add: handle_def)
  then show ?thesis by (simp add: serve_def case_prod_beta split: sum.splits)
qed

lemma site_step_sys: "site_step texts alib p st st' \<Longrightarrow> sys_step p (fst st) (fst st')"
proof (induction rule: site_step.induct)
  case (requested rt rq st resp st')
  obtain w cache w' cache' where st: "st = (w, cache)" "st' = (w', cache')" by fastforce
  with requested(3) site_serve_serves obtain page where
    "serve (pr_http p) ((pr_docs_lib p)\<lparr>dl_AsyncAPIHandler := page\<rparr>) (service (pr_deps p) (pr_tracer p)) (pr_health p) rt rq w = (resp, w')"
    by blast
  then have "snd (process_serve p rt rq w) = w'" using serve_world by (metis process_serve_def snd_conv)
  then show ?case using sys_step.request [OF requested(1,2), of w "fst (process_serve p rt rq w)" w'] by (auto simp: st)
qed simp

lemma site_run_sys: "(site_step texts alib p)\<^sup>*\<^sup>* st st' \<Longrightarrow> (sys_step p)\<^sup>*\<^sup>* (fst st) (fst st')"
  by (induction rule: rtranclp_induct) (auto dest: site_step_sys)

section \<open>The cached specification\<close>

lemma site_step_cache:
  assumes "\<And>s. al_Unmarshal alib (dl_AsyncAPISpec (pr_docs_lib p)) = Inr s \<Longrightarrow> refs_ranked rank (sp_Comps s)"
    and "site_step texts alib p st st'" "catalog_inv alib (dl_AsyncAPISpec (pr_docs_lib p)) (snd st)"
  shows "catalog_inv alib (dl_AsyncAPISpec (pr_docs_lib p)) (snd st')"
  using assms(2)
proof cases
  case (requested rt rq resp)
  obtain w cache where st: "st = (w, cache)" by fastforce
  have "catalog_inv alib (dl_AsyncAPISpec (pr_docs_lib p)) cache'"
    if "AsyncAPIHandler texts alib (dl_AsyncAPISpec (pr_docs_lib p)) rq' cache = Some (resp', cache')" for rq' resp' cache'
    using AsyncAPIHandler_step [where lib = alib and cache = cache and texts = texts and rq = rq', OF assms(1)] assms(3) that
    by (force simp: st)
  with requested(3) assms(3) show ?thesis
    by (auto simp: st site_serve_def bind_eq_Some_conv split: sum.splits if_splits prod.splits)
qed (use assms(3) in auto)

lemma site_run_cache:
  assumes "(site_step texts alib p)\<^sup>*\<^sup>* (w0, None) st"
    and "\<And>s. al_Unmarshal alib (dl_AsyncAPISpec (pr_docs_lib p)) = Inr s \<Longrightarrow> refs_ranked rank (sp_Comps s)"
  shows "catalog_inv alib (dl_AsyncAPISpec (pr_docs_lib p)) (snd st)"
  using assms(1)
proof (induction rule: rtranclp_induct)
  case base
  show ?case by (simp add: catalog_inv_def)
next
  case (step st st')
  from site_step_cache [OF assms(2) step(2,3)] show ?case .
qed

text \<open>The page is that of the embedded specification, whose properties earlier pages may have reordered.\<close>

lemma AsyncAPIHandler_page:
  assumes "catalog_inv alib raw cache" "AsyncAPIHandler texts alib raw rq cache = Some (resp, cache')"
    and "al_Unmarshal alib raw = Inr s"
  shows "\<exists>comps page s'. same_but_order (sp_Comps s) comps \<and>
    renderPage texts alib (s\<lparr>sp_Comps := comps\<rparr>) (envLabelFromGin rq) = Some (page, s') \<and> rs_body resp = BText page"
proof -
  obtain s1 where s1: "loadAsyncSpec alib raw cache = (Inr s1, Some (Inr s1))" "s1 = s\<lparr>sp_Comps := sp_Comps s1\<rparr>"
      "same_but_order (sp_Comps s) (sp_Comps s1)"
    using assms(1,3) by (auto simp: loadAsyncSpec_def catalog_inv_def parseAsyncSpec_def split: option.splits sum.splits)
  from assms(2) s1(1) obtain page s' where "renderPage texts alib s1 (envLabelFromGin rq) = Some (page, s')" "rs_body resp = BText page"
    by (auto simp: AsyncAPIHandler_def bind_eq_Some_conv)
  with s1(2,3) show ?thesis by metis
qed

section \<open>The documentation surface\<close>

text \<open>The request that the bearer token of a production deployment keeps out.\<close>

definition token_missing :: "DocsConfig \<Rightarrow> http_req \<Rightarrow> bool" where
  "token_missing docs rq \<longleftrightarrow>
     dc_Environment docs = ''production'' \<and> dc_AuthToken docs \<noteq> [] \<and>
     rq_Header rq ''Authorization'' \<noteq> ''Bearer '' @ dc_AuthToken docs"

lemma docs_chain:
  assumes "rt \<in> set (eng_routes (NewRouter name docs))" "rt_handler rt \<in> {ESwagger, EAsyncAPI, EAsyncAPIYAML}"
  shows "docs_active docs" "rt_chain rt = [SecHeaders] @
    (if dc_Environment docs = ''production'' \<and> dc_AuthToken docs \<noteq> [] then [DocsAuth (dc_AuthToken docs)] else []) @
    (if rt_handler rt = ESwagger then [] else [EnvLabel (dc_Environment docs)])"
proof -
  have docs: "rt \<in> set (registerDocsRoutes docs)"
    using assms by (auto simp: NewRouter_def mk_route_def Let_def)
  show "docs_active docs" using docs by (simp add: registerDocsRoutes_def split: if_splits)
  with docs show "rt_chain rt = [SecHeaders] @
    (if dc_Environment docs = ''production'' \<and> dc_AuthToken docs \<noteq> [] then [DocsAuth (dc_AuthToken docs)] else []) @
    (if rt_handler rt = ESwagger then [] else [EnvLabel (dc_Environment docs)])"
    unfolding registerDocsRoutes_def Let_def mk_route_def by (simp only: not_True_eq_False if_False) auto
qed

lemma docs_chain_run:
  assumes "rt \<in> set (eng_routes (NewRouter name docs))" "rt_handler rt \<in> {ESwagger, EAsyncAPI, EAsyncAPIYAML}"
  shows "run_chain lib (rt_chain rt) [] rq =
    (if token_missing docs rq then Inl (add_headers secHeaders (respond 401 BNone))
     else Inr (secHeaders, if rt_handler rt = ESwagger then rq else envMiddleware (dc_Environment docs) rq))"
  unfolding docs_chain(2) [OF assms] token_missing_def
  by (simp add: docsAuthMiddleware_def)

text \<open>C26. The documentation surface of the running process: whatever requests, deliveries and pages came
  before, a request to one of its three routes is answered, changes nothing but the kept
  specification, and carries the frame, sniffing and content security headers.  The routes exist in
  production only when they are enabled; once a token is configured there, a request without exactly
  that bearer token gets 401 and no body.  Any other request to the catalog gets the page of the
  embedded specification under the label of the configured environment, or 500 when the specification
  does not parse; the raw specification is sent verbatim.  (The schemas' references are assumed to
  form no cycle.)\<close>

theorem documentation_site:
  assumes rt: "rt \<in> set (eng_routes (NewRouter name docs))" "rt_handler rt \<in> {ESwagger, EAsyncAPI, EAsyncAPIYAML}"
    and ranked: "\<forall>s. al_Unmarshal alib (dl_AsyncAPISpec (pr_docs_lib p)) = Inr s \<longrightarrow> refs_ranked rank (sp_Comps s)"
    and before: "(site_step texts alib p)\<^sup>*\<^sup>* (w0, None) (w, cache)"
  shows "\<exists>resp cache'. site_serve texts alib p rt rq (w, cache) = Some (resp, w, cache') \<and>
    (dc_Environment docs \<noteq> ''production'' \<or> dc_Enabled docs) \<and> set secHeaders \<subseteq> set (rs_headers resp) \<and>
    (if dc_Environment docs = ''production'' \<and> dc_AuthToken docs \<noteq> [] \<and>
        rq_Header rq ''Authorization'' \<noteq> ''Bearer '' @ dc_AuthToken docs
     then rs_status resp = 401 \<and> rs_body resp = BNone \<and> cache' = cache
     else if rt_handler rt = EAsyncAPI then
       (case al_Unmarshal alib (dl_AsyncAPISpec (pr_docs_lib p)) of
          Inl err \<Rightarrow> rs_status resp = 500
        | Inr s \<Rightarrow> rs_status resp = 200 \<and> (\<exists>comps page s'. same_but_order (sp_Comps s) comps \<and>
            renderPage texts alib (s\<lparr>sp_Comps := comps\<rparr>) (dc_Environment docs) = Some (page, s') \<and> rs_body resp = BText page))
     else if rt_handler rt = EAsyncAPIYAML then
       rs_status resp = 200 \<and> rs_body resp = BText (dl_AsyncAPISpec (pr_docs_lib p)) \<and> cache' = cache
     else resp = add_headers secHeaders (swagger_dispatch (pr_docs_lib p) rq) \<and> cache' = cache)"
proof -
  let ?raw = "dl_AsyncAPISpec (pr_docs_lib p)" and ?rq = "envMiddleware (dc_Environment docs) rq"
  note chain = docs_chain_run [OF rt, of "pr_http p" rq]
  have active: "dc_Environment docs \<noteq> ''production'' \<or> dc_Enabled docs"
    using docs_chain(1) [OF rt] by (simp add: docs_active_def)
  have inv: "catalog_inv alib ?raw cache" using site_run_cache [OF before ranked [rule_format]] by simp
  obtain resp cache' where page: "AsyncAPIHandler texts alib ?raw ?rq cache = Some (resp, cache')"
      "rs_status resp = (if isl (al_Unmarshal alib ?raw) then 500 else 200)"
    using AsyncAPIHandler_step [OF ranked [rule_format] inv] by blast
  have label: "envLabelFromGin ?rq = dc_Environment docs" by (simp add: envLabelFromGin_def envMiddleware_def)
  note body = AsyncAPIHandler_page [OF inv page(1), unfolded label]
  consider "token_missing docs rq" | "\<not> token_missing docs rq" "rt_handler rt = EAsyncAPI"
    | "\<not> token_missing docs rq" "rt_handler rt \<in> {ESwagger, EAsyncAPIYAML}"
    using rt(2) by blast
  then show ?thesis
  proof cases
    case 1
    then show ?thesis
      using active chain by (simp add: site_serve_def token_missing_def)
  next
    case 2
    then show ?thesis
      using active chain page body
      by (auto simp: site_serve_def token_missing_def simp del: append.simps split: sum.splits)
  next
    case 3
    then show ?thesis
      using active chain
      by (auto simp: site_serve_def token_missing_def handle_def AsyncAPIYAMLHandler_def simp del: append.simps)
  qed
qed

text \<open>Two requests with the token and one without, on one process: 200, 200 and 401.\<close>

definition demo_with_token :: http_req where
  "demo_with_token = (demo_request [] [] [])\<lparr>rq_Header := (\<lambda>h. if h = ''Authorization'' then ''Bearer s3cret'' else [])\<rparr>"

definition demo_catalog_route :: route where
  "demo_catalog_route = eng_routes (NewRouter [] demo_docs) ! 7"

lemma demo_catalog_route:
  "demo_catalog_route \<in> set (eng_routes (NewRouter [] demo_docs))" "rt_handler demo_catalog_route = EAsyncAPI"
  by (simp_all add: demo_catalog_route_def NewRouter_def registerDocsRoutes_def docs_active_def demo_docs_def mk_route_def Let_def)

theorem documentation_site_witness:
  "\<forall>texts w. \<exists>r1 r2 r3 c1 c2. site_serve texts demo_async demo_process demo_catalog_route demo_with_token (w, None) = Some (r1, w, c1) \<and>
     site_serve texts demo_async demo_process demo_catalog_route demo_with_token (w, c1) = Some (r2, w, c2) \<and>
     site_serve texts demo_async demo_process demo_catalog_route (demo_request [] [] []) (w, c1) = Some (r3, w, c1) \<and>
     map rs_status [r1, r2, r3] = [200, 200, 401]"
proof (intro allI)
  fix texts w
  have ranked: "\<forall>s. al_Unmarshal demo_async (dl_AsyncAPISpec (pr_docs_lib demo_process)) = Inr s \<longrightarrow>
      refs_ranked (\<lambda>n. if n = ''A'' then 0 else 1) (sp_Comps s)"
    using demo_ranked by (auto simp: demo_async_def demo_spec_def)
  have handler: "rt_handler demo_catalog_route \<in> {ESwagger, EAsyncAPI, EAsyncAPIYAML}" by (simp add: demo_catalog_route(2))
  note site = documentation_site [OF demo_catalog_route(1) handler ranked]
  have token: "rq_Header demo_with_token ''Authorization'' = ''Bearer '' @ dc_AuthToken demo_docs"
    "rq_Header (demo_request [] [] []) ''Authorization'' = []" "ctx_tx (rq_Context demo_with_token) = None"
    by (simp_all add: demo_with_token_def demo_request_def demo_docs_def Background_def)
  have docs: "dc_Environment demo_docs = ''production''" "dc_AuthToken demo_docs \<noteq> []"
    "al_Unmarshal demo_async raw = Inr demo_spec" for raw by (simp_all add: demo_docs_def demo_async_def)
  note facts = token docs demo_catalog_route(2)
  from site [OF rtranclp.rtrancl_refl, of texts demo_with_token w]
  obtain r1 c1 where 1: "site_serve texts demo_async demo_process demo_catalog_route demo_with_token (w, None) = Some (r1, w, c1)"
    "rs_status r1 = 200" by (auto simp: facts simp del: append.simps)
  have "site_step texts demo_async demo_process (w, None) (w, c1)"
    by (rule site_step.requested [OF _ token(3) 1(1)]) (simp add: demo_process_def demo_catalog_route(1))
  then have reach: "(site_step texts demo_async demo_process)\<^sup>*\<^sup>* (w, None) (w, c1)" by blast
  from site [OF reach, of demo_with_token]
  obtain r2 c2 where 2: "site_serve texts demo_async demo_process demo_catalog_route demo_with_token (w, c1) = Some (r2, w, c2)"
    "rs_status r2 = 200" by (auto simp: facts simp del: append.simps)
  from site [OF reach, of "demo_request [] [] []"]
  obtain r3 where "site_serve texts demo_async demo_process demo_catalog_route (demo_request [] [] []) (w, c1) = Some (r3, w, c1)"
    "rs_status r3 = 401" by (auto simp: facts simp del: append.simps)
  with 1 2 show "\<exists>r1 r2 r3 c1 c2. site_serve texts demo_async demo_process demo_catalog_route demo_with_token (w, None) = Some (r1, w, c1) \<and>
     site_serve texts demo_async demo_process demo_catalog_route demo_with_token (w, c1) = Some (r2, w, c2) \<and>
     site_serve texts demo_async demo_process demo_catalog_route (demo_request [] [] []) (w, c1) = Some (r3, w, c1) \<and>
     map rs_status [r1, r2, r3] = [200, 200, 401]"
    by (intro exI conjI) (assumption | simp)+
qed

end
