(* ===== verification/Spec2Isabelle.thy ===== *)
theory Spec2Isabelle
  imports ServiceTheorems RepoTheorems ConsumerTheorems CacheTheorems SystemTheorems HttpOutcomes ProcessMain
    Refinement Interleaving DocsSite
begin

text \<open>
  Verification of iam-tender-acl, the service that keeps per-user access grants on tenders.

  \<^bold>\<open>The program.\<close>  A gin router (\<open>internal/adapter/inbound/http\<close>) serves four operations: list (TAC-1),
  grant (TAC-2) and revoke (TAC-3) for callers with a role in the tenant of the path, and an access
  check (TAC-4) for other services.  Behind it the service (\<open>internal/core/service\<close>) works on three
  ports: a Postgres repository under row-level security (\<open>internal/adapter/outbound/postgres\<close>), a
  thirty-second cache (\<open>valkey\<close>), and the membership check of iam-org-membership
  (\<open>membershipcheck\<close>).  Two queue consumers (\<open>internal/adapter/inbound/consumer\<close>) remove the grants of
  a tenant that leaves and revoke those of a user who leaves, with a ledger of processed events that
  is cleaned up every hour.  \<open>cmd/tender-acl\<close> reads the configuration, migrates the schema, wires all of
  this together and serves until a signal or an error.

  \<^bold>\<open>Conventions.\<close>  The definitions carry the source's names; methods are prefixed by their type
  (\<open>Svc_Grant\<close>, \<open>Repo_Revoke\<close>, \<open>Cache_Get\<close>, \<open>Handler_List\<close>).  A function that returns a value and an error
  gives \<open>Inl\<close> of the error or \<open>Inr\<close> of the value; errors are values of \<open>go_error\<close> with Go's chains.
  State is passed explicitly: everything outside the process and everything it counts or logs is the
  record \<open>world\<close> (database, cache server, three clocks, counters, log).  Strings are byte strings, UUIDs
  128-bit words, instants and durations integers of nanoseconds, with 64-bit ranges and wrap-around
  written out where the source can leave them (\<open>record_version\<close>, \<open>mul_duration\<close>).  Code outside the
  repository is a parameter with a named contract: the transaction runner and classifiers of
  platform-pgcommon (\<open>pg_env\<close>, \<open>tx_contract\<close>, \<open>classifier_contract\<close>; a transaction may fail at any statement, at commit
  or before it starts, and may be retried), the go-redis client (\<open>redis_contract\<close>: it may fail, evict
  and expire, but never invents a value), the HTTP client of the membership check, gin's matching and
  binding and gincommon's middleware (\<open>http_lib\<close>, \<open>docs_lib\<close>), the Prometheus registry, package yaml
  (\<open>async_lib\<close>) and the platform constructors of the start (\<open>run_lib\<close>).

  \<^bold>\<open>Theories, in the order of the layers.\<close>
  \<^item> \<open>Prelude\<close>, \<open>GoStd\<close>: shared types, lemma collections, and Go's strings and strconv.
  \<^item> \<open>Domain\<close> (\<open>domain/acl.go\<close>, \<open>errors.go\<close>), \<open>Context\<close> (\<open>http/context.go\<close>, \<open>WithTx\<close>), \<open>Logger\<close>
    (\<open>port/logger.go\<close>, \<open>logger_adapter.go\<close>), \<open>Ports\<close> (\<open>internal/core/port\<close>; the locales
    \<open>acl_repository\<close>, \<open>idempotency_store\<close>, \<open>tx_runner\<close>, \<open>acl_cache\<close> and \<open>membership_check\<close> state the contracts of
    the interfaces over an abstract list of entries).
  \<^item> \<open>AclService\<close> (\<open>acl_service.go\<close>): the four operations, and the locale \<open>acl_service\<close> with what they
    guarantee over any ports that keep their contracts.
  \<^item> \<open>Schema\<close> (the migration and the nine SQL statements: constraints, trigger, row-level security),
    \<open>World\<close> (state, counters), \<open>Pg\<close> (\<open>db.go\<close>, \<open>withTenant\<close>), \<open>Repository\<close> and \<open>RepositoryProps\<close>
    (\<open>repository.go\<close>), \<open>ProcessedEvents\<close> (\<open>processed_events.go\<close>), \<open>Consumers\<close> (the consumer package; the locale
    \<open>cascades\<close> and its extensions \<open>offboarding_cascade\<close> and \<open>member_removal_cascade\<close>), \<open>Json\<close>, \<open>ValkeyCache\<close>
    (\<open>cache.go\<close>), \<open>MembershipCheck\<close> (\<open>http_client.go\<close>, \<open>traceparent.go\<close>),
    \<open>Metrics\<close> (\<open>metrics.go\<close>).  Each adapter interprets the locale of its port.
  \<^item> \<open>Service\<close>: the service on the real adapters.  \<open>HttpBase\<close>, \<open>HttpApi\<close>, \<open>Router\<close>: DTOs, handlers,
    middleware chain, route table, docs surface.  \<open>AsyncApi\<close>: the event catalog (\<open>asyncapi.go\<close>).
    \<open>PgStartup\<close>: the embedded migrations, their runner and the pool's tracer (\<open>migrate.go\<close>,
    \<open>migrations_fs.go\<close>, \<open>otel_tracer.go\<close>).  \<open>Wiring\<close>, \<open>Config\<close>, \<open>Startup\<close>, \<open>Lifecycle\<close>, \<open>ProcessMain\<close>: \<open>cmd/tender-acl\<close>.  \<open>System\<close>: what one step of any entry
    point can do to database and cache.  \<open>Example\<close>: a concrete environment for the witnesses.

  \<^bold>\<open>What is shown.\<close>
  \<^item> \<open>ServiceTheorems\<close>: a grant is stored only after a confirmed active membership; an access check after
    a revoke or a grant; the exact meaning of an access answer.
  \<^item> \<open>RepoTheorems\<close>: isolation of tenants under row-level security, preservation of the schema's
    constraints, the history of a row, optimistic locking, duplicate grants, paging.
  \<^item> \<open>ConsumerTheorems\<close>: cascade and mark are one transaction, redelivery has no effect, unknown events
    are acknowledged, and a delivery completes when nothing fails.
  \<^item> \<open>CacheTheorems\<close>: what is cached comes back unchanged, for its own key, within thirty seconds.
  \<^item> \<open>HttpTheorems\<close>, \<open>HttpOutcomes\<close>: authority, end-to-end isolation, the status and code tables of the
    operations, the list window, readiness.
  \<^item> \<open>SystemTheorems\<close>: over all runs of the process, the schema's invariant, the thirty-second bound on
    stale answers, and the retention of the ledger.  \<open>Refinement\<close>: every run implements an abstract
    machine of grants, revocations and removals, and the life of an entry.  \<open>Interleaving\<close>: the bound on
    stale answers when requests overlap, and the race that makes it larger than thirty seconds.
  \<^item> \<open>Metrics\<close>, \<open>ConfigTheorems\<close>, \<open>Lifecycle\<close>, \<open>ProcessMain\<close>: counters fit their collectors; configuration
    errors, deadlines, connection strings, migration before serving, release of resources; the end of
    the error group in every interleaving of its goroutines; the exit status of the whole process.
  \<^item> \<open>AsyncTheorems\<close>: the catalog answers when references form no cycle (\<open>resolveSchema\<close> is a partial
    function, \<open>None\<close> is not returning), what rendering changes, table rows, escaping.  \<open>DocsSite\<close>: the
    catalog behind the routes, with the specification it keeps next to the state of the process; every
    run of that process is a run of \<open>SystemTheorems\<close>, and what each documentation route answers in every
    reachable state.

  \<^bold>\<open>Bounds.\<close>  No definition uses fuel: every loop is structural, ends by a measure, or is the partial function
  above.  The number of transaction attempts is a parameter of the contract.

  \<^bold>\<open>Not modelled.\<close>  The timeouts of requests and the cancellation of a context while a call runs; gin's path
  matching and the text form of JSON bodies (documents are used instead); the CSS and JavaScript texts
  of the pages and of \<open>swagger_theme.go\<close>; polling of SQS, tracing exporters and the listeners
  themselves; the generated \<open>docs/swagger\<close> and the test utilities.  Nothing else of the Go code is left
  out: the other lines that no definition models are imports, interface assertions, constructors that
  only fill a struct, and comments.  Concurrency inside the database is the contract of the transaction
  runner: a transaction is atomic.
\<close>

end
